(* ===== verification/Amc_Prelude.thy ===== *)
theory Amc_Prelude
  imports Main "HOL-Library.Word"
begin

text \<open>
  The vocabulary the components share: the machine types of the Go sources
  (\<^verbatim>\<open>uint64\<close>, \<^verbatim>\<open>uint256.Int\<close>, \<^verbatim>\<open>types.Address\<close>, \<^verbatim>\<open>types.Hash\<close>) as words of
  their width, checked slice indexing, the big-endian byte encodings the code uses, and
  the binary search of Go's \<^verbatim>\<open>sort.Search\<close>, with the generic lemmas on them.
\<close>

section \<open>Machine types\<close>

type_synonym byte = "8 word"
type_synonym u16 = "16 word"
type_synonym u64 = "64 word"
type_synonym u256 = "256 word"
type_synonym address = "160 word"
type_synonym hash = "256 word"

named_theorems undo_rules \<open>undoing one journal entry gives back an indistinguishable state\<close>
named_theorems frame_simps \<open>fields an operation does not write\<close>

section \<open>Slices\<close>

text \<open>\<^verbatim>\<open>xs[i]\<close> panics when the index is out of range: \<open>None\<close> is the panic.\<close>

definition go_index :: "'a list \<Rightarrow> int \<Rightarrow> 'a option" where
  "go_index xs i = (if 0 \<le> i \<and> i < int (length xs) then Some (xs ! nat i) else None)"

lemma go_index_of_nat [simp]: "n < length xs \<Longrightarrow> go_index xs (int n) = Some (xs ! n)"
  by (simp add: go_index_def)

lemma go_index_neg [simp]: "i < 0 \<Longrightarrow> go_index xs i = None"
  by (simp add: go_index_def)

lemma go_index_SomeD: "go_index xs i = Some x \<Longrightarrow> 0 \<le> i \<and> nat i < length xs \<and> x = xs ! nat i"
  by (auto simp: go_index_def split: if_splits)

lemma go_index_append_last [simp]: "go_index (xs @ [x]) (int (length xs)) = Some x"
  by (simp add: go_index_def)

section \<open>Bytes\<close>

text \<open>Big-endian bytes to an integer (\<^verbatim>\<open>uint256.Int.SetBytes\<close>) and back.\<close>

definition bytes_to_u256 :: "byte list \<Rightarrow> u256" where
  "bytes_to_u256 bs = foldl (\<lambda>acc b. acc * 256 + ucast b) 0 bs"

definition word_to_bytes :: "nat \<Rightarrow> 'a::len word \<Rightarrow> byte list" where
  "word_to_bytes n w = map (\<lambda>i. ucast (drop_bit (8 * (n - 1 - i)) w)) [0..<n]"

lemma length_word_to_bytes [simp]: "length (word_to_bytes n w) = n"
  by (simp add: word_to_bytes_def)

text \<open>The number of bits needed to write a number, 0 for 0 (\<^verbatim>\<open>bits.Len64\<close>, \<^verbatim>\<open>uint256.Int.BitLen\<close>).\<close>

fun nat_bits :: "nat \<Rightarrow> nat" where
  "nat_bits n = (if n = 0 then 0 else Suc (nat_bits (n div 2)))"

declare nat_bits.simps [simp del]

lemma nat_bits_0 [simp]: "nat_bits 0 = 0"
  by (simp add: nat_bits.simps)

lemma nat_bits_le: "nat_bits n \<le> k \<longleftrightarrow> n < 2 ^ k"
proof (induction n arbitrary: k rule: nat_bits.induct)
  case (1 n)
  show ?case
  proof (cases "n = 0")
    case False
    then have "nat_bits n = Suc (nat_bits (n div 2))" by (simp add: nat_bits.simps)
    with 1 [OF False] False show ?thesis by (cases k) (auto simp: div_less_iff_less_mult mult.commute)
  qed simp
qed

lemma less_nat_bits: "k < nat_bits n \<longleftrightarrow> 2 ^ k \<le> n"
  using nat_bits_le [of n k] by auto

section \<open>Binary search\<close>

text \<open>
  Go's \<^verbatim>\<open>sort.Search(n, f)\<close>: the loop halves \<open>[i, j)\<close> and keeps \<open>f (i-1) = false\<close>,
  \<open>f j = true\<close>. On a predicate that is false and then true it returns the first index
  where it is true, \<open>n\<close> if there is none.
\<close>

function search_loop :: "(nat \<Rightarrow> bool) \<Rightarrow> nat \<Rightarrow> nat \<Rightarrow> nat" where
  "search_loop f i j =
     (if i < j then
        (let h = (i + j) div 2 in
         if \<not> f h then search_loop f (h + 1) j else search_loop f i h)
      else i)"
  by pat_completeness auto
termination
  by (relation "measure (\<lambda>(f, i, j). j - i)") auto

declare search_loop.simps [simp del]

definition sort_Search :: "nat \<Rightarrow> (nat \<Rightarrow> bool) \<Rightarrow> nat" where
  "sort_Search n f = search_loop f 0 n"

lemma search_loop_first:
  assumes "i \<le> m" "m \<le> j" "\<And>k. i \<le> k \<Longrightarrow> k < j \<Longrightarrow> f k \<longleftrightarrow> m \<le> k"
  shows "search_loop f i j = m"
  using assms
proof (induction f i j rule: search_loop.induct)
  case (1 f i j)
  show ?case
  proof (cases "i < j")
    case False
    with "1.prems" show ?thesis by (simp add: search_loop.simps)
  next
    case True
    let ?h = "(i + j) div 2"
    have h: "i \<le> ?h" "?h < j" using True by auto
    then have fh: "f ?h \<longleftrightarrow> m \<le> ?h" using "1.prems"(3) by blast
    show ?thesis
    proof (cases "f ?h")
      case True
      with fh h have "search_loop f i ?h = m"
        using "1.IH"(2) [OF \<open>i < j\<close> refl] "1.prems" by simp
      with True \<open>i < j\<close> show ?thesis by (subst search_loop.simps) (simp add: Let_def)
    next
      case False
      with fh h have "search_loop f (?h + 1) j = m"
        using "1.IH"(1) [OF \<open>i < j\<close> refl] "1.prems" by simp
      with False \<open>i < j\<close> show ?thesis by (subst search_loop.simps) (simp add: Let_def)
    qed
  qed
qed

lemma sort_Search_first:
  assumes "m \<le> n" "\<And>k. k < n \<Longrightarrow> f k \<longleftrightarrow> m \<le> k"
  shows "sort_Search n f = m"
  using assms by (auto simp: sort_Search_def intro: search_loop_first)

lemma search_loop_bounds: "i \<le> j \<Longrightarrow> i \<le> search_loop f i j \<and> search_loop f i j \<le> j"
proof (induction f i j rule: search_loop.induct)
  case (1 f i j)
  show ?case
  proof (cases "i < j")
    case True
    let ?h = "(i + j) div 2"
    have h: "i \<le> ?h" "?h < j" using True by auto
    show ?thesis using "1.IH" [OF True refl] h True
      by (subst (1 2) search_loop.simps) (auto simp: Let_def)
  qed (use 1 in \<open>simp add: search_loop.simps\<close>)
qed

lemma sort_Search_le: "sort_Search n f \<le> n"
  using search_loop_bounds [of 0 n f] by (simp add: sort_Search_def)

end
