(* ===== verification/Access_List.thy ===== *)
theory Access_List
  imports Amc_Prelude
begin

text \<open>
  \<^verbatim>\<open>modules/state/access_list.go\<close>: the EIP-2929 access list. An address maps to \<open>-1\<close>
  (present, no slot) or to the index of its slot set in a slice; the journal deletes
  entries in the reverse order of their insertion, so the slice is only ever truncated.
\<close>

section \<open>Data and operations\<close>

record accessList =
  al_addresses :: "address \<rightharpoonup> int"
  al_slots :: "hash set list"

definition newAccessList :: accessList where
  "newAccessList = \<lparr>al_addresses = Map.empty, al_slots = []\<rparr>"

definition ContainsAddress :: "accessList \<Rightarrow> address \<Rightarrow> bool" where
  "ContainsAddress al a = (al_addresses al a \<noteq> None)"

definition Contains :: "accessList \<Rightarrow> address \<Rightarrow> hash \<Rightarrow> (bool \<times> bool) option" where
  "Contains al a slot =
     (case al_addresses al a of
        None \<Rightarrow> Some (False, False)
      | Some idx \<Rightarrow>
          if idx = -1 then Some (True, False)
          else (case go_index (al_slots al) idx of
                  None \<Rightarrow> None
                | Some slotmap \<Rightarrow> Some (True, slot \<in> slotmap)))"

definition al_Copy :: "accessList \<Rightarrow> accessList" where
  "al_Copy al = \<lparr>al_addresses = al_addresses al, al_slots = map (\<lambda>slotMap. slotMap) (al_slots al)\<rparr>"

definition AddAddress :: "accessList \<Rightarrow> address \<Rightarrow> bool \<times> accessList" where
  "AddAddress al a =
     (case al_addresses al a of
        Some _ \<Rightarrow> (False, al)
      | None \<Rightarrow> (True, al\<lparr>al_addresses := (al_addresses al)(a \<mapsto> -1)\<rparr>))"

definition AddSlot :: "accessList \<Rightarrow> address \<Rightarrow> hash \<Rightarrow> (bool \<times> bool \<times> accessList) option" where
  "AddSlot al a slot =
     (let addrPresent = (al_addresses al a \<noteq> None) in
      if \<not> addrPresent \<or> al_addresses al a = Some (-1) then
        Some (\<not> addrPresent, True,
              al\<lparr>al_addresses := (al_addresses al)(a \<mapsto> int (length (al_slots al))),
                 al_slots := al_slots al @ [{slot}]\<rparr>)
      else
        (let idx = the (al_addresses al a) in
         case go_index (al_slots al) idx of
           None \<Rightarrow> None
         | Some slotmap \<Rightarrow>
             if slot \<notin> slotmap
             then Some (False, True, al\<lparr>al_slots := (al_slots al)[nat idx := insert slot slotmap]\<rparr>)
             else Some (False, False, al)))"

definition DeleteSlot :: "accessList \<Rightarrow> address \<Rightarrow> hash \<Rightarrow> accessList option" where
  "DeleteSlot al a slot =
     (case al_addresses al a of
        None \<Rightarrow> None
      | Some idx \<Rightarrow>
          (case go_index (al_slots al) idx of
             None \<Rightarrow> None
           | Some slotmap \<Rightarrow>
               (let slotmap' = slotmap - {slot} in
                if slotmap' = {}
                then Some (al\<lparr>al_slots := take (nat idx) (al_slots al),
                              al_addresses := (al_addresses al)(a \<mapsto> -1)\<rparr>)
                else Some (al\<lparr>al_slots := (al_slots al)[nat idx := slotmap']\<rparr>))))"

definition DeleteAddress :: "accessList \<Rightarrow> address \<Rightarrow> accessList" where
  "DeleteAddress al a = al\<lparr>al_addresses := (al_addresses al)(a := None)\<rparr>"

section \<open>Well-formedness\<close>

text \<open>
  Every index points into the slice, two addresses never share a slot set, and no slot set
  is empty (an address whose last slot is gone goes back to \<open>-1\<close>).
\<close>

definition al_wf :: "accessList \<Rightarrow> bool" where
  "al_wf al \<longleftrightarrow>
     (\<forall>a i. al_addresses al a = Some i \<longrightarrow> i = -1 \<or> (0 \<le> i \<and> i < int (length (al_slots al)))) \<and>
     (\<forall>a b i. al_addresses al a = Some i \<longrightarrow> al_addresses al b = Some i \<longrightarrow> i \<noteq> -1 \<longrightarrow> a = b) \<and>
     {} \<notin> set (al_slots al)"

lemma al_wfD_range:
  "al_wf al \<Longrightarrow> al_addresses al a = Some i \<Longrightarrow> i \<noteq> -1 \<Longrightarrow> 0 \<le> i \<and> i < int (length (al_slots al))"
  by (auto simp: al_wf_def)

lemma al_wfD_inj:
  "al_wf al \<Longrightarrow> al_addresses al a = Some i \<Longrightarrow> al_addresses al b = Some i \<Longrightarrow> i \<noteq> -1 \<Longrightarrow> a = b"
  by (auto simp: al_wf_def)

lemma al_wf_new [simp, intro]: "al_wf newAccessList"
  by (simp add: al_wf_def newAccessList_def)

lemma al_wf_new_address:
  assumes "al_wf al" "al_addresses al a = None"
  shows "al_wf (al\<lparr>al_addresses := (al_addresses al)(a \<mapsto> -1)\<rparr>)"
  using assms unfolding al_wf_def by (auto split: if_splits)

lemma al_wf_AddAddress: "al_wf al \<Longrightarrow> AddAddress al a = (c, al') \<Longrightarrow> al_wf al'"
  by (auto simp: AddAddress_def al_wf_new_address split: option.splits)

text \<open>A new slot set, or one more slot in an existing set: the two ways \<open>AddSlot\<close> writes.\<close>

lemma al_wf_new_slotmap:
  assumes "al_wf al" "al_addresses al a = None \<or> al_addresses al a = Some (-1)"
  shows "al_wf (al\<lparr>al_addresses := (al_addresses al)(a \<mapsto> int (length (al_slots al))),
                   al_slots := al_slots al @ [{slot}]\<rparr>)"
  using assms unfolding al_wf_def by (fastforce split: if_splits)

lemma al_wf_insert_slot:
  assumes "al_wf al"
  shows "al_wf (al\<lparr>al_slots := (al_slots al)[n := insert slot m]\<rparr>)"
  using assms unfolding al_wf_def by (auto dest: set_update_subset_insert [THEN subsetD])

lemma al_wf_AddSlot: "al_wf al \<Longrightarrow> AddSlot al a slot = Some (x, y, al') \<Longrightarrow> al_wf al'"
  by (auto simp: AddSlot_def Let_def al_wf_new_slotmap al_wf_insert_slot split: if_splits option.splits)

lemma AddSlot_total: "al_wf al \<Longrightarrow> \<exists>x y al'. AddSlot al a slot = Some (x, y, al')"
  by (cases "al_addresses al a") (auto simp: AddSlot_def Let_def go_index_def dest: al_wfD_range)

lemma Contains_total: "al_wf al \<Longrightarrow> \<exists>p. Contains al a slot = Some p"
  by (cases "al_addresses al a") (auto simp: Contains_def go_index_def dest: al_wfD_range)

section \<open>The journal's deletions undo the additions\<close>

lemma al_addresses_triv [simp]: "f = al_addresses al \<Longrightarrow> al\<lparr>al_addresses := f\<rparr> = al"
  by simp

lemma al_addresses_upd_absent [simp]:
  "al_addresses al a = None \<Longrightarrow> al\<lparr>al_addresses := (al_addresses al)(a := None)\<rparr> = al"
  by (simp add: fun_upd_idem)

lemma al_slots_al_addresses_triv [simp]:
  "al\<lparr>al_addresses := f, al_slots := al_slots al\<rparr> = al\<lparr>al_addresses := f\<rparr>"
  by simp

lemma DeleteAddress_AddAddress:
  "AddAddress al a = (True, al') \<Longrightarrow> DeleteAddress al' a = al"
  by (auto simp: AddAddress_def DeleteAddress_def split: option.splits)

lemma DeleteSlot_AddSlot:
  assumes "al_wf al" "AddSlot al a slot = Some (ac, True, al')"
  shows "DeleteSlot al' a slot = Some (if ac then al\<lparr>al_addresses := (al_addresses al)(a \<mapsto> -1)\<rparr> else al)"
proof (cases "al_addresses al a = None \<or> al_addresses al a = Some (-1)")
  case True
  with assms(2) show ?thesis
    by (auto simp: AddSlot_def DeleteSlot_def Let_def fun_upd_idem)
next
  case False
  then obtain idx where idx: "al_addresses al a = Some idx" "idx \<noteq> -1" by auto
  with assms(1) have r: "0 \<le> idx" "idx < int (length (al_slots al))"
    by (auto dest: al_wfD_range)
  let ?m = "al_slots al ! nat idx"
  from r assms(1) have ne: "?m \<noteq> {}" by (auto simp: al_wf_def in_set_conv_nth)
  from assms(2) idx r have "slot \<notin> ?m" "\<not> ac"
    and al': "al' = al\<lparr>al_slots := (al_slots al)[nat idx := insert slot ?m]\<rparr>"
    by (auto simp: AddSlot_def Let_def go_index_def split: if_splits)
  with idx r ne show ?thesis
    by (simp add: DeleteSlot_def go_index_def Let_def)
qed

text \<open>Adding a slot of an absent address makes two journal entries; reverting both gives
  the list back.\<close>

lemma DeleteAddress_upd_absent:
  "al_addresses al a = None \<Longrightarrow> DeleteAddress (al\<lparr>al_addresses := (al_addresses al)(a \<mapsto> x)\<rparr>) a = al"
  by (simp add: DeleteAddress_def fun_upd_idem)

lemma AddSlot_new_address: "AddSlot al a slot = Some (True, sc, al') \<Longrightarrow> al_addresses al a = None \<and> sc"
  by (auto simp: AddSlot_def Let_def split: if_splits option.splits)

lemma AddSlot_unchanged: "AddSlot al a slot = Some (ac, False, al') \<Longrightarrow> \<not> ac \<and> al' = al"
  by (auto simp: AddSlot_def Let_def split: if_splits option.splits)

section \<open>The contract: a growing set of warm addresses and slots\<close>

text \<open>
  What the gas rules of EIP-2929 rely on: membership is that of a set of addresses and a
  set of (address, slot) pairs; additions insert and report whether they changed it.
\<close>

locale warm_set =
  fixes wf :: "'s \<Rightarrow> bool"
    and empty :: 's
    and add_addr :: "'s \<Rightarrow> address \<Rightarrow> bool \<times> 's"
    and add_slot :: "'s \<Rightarrow> address \<Rightarrow> hash \<Rightarrow> (bool \<times> bool \<times> 's) option"
    and has_addr :: "'s \<Rightarrow> address \<Rightarrow> bool"
    and has_slot :: "'s \<Rightarrow> address \<Rightarrow> hash \<Rightarrow> (bool \<times> bool) option"
    and addrs :: "'s \<Rightarrow> address set"
    and slots :: "'s \<Rightarrow> (address \<times> hash) set"
  assumes wf_empty: "wf empty"
    and abs_empty: "addrs empty = {}" "slots empty = {}"
    and has_addr_abs: "wf s \<Longrightarrow> has_addr s a \<longleftrightarrow> a \<in> addrs s"
    and has_slot_abs: "wf s \<Longrightarrow> has_slot s a k = Some (a \<in> addrs s, (a, k) \<in> slots s)"
    and add_addr_abs: "wf s \<Longrightarrow> add_addr s a = (c, s') \<Longrightarrow>
       wf s' \<and> c = (a \<notin> addrs s) \<and> addrs s' = insert a (addrs s) \<and> slots s' = slots s"
    and add_slot_abs: "wf s \<Longrightarrow> add_slot s a k = Some (c, d, s') \<Longrightarrow>
       wf s' \<and> c = (a \<notin> addrs s) \<and> d = ((a, k) \<notin> slots s) \<and>
       addrs s' = insert a (addrs s) \<and> slots s' = insert (a, k) (slots s)"
    and add_slot_total: "wf s \<Longrightarrow> add_slot s a k \<noteq> None"
begin

text \<open>A slot that was added is warm, and so is its address; what was warm stays warm.\<close>

lemma add_slot_warm:
  assumes "wf s" "add_slot s a k = Some (c, d, s')"
  shows "has_slot s' a k = Some (True, True)"
  using add_slot_abs [OF assms] by (simp add: has_slot_abs)

lemma add_slot_keeps:
  assumes "wf s" "add_slot s a k = Some (c, d, s')" "has_slot s b l = Some (p, q)"
  shows "\<exists>p' q'. has_slot s' b l = Some (p', q') \<and> (p \<longrightarrow> p') \<and> (q \<longrightarrow> q') \<and>
         ((b, l) \<noteq> (a, k) \<longrightarrow> q' = q) \<and> (b \<noteq> a \<longrightarrow> p' = p)"
  using add_slot_abs [OF assms(1,2)] assms(1,3) by (auto simp: has_slot_abs)

text \<open>The second addition of a slot reports no change.\<close>

lemma add_slot_again:
  assumes "wf s" "add_slot s a k = Some (c, d, s')"
  shows "\<exists>s''. add_slot s' a k = Some (False, False, s'')"
proof -
  have w: "wf s'" using add_slot_abs [OF assms] by simp
  obtain c' d' s'' where e: "add_slot s' a k = Some (c', d', s'')"
    using add_slot_total [OF w, of a k] by (cases "add_slot s' a k") auto
  show ?thesis using add_slot_abs [OF w e] add_slot_abs [OF assms] e by auto
qed

end

definition al_addr_set :: "accessList \<Rightarrow> address set" where
  "al_addr_set al = dom (al_addresses al)"

definition al_slot_set :: "accessList \<Rightarrow> (address \<times> hash) set" where
  "al_slot_set al = {(a, k). \<exists>i. al_addresses al a = Some i \<and> i \<noteq> -1 \<and> k \<in> al_slots al ! nat i}"

lemma al_slot_set_new_slotmap:
  assumes "al_wf al" "al_addresses al a = None \<or> al_addresses al a = Some (-1)"
  shows "al_slot_set (al\<lparr>al_addresses := (al_addresses al)(a \<mapsto> int (length (al_slots al))),
                         al_slots := al_slots al @ [{slot}]\<rparr>) = insert (a, slot) (al_slot_set al)"
proof -
  have "nat i < length (al_slots al)" if "al_addresses al b = Some i" "i \<noteq> -1" for b i
    using al_wfD_range [OF assms(1) that] by auto
  with assms(2) show ?thesis
    by (fastforce simp: al_slot_set_def nth_append split: if_splits)
qed

lemma al_slot_set_insert_slot:
  assumes "al_wf al" "al_addresses al a = Some i" "i \<noteq> -1"
  shows "al_slot_set (al\<lparr>al_slots := (al_slots al)[nat i := insert slot (al_slots al ! nat i)]\<rparr>) =
         insert (a, slot) (al_slot_set al)"
proof -
  have r: "nat i < length (al_slots al)" using assms by (auto dest: al_wfD_range)
  have other: "nat j \<noteq> nat i" if "al_addresses al b = Some j" "j \<noteq> -1" "b \<noteq> a" for b j
    using al_wfD_range [OF assms(1) that(1,2)] al_wfD_range [OF assms] al_wfD_inj [OF assms(1) that(1)]
      assms(2) that by (metis eq_nat_nat_iff)
  have "(b, l) \<in> al_slot_set (al\<lparr>al_slots := (al_slots al)[nat i := insert slot (al_slots al ! nat i)]\<rparr>)
        \<longleftrightarrow> (b, l) \<in> insert (a, slot) (al_slot_set al)" for b l
  proof (cases "b = a")
    case True
    with r assms show ?thesis by (simp add: al_slot_set_def)
  next
    case False
    then show ?thesis using other [of b] by (auto simp: al_slot_set_def)
  qed
  then show ?thesis by auto
qed

lemma AddSlot_sets:
  assumes "al_wf al" "AddSlot al a k = Some (c, d, al')"
  shows "al_wf al' \<and> c = (a \<notin> al_addr_set al) \<and> d = ((a, k) \<notin> al_slot_set al) \<and>
         al_addr_set al' = insert a (al_addr_set al) \<and>
         al_slot_set al' = insert (a, k) (al_slot_set al)"
proof (cases "al_addresses al a = None \<or> al_addresses al a = Some (-1)")
  case True
  let ?al = "al\<lparr>al_addresses := (al_addresses al)(a \<mapsto> int (length (al_slots al))),
               al_slots := al_slots al @ [{k}]\<rparr>"
  from True assms(2) have r: "al' = ?al" "c = (al_addresses al a = None)" "d"
    by (auto simp: AddSlot_def Let_def)
  have n: "(a, k) \<notin> al_slot_set al" using True by (auto simp: al_slot_set_def)
  have "al_addr_set ?al = insert a (al_addr_set al)" by (simp add: al_addr_set_def)
  with r n al_slot_set_new_slotmap [OF assms(1) True, of k] al_wf_new_slotmap [OF assms(1) True, of k]
  show ?thesis by (simp add: al_addr_set_def domIff)
next
  case False
  then obtain i where i: "al_addresses al a = Some i" "i \<noteq> -1" by auto
  with assms(1) have r: "0 \<le> i" "i < int (length (al_slots al))" by (auto dest: al_wfD_range)
  have "(a, k) \<in> al_slot_set al \<longleftrightarrow> k \<in> al_slots al ! nat i"
    using i by (auto simp: al_slot_set_def)
  with assms i r al_slot_set_insert_slot [OF assms(1) i] al_wf_insert_slot [OF assms(1)]
  show ?thesis
    by (auto simp: AddSlot_def Let_def go_index_def al_addr_set_def insert_absorb split: if_splits)
qed

interpretation al: warm_set al_wf newAccessList AddAddress AddSlot ContainsAddress Contains
  al_addr_set al_slot_set
proof (unfold_locales, goal_cases)
  case 1 show ?case by simp
next
  case 2 show ?case by (simp add: al_addr_set_def newAccessList_def)
next
  case 3 show ?case by (simp add: al_slot_set_def newAccessList_def)
next
  case 4 then show ?case by (auto simp: ContainsAddress_def al_addr_set_def)
next
  case (5 s a k) then show ?case
    by (auto simp: Contains_def al_addr_set_def al_slot_set_def go_index_def
        split: option.splits dest: al_wfD_range)
next
  case (6 s a c s') then show ?case
    by (auto simp: AddAddress_def al_addr_set_def al_slot_set_def al_wf_new_address split: option.splits if_splits)
next
  case 7 then show ?case by (rule AddSlot_sets)
next
  case (8 s a k) then show ?case using AddSlot_total by fastforce
qed

end
