(* ===== verification/State_Types.thy ===== *)
theory State_Types
  imports Access_List
begin

text \<open>
  The data of \<^verbatim>\<open>modules/state\<close>: accounts (\<^verbatim>\<open>common/account/state_account.go\<close>), the
  execution witness \<^verbatim>\<open>Snapshot\<close> (\<^verbatim>\<open>entire.go\<close>), state objects (\<^verbatim>\<open>state_object.go\<close>),
  journal entries (\<^verbatim>\<open>journal.go\<close>) and the state database record
  (\<^verbatim>\<open>intra_block_state.go\<close>). A Go result \<^verbatim>\<open>(v, err)\<close> is a pair whose second part is
  \<open>None\<close> for a nil error. A nil slice is \<open>None\<close>, so nil and empty code stay apart.
\<close>

unbundle bit_operations_syntax

section \<open>Accounts\<close>

record StateAccount =
  acc_Initialised :: bool
  acc_Nonce :: u64
  acc_Balance :: u256
  acc_Root :: hash
  acc_CodeHash :: hash
  acc_Incarnation :: u16

text \<open>The zero value of the Go struct.\<close>

definition zero_account :: StateAccount where
  "zero_account = \<lparr>acc_Initialised = False, acc_Nonce = 0, acc_Balance = 0, acc_Root = 0,
                   acc_CodeHash = 0, acc_Incarnation = 0\<rparr>"

datatype db_error =
    DbError string
  | RefundBelowZero
  | CantLoadCode hash db_error

text \<open>
  The protobuf messages an account is stored as (\<^verbatim>\<open>H128\<close>, \<^verbatim>\<open>H256\<close>, \<^verbatim>\<open>state.Account\<close>); the
  pointers to sub-messages may be nil in a decoded message.
\<close>

record H128 =
  h128_Hi :: u64
  h128_Lo :: u64

record H256 =
  h256_Hi :: "H128 option"
  h256_Lo :: "H128 option"

record pbAccount =
  pb_Initialised :: bool
  pb_Nonce :: u64
  pb_Balance :: "H256 option"
  pb_Root :: "H256 option"
  pb_CodeHash :: "H256 option"
  pb_Incarnation :: u64

text \<open>
  Code outside the sources, as parameters of the model: the Keccak hash
  (\<^verbatim>\<open>golang.org/x/crypto/sha3\<close>) and the protobuf wire format (\<^verbatim>\<open>proto.Marshal\<close>,
  \<^verbatim>\<open>proto.Unmarshal\<close>).
\<close>

record Externals =
  keccak :: "byte list \<Rightarrow> hash"
  protoMarshal :: "pbAccount \<Rightarrow> byte list"
  protoUnmarshal :: "byte list \<Rightarrow> pbAccount \<times> db_error option"

text \<open>
  \<^verbatim>\<open>uint256.Int\<close> is four 64-bit limbs and a hash 32 bytes, both read as one 256-bit word: the
  limbs (least significant first) and the eight-byte groups (most significant first) are the same
  four slices of the word, so the two conversions of the source are one function here. Following
  a nil sub-message panics (\<open>None\<close>).
\<close>

definition ConvertUint256IntToH256 :: "u256 \<Rightarrow> H256" where
  "ConvertUint256IntToH256 i = \<lparr>
     h256_Hi = Some \<lparr>h128_Hi = ucast (drop_bit 192 i), h128_Lo = ucast (drop_bit 128 i)\<rparr>,
     h256_Lo = Some \<lparr>h128_Hi = ucast (drop_bit 64 i), h128_Lo = ucast i\<rparr>\<rparr>"

definition ConvertH256ToUint256Int :: "H256 option \<Rightarrow> u256 option" where
  "ConvertH256ToUint256Int h =
     (case h of
        Some h256 \<Rightarrow>
          (case (h256_Hi h256, h256_Lo h256) of
             (Some hi, Some lo) \<Rightarrow>
               Some (push_bit 192 (ucast (h128_Hi hi)) OR push_bit 128 (ucast (h128_Lo hi)) OR
                     push_bit 64 (ucast (h128_Hi lo)) OR ucast (h128_Lo lo))
           | _ \<Rightarrow> None)
      | None \<Rightarrow> None)"

definition ToProtoMessage :: "StateAccount \<Rightarrow> pbAccount" where
  "ToProtoMessage a = \<lparr>pb_Initialised = acc_Initialised a, pb_Nonce = acc_Nonce a,
     pb_Balance = Some (ConvertUint256IntToH256 (acc_Balance a)),
     pb_Root = Some (ConvertUint256IntToH256 (acc_Root a)),
     pb_CodeHash = Some (ConvertUint256IntToH256 (acc_CodeHash a)),
     pb_Incarnation = ucast (acc_Incarnation a)\<rparr>"

text \<open>The buffer has the size \<^verbatim>\<open>proto.Size\<close> gives, the length of the encoding.\<close>

definition EncodeForStorage :: "Externals \<Rightarrow> StateAccount \<Rightarrow> byte list" where
  "EncodeForStorage ext a = protoMarshal ext (ToProtoMessage a)"

text \<open>The outer option is the panic on a nil sub-message.\<close>

definition acc_Unmarshal ::
  "Externals \<Rightarrow> StateAccount \<Rightarrow> byte list \<Rightarrow> (StateAccount \<times> db_error option) option" where
  "acc_Unmarshal ext a v =
     (case protoUnmarshal ext v of
        (_, Some err) \<Rightarrow> Some (a, Some err)
      | (p, None) \<Rightarrow>
          (case (ConvertH256ToUint256Int (pb_Balance p), ConvertH256ToUint256Int (pb_Root p),
                 ConvertH256ToUint256Int (pb_CodeHash p)) of
             (Some balance, Some root, Some codeHash) \<Rightarrow>
               Some (a\<lparr>acc_Initialised := pb_Initialised p, acc_Nonce := pb_Nonce p,
                       acc_Balance := balance, acc_Root := root, acc_CodeHash := codeHash,
                       acc_Incarnation := ucast (pb_Incarnation p)\<rparr>, None)
           | _ \<Rightarrow> None))"

definition NewAccount :: "Externals \<Rightarrow> StateAccount" where
  "NewAccount ext = zero_account\<lparr>acc_Root := keccak ext [], acc_CodeHash := keccak ext []\<rparr>"

definition acc_Copy :: "StateAccount \<Rightarrow> StateAccount \<Rightarrow> StateAccount" where
  "acc_Copy a img = \<lparr>acc_Initialised = acc_Initialised img, acc_Nonce = acc_Nonce img,
     acc_Balance = acc_Balance img, acc_Root = acc_Root img,
     acc_CodeHash = acc_CodeHash img, acc_Incarnation = acc_Incarnation img\<rparr>"

definition acc_Reset :: "Externals \<Rightarrow> StateAccount \<Rightarrow> StateAccount" where
  "acc_Reset ext a = a\<lparr>acc_Initialised := True, acc_Nonce := 0, acc_Incarnation := 0,
     acc_Balance := 0, acc_Root := keccak ext [], acc_CodeHash := keccak ext []\<rparr>"

definition DecodeForStorage ::
  "Externals \<Rightarrow> StateAccount \<Rightarrow> byte list \<Rightarrow> (StateAccount \<times> db_error option) option" where
  "DecodeForStorage ext a enc =
     (let a0 = acc_Reset ext a in
      if enc = [] then Some (a0, None) else acc_Unmarshal ext a0 enc)"

definition SelfCopy :: "Externals \<Rightarrow> StateAccount \<Rightarrow> StateAccount" where
  "SelfCopy ext a = acc_Copy (NewAccount ext) a"

definition IsEmptyCodeHash :: "Externals \<Rightarrow> hash \<Rightarrow> bool" where
  "IsEmptyCodeHash ext codeHash = (codeHash = keccak ext [] \<or> codeHash = 0)"

definition IsEmptyRoot :: "Externals \<Rightarrow> StateAccount \<Rightarrow> bool" where
  "IsEmptyRoot ext a = (acc_Root a = keccak ext [] \<or> acc_Root a = 0)"

definition acc_Equals :: "StateAccount \<Rightarrow> StateAccount \<Rightarrow> bool" where
  "acc_Equals a b = (acc_Nonce a = acc_Nonce b \<and> acc_CodeHash a = acc_CodeHash b \<and>
     acc_Balance a = acc_Balance b \<and> acc_Incarnation a = acc_Incarnation b)"

lemma acc_Copy_image [simp]: "acc_Copy a img = img"
  by (simp add: acc_Copy_def)

lemma ConvertH256_roundtrip [simp]: "ConvertH256ToUint256Int (Some (ConvertUint256IntToH256 w)) = Some w"
proof -
  have "push_bit 192 (ucast (ucast (drop_bit 192 w) :: u64)) OR
        push_bit 128 (ucast (ucast (drop_bit 128 w) :: u64)) OR
        push_bit 64 (ucast (ucast (drop_bit 64 w) :: u64)) OR ucast (ucast w :: u64) = w" (is "?l = w")
  proof (rule bit_word_eqI)
    fix n assume "n < LENGTH(256)"
    then consider "n < 64" | "64 \<le> n" "n < 128" | "128 \<le> n" "n < 192" | "192 \<le> n" "n < 256" by fastforce
    then show "bit ?l n = bit w n"
      by cases (auto simp: bit_simps)
  qed
  then show ?thesis by (simp add: ConvertH256ToUint256Int_def ConvertUint256IntToH256_def)
qed

lemma ucast_u64_u16 [simp]: "ucast (ucast (w :: u16) :: u64) = w"
  by (rule bit_word_eqI) (simp add: bit_simps)

text \<open>Decoding what was encoded gives the account back, where the wire format does.\<close>

lemma DecodeForStorage_EncodeForStorage:
  assumes "protoUnmarshal ext (EncodeForStorage ext a) = (ToProtoMessage a, None)"
    "EncodeForStorage ext a \<noteq> []"
  shows "DecodeForStorage ext b (EncodeForStorage ext a) = Some (a, None)"
  using assms by (simp add: DecodeForStorage_def acc_Unmarshal_def ToProtoMessage_def)

section \<open>The execution witness\<close>

definition PlainGenerateCompositeStorageKey :: "address \<Rightarrow> u16 \<Rightarrow> hash \<Rightarrow> byte list" where
  "PlainGenerateCompositeStorageKey a incarnation key =
     word_to_bytes 20 a @ word_to_bytes 2 incarnation @ word_to_bytes 32 key"

record Item =
  it_Key :: "byte list"
  it_Value :: "byte list"

datatype table = Account_table | Storage_table

record Snapshot =
  sn_Items :: "Item option list"
  sn_OutHash :: hash
  sn_accounts :: "byte list \<rightharpoonup> nat"
  sn_storage :: "byte list \<rightharpoonup> nat"
  sn_written :: bool
  sn_getOneFun :: "(table \<Rightarrow> byte list \<Rightarrow> byte list option \<times> db_error option) option"

definition NewWritableSnapshot :: "Externals \<Rightarrow> Snapshot" where
  "NewWritableSnapshot ext = \<lparr>sn_Items = [], sn_OutHash = keccak ext [], sn_accounts = Map.empty,
     sn_storage = Map.empty, sn_written = True, sn_getOneFun = None\<rparr>"

definition NewReadableSnapshot :: "Externals \<Rightarrow> Snapshot" where
  "NewReadableSnapshot ext = \<lparr>sn_Items = [], sn_OutHash = keccak ext [], sn_accounts = Map.empty,
     sn_storage = Map.empty, sn_written = False, sn_getOneFun = None\<rparr>"

definition CanWrite :: "Snapshot \<Rightarrow> bool" where
  "CanWrite s = sn_written s"

definition sn_AddAccount :: "Externals \<Rightarrow> Snapshot \<Rightarrow> address \<Rightarrow> StateAccount option \<Rightarrow> Snapshot" where
  "sn_AddAccount ext s a account =
     (case account of
        None \<Rightarrow> s
      | Some acc \<Rightarrow>
          if \<not> sn_written s then s
          else (let items = sn_Items s @ [Some \<lparr>it_Key = word_to_bytes 20 a, it_Value = EncodeForStorage ext acc\<rparr>]
                in s\<lparr>sn_Items := items,
                     sn_accounts := (sn_accounts s)(word_to_bytes 20 a \<mapsto> length items)\<rparr>))"

definition sn_AddStorage :: "Snapshot \<Rightarrow> address \<Rightarrow> hash \<Rightarrow> u16 \<Rightarrow> byte list \<Rightarrow> Snapshot" where
  "sn_AddStorage s a key incarnation v =
     (if \<not> sn_written s \<or> v = [] then s
      else (let compositeKey = PlainGenerateCompositeStorageKey a incarnation key in
            s\<lparr>sn_Items := sn_Items s @ [Some \<lparr>it_Key = compositeKey, it_Value = v\<rparr>],
              sn_storage := (sn_storage s)(compositeKey \<mapsto> card (dom (sn_storage s)))\<rparr>))"

text \<open>\<^verbatim>\<open>s.Items[index]\<close> panics out of range: \<open>None\<close> is the panic.\<close>

definition sn_ReadAccountStorage ::
  "Snapshot \<Rightarrow> address \<Rightarrow> u16 \<Rightarrow> hash \<Rightarrow> (byte list option \<times> db_error option) option" where
  "sn_ReadAccountStorage s a incarnation key =
     (if sn_written s then Some (None, None)
      else (let compositeKey = PlainGenerateCompositeStorageKey a incarnation key in
            case sn_storage s compositeKey of
              None \<Rightarrow> (case sn_getOneFun s of
                         Some f \<Rightarrow> Some (f Storage_table compositeKey)
                       | None \<Rightarrow> Some (None, None))
            | Some index \<Rightarrow>
                (case go_index (sn_Items s) (int index) of
                   None \<Rightarrow> None
                 | Some None \<Rightarrow> Some (None, None)
                 | Some (Some it) \<Rightarrow> Some (Some (it_Value it), None))))"

definition sn_ReadAccountData ::
  "Externals \<Rightarrow> Snapshot \<Rightarrow> address \<Rightarrow> (StateAccount option \<times> db_error option) option" where
  "sn_ReadAccountData ext s a =
     (if sn_written s then Some (None, None)
      else (let addr = word_to_bytes 20 a;
                decode = (\<lambda>v. case DecodeForStorage ext zero_account v of
                                None \<Rightarrow> None
                              | Some (acc, None) \<Rightarrow> Some (Some acc, None)
                              | Some (_, Some e) \<Rightarrow> Some (None, Some e))
            in case sn_accounts s addr of
                 None \<Rightarrow>
                   (case sn_getOneFun s of
                      Some f \<Rightarrow>
                        (case f Account_table addr of
                           (_, Some e) \<Rightarrow> Some (None, Some e)
                         | (None, None) \<Rightarrow> Some (None, None)
                         | (Some v, None) \<Rightarrow> decode v)
                    | None \<Rightarrow> Some (None, None))
               | Some index \<Rightarrow>
                   (case go_index (sn_Items s) (int index) of
                      None \<Rightarrow> None
                    | Some None \<Rightarrow> Some (None, None)
                    | Some (Some it) \<Rightarrow> decode (it_Value it))))"

text \<open>
  The index maps a reader builds from the items (\<^verbatim>\<open>ReadSnapshotData\<close>, \<^verbatim>\<open>SetSnapshot\<close>): a
  20-byte key is an account, any other a storage slot; a nil item panics (\<open>None\<close>).
\<close>

fun index_items :: "nat \<Rightarrow> Item option list \<Rightarrow> Snapshot \<Rightarrow> Snapshot option" where
  "index_items k [] s = Some s"
| "index_items k (None # its) s = None"
| "index_items k (Some v # its) s =
     index_items (Suc k) its
       (if length (it_Key v) = 20
        then s\<lparr>sn_accounts := (sn_accounts s)(it_Key v \<mapsto> k)\<rparr>
        else s\<lparr>sn_storage := (sn_storage s)(it_Key v \<mapsto> k)\<rparr>)"

definition ReadSnapshotData ::
  "Externals \<Rightarrow> (byte list \<Rightarrow> Snapshot \<Rightarrow> db_error + Snapshot) \<Rightarrow> byte list \<Rightarrow> (db_error + Snapshot) option" where
  "ReadSnapshotData ext rlpDecode bs =
     (let snap = NewReadableSnapshot ext in
      if bs = [] then Some (Inr snap)
      else (case rlpDecode bs snap of
              Inl e \<Rightarrow> Some (Inl e)
            | Inr snap' \<Rightarrow> map_option Inr (index_items 0 (sn_Items snap') snap')))"

section \<open>State objects\<close>

type_synonym Storage = "hash \<rightharpoonup> u256"

record stateObject =
  so_address :: address
  so_data :: StateAccount
  so_original :: StateAccount
  so_code :: "byte list option"
  so_originStorage :: Storage
  so_blockOriginStorage :: Storage
  so_dirtyStorage :: Storage
  so_fakeStorage :: "Storage option"
  so_dirtyCode :: bool
  so_selfdestructed :: bool
  so_deleted :: bool
  so_created :: bool

section \<open>The journal\<close>

datatype journalEntry =
    createObjectChange address
  | resetObjectChange address stateObject
  | selfdestructChange address bool u256
  | balanceChange address u256
  | balanceIncrease address u256
  | balanceIncreaseTransfer address
  | nonceChange address u64
  | storageChange address hash u256
  | fakeStorageChange address hash u256
  | codeChange address "byte list option" hash
  | refundChange u64
  | addLogChange hash
  | touchChange address
  | accessListAddAccountChange address
  | accessListAddSlotChange address hash

record journal =
  jn_entries :: "journalEntry list"
  jn_dirties :: "address \<rightharpoonup> int"

definition newJournal :: journal where
  "newJournal = \<lparr>jn_entries = [], jn_dirties = Map.empty\<rparr>"

fun dirtied :: "journalEntry \<Rightarrow> address option" where
  "dirtied (createObjectChange a) = Some a"
| "dirtied (resetObjectChange a _) = None"
| "dirtied (selfdestructChange a _ _) = Some a"
| "dirtied (balanceChange a _) = Some a"
| "dirtied (balanceIncrease a _) = Some a"
| "dirtied (balanceIncreaseTransfer _) = None"
| "dirtied (nonceChange a _) = Some a"
| "dirtied (storageChange a _ _) = Some a"
| "dirtied (fakeStorageChange a _ _) = Some a"
| "dirtied (codeChange a _ _) = Some a"
| "dirtied (refundChange _) = None"
| "dirtied (addLogChange _) = None"
| "dirtied (touchChange a) = Some a"
| "dirtied (accessListAddAccountChange _) = None"
| "dirtied (accessListAddSlotChange _ _) = None"

definition jn_get :: "journal \<Rightarrow> address \<Rightarrow> int" where
  "jn_get j a = (case jn_dirties j a of None \<Rightarrow> 0 | Some n \<Rightarrow> n)"

definition jn_dirty :: "journal \<Rightarrow> address \<Rightarrow> journal" where
  "jn_dirty j a = j\<lparr>jn_dirties := (jn_dirties j)(a \<mapsto> jn_get j a + 1)\<rparr>"

definition jn_append :: "journal \<Rightarrow> journalEntry \<Rightarrow> journal" where
  "jn_append j e =
     (let j' = j\<lparr>jn_entries := jn_entries j @ [e]\<rparr> in
      case dirtied e of None \<Rightarrow> j' | Some a \<Rightarrow> j'\<lparr>jn_dirties := (jn_dirties j')(a \<mapsto> jn_get j' a + 1)\<rparr>)"

text \<open>The counter of one reverted entry goes down and is deleted at zero.\<close>

definition jn_undirty :: "journal \<Rightarrow> journalEntry \<Rightarrow> journal" where
  "jn_undirty j e =
     (case dirtied e of
        None \<Rightarrow> j
      | Some a \<Rightarrow>
          (let n = jn_get j a - 1 in
           if n = 0 then j\<lparr>jn_dirties := (jn_dirties j)(a := None)\<rparr>
           else j\<lparr>jn_dirties := (jn_dirties j)(a \<mapsto> n)\<rparr>))"

definition jn_length :: "journal \<Rightarrow> nat" where
  "jn_length j = length (jn_entries j)"

section \<open>The state database\<close>

record StateReader =
  ReadAccountData :: "address \<Rightarrow> StateAccount option \<times> db_error option"
  ReadAccountStorage :: "address \<Rightarrow> u16 \<Rightarrow> hash \<Rightarrow> byte list option \<times> db_error option"
  ReadAccountCode :: "address \<Rightarrow> u16 \<Rightarrow> hash \<Rightarrow> byte list option \<times> db_error option"
  ReadAccountCodeSize :: "address \<Rightarrow> u16 \<Rightarrow> hash \<Rightarrow> int \<times> db_error option"
  ReadAccountIncarnation :: "address \<Rightarrow> u16 \<times> db_error option"

record BalanceIncrease =
  bi_increase :: u256
  bi_transferred :: bool
  bi_count :: int

record Log =
  lg_Address :: address
  lg_Topics :: "hash list"
  lg_Data :: "byte list"
  lg_BlockNumber :: "u256 option"
  lg_TxHash :: hash
  lg_TxIndex :: u64
  lg_BlockHash :: hash
  lg_Index :: u64
  lg_Removed :: bool

record revision =
  rv_id :: nat
  rv_journalIndex :: nat

record IntraBlockState =
  sdb_ext :: Externals
  sdb_stateReader :: StateReader
  sdb_stateObjects :: "address \<rightharpoonup> stateObject"
  sdb_stateObjectsDirty :: "address set"
  sdb_nilAccounts :: "address set"
  sdb_savedErr :: "db_error option"
  sdb_refund :: u64
  sdb_thash :: hash
  sdb_bhash :: hash
  sdb_txIndex :: int
  sdb_logs :: "hash \<rightharpoonup> Log list"
  sdb_logSize :: u64
  sdb_journal :: journal
  sdb_validRevisions :: "revision list"
  sdb_nextRevisionID :: nat
  sdb_accessList :: accessList
  sdb_balanceInc :: "address \<rightharpoonup> BalanceIncrease"
  sdb_snap :: "Snapshot option"
  sdb_codeMap :: "hash \<rightharpoonup> byte list"
  sdb_height :: u64

end
