(* ===== verification/State_DB.thy ===== *)
theory State_DB
  imports State_Types
begin

text \<open>
  The operations of \<^verbatim>\<open>modules/state/intra_block_state.go\<close>, \<^verbatim>\<open>state_object.go\<close> and
  \<^verbatim>\<open>journal.go\<close>. A method of a state object, which in Go mutates the object the database
  points to and appends to the database's journal, takes the database and the object and
  returns the database with the object stored back under its address. Tracer callbacks and
  debug printing are left out: they do not write the state. A panic is \<open>None\<close>.
  The journal's \<^verbatim>\<open>balanceIncreaseTransfer\<close> holds a pointer to the increase; the model holds
  its address: entries are undone in reverse order, so the increase the pointer refers to is
  the one the map holds for the address as long as the entry is in the journal.
\<close>

section \<open>Construction\<close>

definition New :: "Externals \<Rightarrow> StateReader \<Rightarrow> IntraBlockState" where
  "New ext stateReader = \<lparr>
     sdb_ext = ext, sdb_stateReader = stateReader, sdb_stateObjects = Map.empty,
     sdb_stateObjectsDirty = {}, sdb_nilAccounts = {}, sdb_savedErr = None, sdb_refund = 0,
     sdb_thash = 0, sdb_bhash = 0, sdb_txIndex = 0, sdb_logs = Map.empty, sdb_logSize = 0,
     sdb_journal = newJournal, sdb_validRevisions = [], sdb_nextRevisionID = 0,
     sdb_accessList = newAccessList, sdb_balanceInc = Map.empty, sdb_snap = None,
     sdb_codeMap = Map.empty, sdb_height = 0\<rparr>"

definition BeginWriteSnapshot :: "IntraBlockState \<Rightarrow> IntraBlockState" where
  "BeginWriteSnapshot sdb = sdb\<lparr>sdb_snap := Some (NewWritableSnapshot (sdb_ext sdb))\<rparr>"

definition SetOutHash :: "IntraBlockState \<Rightarrow> hash \<Rightarrow> IntraBlockState" where
  "SetOutHash sdb h =
     (case sdb_snap sdb of
        None \<Rightarrow> sdb
      | Some snap \<Rightarrow> if \<not> CanWrite snap then sdb else sdb\<lparr>sdb_snap := Some (snap\<lparr>sn_OutHash := h\<rparr>)\<rparr>)"

definition SetSnapshot :: "IntraBlockState \<Rightarrow> Snapshot \<Rightarrow> IntraBlockState option" where
  "SetSnapshot sdb snap =
     map_option (\<lambda>snap'. sdb\<lparr>sdb_snap := Some snap'\<rparr>)
       (index_items 0 (sn_Items snap) (snap\<lparr>sn_accounts := Map.empty, sn_storage := Map.empty\<rparr>))"

definition setErrorUnsafe :: "IntraBlockState \<Rightarrow> db_error \<Rightarrow> IntraBlockState" where
  "setErrorUnsafe sdb err =
     (case sdb_savedErr sdb of None \<Rightarrow> sdb\<lparr>sdb_savedErr := Some err\<rparr> | Some _ \<Rightarrow> sdb)"

definition clearJournalAndRefund :: "IntraBlockState \<Rightarrow> IntraBlockState" where
  "clearJournalAndRefund sdb =
     sdb\<lparr>sdb_journal := newJournal, sdb_validRevisions := [], sdb_refund := 0\<rparr>"

definition sdb_Reset :: "IntraBlockState \<Rightarrow> IntraBlockState" where
  "sdb_Reset sdb =
     (clearJournalAndRefund
        (sdb\<lparr>sdb_stateObjects := Map.empty, sdb_stateObjectsDirty := {}, sdb_thash := 0,
             sdb_bhash := 0, sdb_txIndex := 0, sdb_logs := Map.empty, sdb_logSize := 0\<rparr>))
     \<lparr>sdb_accessList := newAccessList, sdb_balanceInc := Map.empty\<rparr>"

definition Prepare :: "IntraBlockState \<Rightarrow> hash \<Rightarrow> hash \<Rightarrow> int \<Rightarrow> IntraBlockState" where
  "Prepare sdb thash bhash ti =
     sdb\<lparr>sdb_thash := thash, sdb_bhash := bhash, sdb_txIndex := ti, sdb_accessList := newAccessList\<rparr>"

definition journal_append :: "journalEntry \<Rightarrow> IntraBlockState \<Rightarrow> IntraBlockState" where
  "journal_append e sdb = sdb\<lparr>sdb_journal := jn_append (sdb_journal sdb) e\<rparr>"

section \<open>Objects\<close>

definition emptyCodeHashH :: "IntraBlockState \<Rightarrow> hash" where
  "emptyCodeHashH sdb = keccak (sdb_ext sdb) []"

definition so_empty :: "IntraBlockState \<Rightarrow> stateObject \<Rightarrow> bool" where
  "so_empty sdb so = (acc_Nonce (so_data so) = 0 \<and> acc_Balance (so_data so) = 0 \<and>
                      acc_CodeHash (so_data so) = emptyCodeHashH sdb)"

definition newObject :: "IntraBlockState \<Rightarrow> address \<Rightarrow> StateAccount \<Rightarrow> StateAccount \<Rightarrow> stateObject" where
  "newObject sdb addr acct original =
     (let d0 = acc_Copy zero_account acct;
          d1 = (if \<not> acc_Initialised d0 then d0\<lparr>acc_Balance := 0, acc_Initialised := True\<rparr> else d0);
          d2 = (if acc_CodeHash d1 = 0 then d1\<lparr>acc_CodeHash := emptyCodeHashH sdb\<rparr> else d1)
      in \<lparr>so_address = addr, so_data = d2, so_original = acc_Copy zero_account original,
          so_code = None, so_originStorage = Map.empty, so_blockOriginStorage = Map.empty,
          so_dirtyStorage = Map.empty, so_fakeStorage = None, so_dirtyCode = False,
          so_selfdestructed = False, so_deleted = False, so_created = False\<rparr>)"

text \<open>Store an object back under its address: the model of writing through the pointer.\<close>

definition put_object :: "stateObject \<Rightarrow> IntraBlockState \<Rightarrow> IntraBlockState" where
  "put_object so sdb = sdb\<lparr>sdb_stateObjects := (sdb_stateObjects sdb)(so_address so \<mapsto> so)\<rparr>"

definition setStateObject ::
  "IntraBlockState \<Rightarrow> address \<Rightarrow> stateObject \<Rightarrow> stateObject \<times> IntraBlockState" where
  "setStateObject sdb addr obj =
     (let (obj', sdb') =
        (case sdb_balanceInc sdb addr of
           None \<Rightarrow> (obj, sdb)
         | Some bi \<Rightarrow>
             if bi_transferred bi then (obj, sdb)
             else (obj\<lparr>so_data := (so_data obj)\<lparr>acc_Balance := acc_Balance (so_data obj) + bi_increase bi\<rparr>\<rparr>,
                   journal_append (balanceIncreaseTransfer addr)
                     (sdb\<lparr>sdb_balanceInc := (sdb_balanceInc sdb)(addr \<mapsto> bi\<lparr>bi_transferred := True\<rparr>)\<rparr>)))
      in (obj', sdb'\<lparr>sdb_stateObjects := (sdb_stateObjects sdb')(addr \<mapsto> obj')\<rparr>))"

definition so_setNonce :: "u64 \<Rightarrow> stateObject \<Rightarrow> stateObject" where
  "so_setNonce nonce so = so\<lparr>so_data := (so_data so)\<lparr>acc_Nonce := nonce\<rparr>\<rparr>"

definition so_setBalance :: "u256 \<Rightarrow> stateObject \<Rightarrow> stateObject" where
  "so_setBalance amount so =
     so\<lparr>so_data := (so_data so)\<lparr>acc_Balance := amount, acc_Initialised := True\<rparr>\<rparr>"

definition so_setCode :: "hash \<Rightarrow> byte list option \<Rightarrow> stateObject \<Rightarrow> stateObject" where
  "so_setCode codeHash code so =
     so\<lparr>so_code := code, so_data := (so_data so)\<lparr>acc_CodeHash := codeHash\<rparr>, so_dirtyCode := True\<rparr>"

definition so_setState :: "hash \<Rightarrow> u256 \<Rightarrow> stateObject \<Rightarrow> stateObject" where
  "so_setState key v so = so\<lparr>so_dirtyStorage := (so_dirtyStorage so)(key \<mapsto> v)\<rparr>"

definition so_setIncarnation :: "u16 \<Rightarrow> stateObject \<Rightarrow> stateObject" where
  "so_setIncarnation incarnation so = so\<lparr>so_data := (so_data so)\<lparr>acc_Incarnation := incarnation\<rparr>\<rparr>"

definition createObject ::
  "IntraBlockState \<Rightarrow> address \<Rightarrow> stateObject option \<Rightarrow> stateObject \<times> IntraBlockState" where
  "createObject sdb addr previous =
     (let original = (case previous of None \<Rightarrow> zero_account | Some p \<Rightarrow> so_original p);
          newobj = so_setNonce 0 (newObject sdb addr zero_account original);
          sdb' = (case previous of
                    None \<Rightarrow> journal_append (createObjectChange addr) sdb
                  | Some p \<Rightarrow> journal_append (resetObjectChange addr p) sdb)
      in setStateObject sdb' addr newobj)"

definition pending :: "IntraBlockState \<Rightarrow> address \<Rightarrow> bool" where
  "pending sdb addr = (case sdb_balanceInc sdb addr of None \<Rightarrow> False | Some bi \<Rightarrow> \<not> bi_transferred bi)"

definition getStateObject ::
  "IntraBlockState \<Rightarrow> address \<Rightarrow> stateObject option \<times> IntraBlockState" where
  "getStateObject sdb addr =
     (case sdb_stateObjects sdb addr of
        Some obj \<Rightarrow> (Some obj, sdb)
      | None \<Rightarrow>
          if addr \<in> sdb_nilAccounts sdb then
            (if pending sdb addr
             then (let (o', sdb') = createObject sdb addr None in (Some o', sdb'))
             else (None, sdb))
          else
            (case ReadAccountData (sdb_stateReader sdb) addr of
               (_, Some err) \<Rightarrow> (None, setErrorUnsafe sdb err)
             | (None, None) \<Rightarrow>
                 (let sdb1 = sdb\<lparr>sdb_nilAccounts := insert addr (sdb_nilAccounts sdb)\<rparr> in
                  if pending sdb1 addr
                  then (let (o', sdb') = createObject sdb1 addr None in (Some o', sdb'))
                  else (None, sdb1))
             | (Some account, None) \<Rightarrow>
                 (let sdb1 = (case sdb_snap sdb of
                                Some snap \<Rightarrow>
                                  if CanWrite snap
                                  then sdb\<lparr>sdb_snap := Some (sn_AddAccount (sdb_ext sdb) snap addr (Some account))\<rparr>
                                  else sdb
                              | None \<Rightarrow> sdb);
                      (o', sdb') = setStateObject sdb1 addr (newObject sdb1 addr account account)
                  in (Some o', sdb'))))"

definition GetOrNewStateObject :: "IntraBlockState \<Rightarrow> address \<Rightarrow> stateObject \<times> IntraBlockState" where
  "GetOrNewStateObject sdb addr =
     (case getStateObject sdb addr of
        (None, sdb') \<Rightarrow> createObject sdb' addr None
      | (Some so, sdb') \<Rightarrow> if so_deleted so then createObject sdb' addr (Some so) else (so, sdb'))"

definition CreateAccount :: "IntraBlockState \<Rightarrow> address \<Rightarrow> bool \<Rightarrow> IntraBlockState" where
  "CreateAccount sdb addr contractCreation =
     (let (previous, sdb1) = getStateObject sdb addr;
          prevInc =
            (if contractCreation then
               (case previous of
                  Some p \<Rightarrow>
                    if so_selfdestructed p then acc_Incarnation (so_data p)
                    else (case ReadAccountIncarnation (sdb_stateReader sdb1) addr of
                            (inc, None) \<Rightarrow> inc | (_, Some _) \<Rightarrow> 0)
                | None \<Rightarrow> (case ReadAccountIncarnation (sdb_stateReader sdb1) addr of
                            (inc, None) \<Rightarrow> inc | (_, Some _) \<Rightarrow> 0))
             else 0);
          (newObj, sdb2) = createObject sdb1 addr previous;
          obj1 = (case previous of
                    None \<Rightarrow> newObj
                  | Some p \<Rightarrow> newObj\<lparr>so_data := (so_data newObj)\<lparr>acc_Balance := acc_Balance (so_data p),
                                                                 acc_Initialised := True\<rparr>\<rparr>);
          obj2 = (if contractCreation
                  then (obj1\<lparr>so_created := True, so_data := (so_data obj1)\<lparr>acc_Incarnation := prevInc + 1\<rparr>\<rparr>)
                  else obj1\<lparr>so_selfdestructed := False\<rparr>)
      in put_object obj2 sdb2)"

section \<open>Storage and code of an object\<close>

text \<open>
  Where an uncached slot is read from: the readable witness when there is one, else the
  database. Reading from the database with a writable witness records the slot.
\<close>

definition so_GetCommittedState ::
  "IntraBlockState \<Rightarrow> stateObject \<Rightarrow> hash \<Rightarrow> (u256 \<times> IntraBlockState) option" where
  "so_GetCommittedState sdb so key =
     (case so_fakeStorage so of
        Some fake \<Rightarrow> Some (case fake key of None \<Rightarrow> 0 | Some v \<Rightarrow> v, sdb)
      | None \<Rightarrow>
     (case so_originStorage so key of
        Some v \<Rightarrow> Some (v, sdb)
      | None \<Rightarrow>
     if so_created so then Some (0, sdb)
     else
       (let inc = acc_Incarnation (so_data so);
            cache = (\<lambda>v sdb'. (v, put_object
                       (so\<lparr>so_originStorage := (so_originStorage so)(key \<mapsto> v),
                           so_blockOriginStorage := (so_blockOriginStorage so)(key \<mapsto> v)\<rparr>) sdb'))
        in case sdb_snap sdb of
             Some snap \<Rightarrow>
               if \<not> CanWrite snap then
                 (case sn_ReadAccountStorage snap (so_address so) inc key of
                    None \<Rightarrow> None
                  | Some (_, Some err) \<Rightarrow> Some (0, setErrorUnsafe sdb err)
                  | Some (Some enc, None) \<Rightarrow> Some (cache (bytes_to_u256 enc) sdb)
                  | Some (None, None) \<Rightarrow> Some (cache 0 sdb))
               else
                 (case ReadAccountStorage (sdb_stateReader sdb) (so_address so) inc key of
                    (_, Some err) \<Rightarrow> Some (0, setErrorUnsafe sdb err)
                  | (Some enc, None) \<Rightarrow>
                      Some (cache (bytes_to_u256 enc)
                        (sdb\<lparr>sdb_snap := Some (sn_AddStorage snap (so_address so) key inc enc)\<rparr>))
                  | (None, None) \<Rightarrow> Some (cache 0 sdb))
           | None \<Rightarrow>
               (case ReadAccountStorage (sdb_stateReader sdb) (so_address so) inc key of
                  (_, Some err) \<Rightarrow> Some (0, setErrorUnsafe sdb err)
                | (Some enc, None) \<Rightarrow> Some (cache (bytes_to_u256 enc) sdb)
                | (None, None) \<Rightarrow> Some (cache 0 sdb)))))"

definition so_GetState ::
  "IntraBlockState \<Rightarrow> stateObject \<Rightarrow> hash \<Rightarrow> (u256 \<times> IntraBlockState) option" where
  "so_GetState sdb so key =
     (case so_fakeStorage so of
        Some fake \<Rightarrow> Some (case fake key of None \<Rightarrow> 0 | Some v \<Rightarrow> v, sdb)
      | None \<Rightarrow>
          (case so_dirtyStorage so key of
             Some v \<Rightarrow> Some (v, sdb)
           | None \<Rightarrow> so_GetCommittedState sdb so key))"

text \<open>The object the database now holds for an address an operation has just loaded.\<close>

definition reload :: "IntraBlockState \<Rightarrow> stateObject \<Rightarrow> stateObject" where
  "reload sdb so = (case sdb_stateObjects sdb (so_address so) of Some o' \<Rightarrow> o' | None \<Rightarrow> so)"

definition so_SetState ::
  "IntraBlockState \<Rightarrow> stateObject \<Rightarrow> hash \<Rightarrow> u256 \<Rightarrow> IntraBlockState option" where
  "so_SetState sdb so key v =
     (case so_fakeStorage so of
        Some fake \<Rightarrow>
          Some (put_object (so\<lparr>so_fakeStorage := Some (fake(key \<mapsto> v))\<rparr>)
            (journal_append (fakeStorageChange (so_address so) key
               (case fake key of None \<Rightarrow> 0 | Some p \<Rightarrow> p)) sdb))
      | None \<Rightarrow>
          (case so_GetState sdb so key of
             None \<Rightarrow> None
           | Some (prev, sdb1) \<Rightarrow>
               if prev = v then Some sdb1
               else Some (put_object (so_setState key v (reload sdb1 so))
                            (journal_append (storageChange (so_address so) key prev) sdb1))))"

definition so_SetStorage :: "IntraBlockState \<Rightarrow> stateObject \<Rightarrow> Storage \<Rightarrow> IntraBlockState" where
  "so_SetStorage sdb so st =
     put_object (so\<lparr>so_fakeStorage :=
        Some ((case so_fakeStorage so of None \<Rightarrow> Map.empty | Some fake \<Rightarrow> fake) ++ st)\<rparr>) sdb"

definition so_Code :: "IntraBlockState \<Rightarrow> stateObject \<Rightarrow> byte list option \<times> IntraBlockState" where
  "so_Code sdb so =
     (case so_code so of
        Some code \<Rightarrow> (Some code, sdb)
      | None \<Rightarrow>
          if acc_CodeHash (so_data so) = emptyCodeHashH sdb then (None, sdb)
          else (let (code, err) = ReadAccountCode (sdb_stateReader sdb) (so_address so)
                                    (acc_Incarnation (so_data so)) (acc_CodeHash (so_data so));
                    sdb1 = (case err of
                              None \<Rightarrow> sdb
                            | Some e \<Rightarrow> setErrorUnsafe sdb (CantLoadCode (acc_CodeHash (so_data so)) e))
                in (code, put_object (so\<lparr>so_code := code\<rparr>) sdb1)))"

definition so_SetCode ::
  "IntraBlockState \<Rightarrow> stateObject \<Rightarrow> hash \<Rightarrow> byte list option \<Rightarrow> IntraBlockState" where
  "so_SetCode sdb so codeHash code =
     (let (prevcode, sdb1) = so_Code sdb so;
          so1 = reload sdb1 so
      in put_object (so_setCode codeHash code so1)
           (journal_append (codeChange (so_address so1) prevcode (acc_CodeHash (so_data so1))) sdb1))"

section \<open>Balance and nonce of an object\<close>

definition so_touch :: "IntraBlockState \<Rightarrow> stateObject \<Rightarrow> IntraBlockState" where
  "so_touch sdb so =
     (let sdb1 = journal_append (touchChange (so_address so)) sdb in
      if so_address so = 3
      then sdb1\<lparr>sdb_journal := jn_dirty (sdb_journal sdb1) (so_address so)\<rparr> else sdb1)"

definition so_SetBalance :: "IntraBlockState \<Rightarrow> stateObject \<Rightarrow> u256 \<Rightarrow> IntraBlockState" where
  "so_SetBalance sdb so amount =
     put_object (so_setBalance amount so)
       (journal_append (balanceChange (so_address so) (acc_Balance (so_data so))) sdb)"

definition so_AddBalance :: "IntraBlockState \<Rightarrow> stateObject \<Rightarrow> u256 \<Rightarrow> IntraBlockState" where
  "so_AddBalance sdb so amount =
     (if amount = 0 then (if so_empty sdb so then so_touch sdb so else sdb)
      else so_SetBalance sdb so (acc_Balance (so_data so) + amount))"

definition so_SubBalance :: "IntraBlockState \<Rightarrow> stateObject \<Rightarrow> u256 \<Rightarrow> IntraBlockState" where
  "so_SubBalance sdb so amount =
     (if amount = 0 then sdb
      else so_SetBalance sdb so (acc_Balance (so_data so) - amount))"

definition so_SetNonce :: "IntraBlockState \<Rightarrow> stateObject \<Rightarrow> u64 \<Rightarrow> IntraBlockState" where
  "so_SetNonce sdb so nonce =
     put_object (so_setNonce nonce so)
       (journal_append (nonceChange (so_address so) (acc_Nonce (so_data so))) sdb)"

section \<open>Reading the state\<close>

definition Exist :: "IntraBlockState \<Rightarrow> address \<Rightarrow> bool \<times> IntraBlockState" where
  "Exist sdb addr =
     (case getStateObject sdb addr of
        (None, sdb') \<Rightarrow> (False, sdb') | (Some s, sdb') \<Rightarrow> (\<not> so_deleted s, sdb'))"

definition Empty :: "IntraBlockState \<Rightarrow> address \<Rightarrow> bool \<times> IntraBlockState" where
  "Empty sdb addr =
     (case getStateObject sdb addr of
        (None, sdb') \<Rightarrow> (True, sdb') | (Some so, sdb') \<Rightarrow> (so_deleted so \<or> so_empty sdb' so, sdb'))"

definition GetBalance :: "IntraBlockState \<Rightarrow> address \<Rightarrow> u256 \<times> IntraBlockState" where
  "GetBalance sdb addr =
     (case getStateObject sdb addr of
        (None, sdb') \<Rightarrow> (0, sdb')
      | (Some so, sdb') \<Rightarrow> (if so_deleted so then 0 else acc_Balance (so_data so), sdb'))"

definition GetNonce :: "IntraBlockState \<Rightarrow> address \<Rightarrow> u64 \<times> IntraBlockState" where
  "GetNonce sdb addr =
     (case getStateObject sdb addr of
        (None, sdb') \<Rightarrow> (0, sdb')
      | (Some so, sdb') \<Rightarrow> (if so_deleted so then 0 else acc_Nonce (so_data so), sdb'))"

definition GetCode :: "IntraBlockState \<Rightarrow> address \<Rightarrow> byte list option \<times> IntraBlockState" where
  "GetCode sdb addr =
     (case getStateObject sdb addr of
        (None, sdb') \<Rightarrow> (None, sdb')
      | (Some so, sdb') \<Rightarrow> if so_deleted so then (None, sdb') else so_Code sdb' so)"

definition GetCodeSize :: "IntraBlockState \<Rightarrow> address \<Rightarrow> int \<times> IntraBlockState" where
  "GetCodeSize sdb addr =
     (case getStateObject sdb addr of
        (None, sdb') \<Rightarrow> (0, sdb')
      | (Some so, sdb') \<Rightarrow>
          if so_deleted so then (0, sdb')
          else (case so_code so of
                  Some code \<Rightarrow> (int (length code), sdb')
                | None \<Rightarrow>
                    (case ReadAccountCodeSize (sdb_stateReader sdb') addr
                            (acc_Incarnation (so_data so)) (acc_CodeHash (so_data so)) of
                       (n, None) \<Rightarrow> (n, sdb')
                     | (n, Some err) \<Rightarrow> (n, setErrorUnsafe sdb' err))))"

definition GetCodeHash :: "IntraBlockState \<Rightarrow> address \<Rightarrow> hash \<times> IntraBlockState" where
  "GetCodeHash sdb addr =
     (case getStateObject sdb addr of
        (None, sdb') \<Rightarrow> (0, sdb')
      | (Some so, sdb') \<Rightarrow> (if so_deleted so then 0 else acc_CodeHash (so_data so), sdb'))"

definition GetState :: "IntraBlockState \<Rightarrow> address \<Rightarrow> hash \<Rightarrow> (u256 \<times> IntraBlockState) option" where
  "GetState sdb addr key =
     (case getStateObject sdb addr of
        (None, sdb') \<Rightarrow> Some (0, sdb')
      | (Some so, sdb') \<Rightarrow> if so_deleted so then Some (0, sdb') else so_GetState sdb' so key)"

definition GetCommittedState ::
  "IntraBlockState \<Rightarrow> address \<Rightarrow> hash \<Rightarrow> (u256 \<times> IntraBlockState) option" where
  "GetCommittedState sdb addr key =
     (case getStateObject sdb addr of
        (None, sdb') \<Rightarrow> Some (0, sdb')
      | (Some so, sdb') \<Rightarrow> if so_deleted so then Some (0, sdb') else so_GetCommittedState sdb' so key)"

definition HasSuicided :: "IntraBlockState \<Rightarrow> address \<Rightarrow> bool \<times> IntraBlockState" where
  "HasSuicided sdb addr =
     (case getStateObject sdb addr of
        (None, sdb') \<Rightarrow> (False, sdb')
      | (Some so, sdb') \<Rightarrow>
          (if so_deleted so then False else if so_created so then False else so_selfdestructed so, sdb'))"

definition HasSelfdestructed :: "IntraBlockState \<Rightarrow> address \<Rightarrow> bool \<times> IntraBlockState" where
  "HasSelfdestructed sdb addr =
     (case getStateObject sdb addr of
        (None, sdb') \<Rightarrow> (False, sdb')
      | (Some so, sdb') \<Rightarrow>
          (if so_deleted so then False else if so_created so then False else so_selfdestructed so, sdb'))"

definition GetIncarnation :: "IntraBlockState \<Rightarrow> address \<Rightarrow> u16 \<times> IntraBlockState" where
  "GetIncarnation sdb addr =
     (case getStateObject sdb addr of
        (None, sdb') \<Rightarrow> (0, sdb') | (Some so, sdb') \<Rightarrow> (acc_Incarnation (so_data so), sdb'))"

definition GetLogs :: "IntraBlockState \<Rightarrow> hash \<Rightarrow> Log list" where
  "GetLogs sdb h = (case sdb_logs sdb h of None \<Rightarrow> [] | Some ls \<Rightarrow> ls)"

definition GetRefund :: "IntraBlockState \<Rightarrow> u64" where
  "GetRefund sdb = sdb_refund sdb"

definition AddressInAccessList :: "IntraBlockState \<Rightarrow> address \<Rightarrow> bool" where
  "AddressInAccessList sdb addr = ContainsAddress (sdb_accessList sdb) addr"

definition SlotInAccessList :: "IntraBlockState \<Rightarrow> address \<Rightarrow> hash \<Rightarrow> (bool \<times> bool) option" where
  "SlotInAccessList sdb addr slot = Contains (sdb_accessList sdb) addr slot"

section \<open>Writing the state\<close>

definition AddLog :: "IntraBlockState \<Rightarrow> Log \<Rightarrow> IntraBlockState" where
  "AddLog sdb log2 =
     (let sdb1 = journal_append (addLogChange (sdb_thash sdb)) sdb;
          l = log2\<lparr>lg_TxHash := sdb_thash sdb, lg_BlockHash := sdb_bhash sdb,
                   lg_TxIndex := word_of_int (sdb_txIndex sdb), lg_Index := sdb_logSize sdb\<rparr>
      in sdb1\<lparr>sdb_logs := (sdb_logs sdb1)(sdb_thash sdb \<mapsto> GetLogs sdb1 (sdb_thash sdb) @ [l]),
              sdb_logSize := sdb_logSize sdb1 + 1\<rparr>)"

definition AddRefund :: "IntraBlockState \<Rightarrow> u64 \<Rightarrow> IntraBlockState" where
  "AddRefund sdb gas =
     (let sdb1 = journal_append (refundChange (sdb_refund sdb)) sdb
      in sdb1\<lparr>sdb_refund := sdb_refund sdb1 + gas\<rparr>)"

definition SubRefund :: "IntraBlockState \<Rightarrow> u64 \<Rightarrow> IntraBlockState" where
  "SubRefund sdb gas =
     (let sdb1 = journal_append (refundChange (sdb_refund sdb)) sdb;
          sdb2 = (if gas > sdb_refund sdb1 then setErrorUnsafe sdb1 RefundBelowZero else sdb1)
      in sdb2\<lparr>sdb_refund := sdb_refund sdb2 - gas\<rparr>)"

definition AddBalance :: "IntraBlockState \<Rightarrow> address \<Rightarrow> u256 \<Rightarrow> IntraBlockState" where
  "AddBalance sdb addr amount =
     (let needAccount = (sdb_stateObjects sdb addr \<noteq> None \<or> (addr = 3 \<and> amount = 0)) in
      if \<not> needAccount then
        (let sdb1 = journal_append (balanceIncrease addr amount) sdb;
             bi = (case sdb_balanceInc sdb1 addr of
                     Some bi \<Rightarrow> bi
                   | None \<Rightarrow> \<lparr>bi_increase = 0, bi_transferred = False, bi_count = 0\<rparr>)
         in sdb1\<lparr>sdb_balanceInc := (sdb_balanceInc sdb1)
                   (addr \<mapsto> bi\<lparr>bi_increase := bi_increase bi + amount, bi_count := bi_count bi + 1\<rparr>)\<rparr>)
      else
        (let (so, sdb1) = GetOrNewStateObject sdb addr in so_AddBalance sdb1 so amount))"

definition SubBalance :: "IntraBlockState \<Rightarrow> address \<Rightarrow> u256 \<Rightarrow> IntraBlockState" where
  "SubBalance sdb addr amount =
     (let (so, sdb1) = GetOrNewStateObject sdb addr in so_SubBalance sdb1 so amount)"

definition SetBalance :: "IntraBlockState \<Rightarrow> address \<Rightarrow> u256 \<Rightarrow> IntraBlockState" where
  "SetBalance sdb addr amount =
     (let (so, sdb1) = GetOrNewStateObject sdb addr in so_SetBalance sdb1 so amount)"

definition SetNonce :: "IntraBlockState \<Rightarrow> address \<Rightarrow> u64 \<Rightarrow> IntraBlockState" where
  "SetNonce sdb addr nonce =
     (let (so, sdb1) = GetOrNewStateObject sdb addr in so_SetNonce sdb1 so nonce)"

definition SetCode :: "IntraBlockState \<Rightarrow> address \<Rightarrow> byte list option \<Rightarrow> IntraBlockState" where
  "SetCode sdb addr code =
     (let (so, sdb1) = GetOrNewStateObject sdb addr
      in so_SetCode sdb1 so (keccak (sdb_ext sdb1) (case code of None \<Rightarrow> [] | Some c \<Rightarrow> c)) code)"

definition SetState :: "IntraBlockState \<Rightarrow> address \<Rightarrow> hash \<Rightarrow> u256 \<Rightarrow> IntraBlockState option" where
  "SetState sdb addr key v =
     (let (so, sdb1) = GetOrNewStateObject sdb addr in so_SetState sdb1 so key v)"

definition SetStorage :: "IntraBlockState \<Rightarrow> address \<Rightarrow> Storage \<Rightarrow> IntraBlockState" where
  "SetStorage sdb addr st =
     (let (so, sdb1) = GetOrNewStateObject sdb addr in so_SetStorage sdb1 so st)"

definition SetIncarnation :: "IntraBlockState \<Rightarrow> address \<Rightarrow> u16 \<Rightarrow> IntraBlockState" where
  "SetIncarnation sdb addr incarnation =
     (let (so, sdb1) = GetOrNewStateObject sdb addr in put_object (so_setIncarnation incarnation so) sdb1)"

definition Suicide :: "IntraBlockState \<Rightarrow> address \<Rightarrow> bool \<times> IntraBlockState" where
  "Suicide sdb addr =
     (case getStateObject sdb addr of
        (None, sdb1) \<Rightarrow> (False, sdb1)
      | (Some so, sdb1) \<Rightarrow>
          if so_deleted so then (False, sdb1)
          else (True,
                put_object (so\<lparr>so_selfdestructed := True, so_created := False,
                               so_data := (so_data so)\<lparr>acc_Balance := 0\<rparr>\<rparr>)
                  (journal_append
                     (selfdestructChange addr (so_selfdestructed so) (acc_Balance (so_data so))) sdb1)))"

definition Selfdestruct :: "IntraBlockState \<Rightarrow> address \<Rightarrow> bool \<times> IntraBlockState" where
  "Selfdestruct sdb addr =
     (case getStateObject sdb addr of
        (None, sdb1) \<Rightarrow> (False, sdb1)
      | (Some so, sdb1) \<Rightarrow>
          if so_deleted so then (False, sdb1)
          else (True,
                put_object (so\<lparr>so_selfdestructed := True, so_created := False,
                               so_data := (so_data so)\<lparr>acc_Balance := 0\<rparr>\<rparr>)
                  (journal_append
                     (selfdestructChange addr (so_selfdestructed so) (acc_Balance (so_data so))) sdb1)))"

definition AddAddressToAccessList :: "IntraBlockState \<Rightarrow> address \<Rightarrow> IntraBlockState" where
  "AddAddressToAccessList sdb addr =
     (let (changed, al) = AddAddress (sdb_accessList sdb) addr;
          sdb1 = sdb\<lparr>sdb_accessList := al\<rparr>
      in if changed then journal_append (accessListAddAccountChange addr) sdb1 else sdb1)"

definition AddSlotToAccessList :: "IntraBlockState \<Rightarrow> address \<Rightarrow> hash \<Rightarrow> IntraBlockState option" where
  "AddSlotToAccessList sdb addr slot =
     (case AddSlot (sdb_accessList sdb) addr slot of
        None \<Rightarrow> None
      | Some (addrMod, slotMod, al) \<Rightarrow>
          (let sdb1 = sdb\<lparr>sdb_accessList := al\<rparr>;
               sdb2 = (if addrMod then journal_append (accessListAddAccountChange addr) sdb1 else sdb1);
               sdb3 = (if slotMod then journal_append (accessListAddSlotChange addr slot) sdb2 else sdb2)
           in Some sdb3))"

fun add_slots :: "IntraBlockState \<Rightarrow> address \<Rightarrow> hash list \<Rightarrow> IntraBlockState option" where
  "add_slots sdb addr [] = Some sdb"
| "add_slots sdb addr (key # keys) =
     (case AddSlotToAccessList sdb addr key of
        None \<Rightarrow> None | Some sdb1 \<Rightarrow> add_slots sdb1 addr keys)"

fun add_access_list ::
  "IntraBlockState \<Rightarrow> (address \<times> hash list) list \<Rightarrow> IntraBlockState option" where
  "add_access_list sdb [] = Some sdb"
| "add_access_list sdb ((addr, keys) # els) =
     (case add_slots (AddAddressToAccessList sdb addr) addr keys of
        None \<Rightarrow> None | Some sdb1 \<Rightarrow> add_access_list sdb1 els)"

definition PrepareAccessList ::
  "IntraBlockState \<Rightarrow> address \<Rightarrow> address option \<Rightarrow> address list \<Rightarrow> (address \<times> hash list) list
     \<Rightarrow> IntraBlockState option" where
  "PrepareAccessList sdb sender dst precompiles list =
     (let sdb1 = AddAddressToAccessList sdb sender;
          sdb2 = (case dst of None \<Rightarrow> sdb1 | Some d \<Rightarrow> AddAddressToAccessList sdb1 d);
          sdb3 = foldl AddAddressToAccessList sdb2 precompiles
      in add_access_list sdb3 list)"

section \<open>Snapshots and reverting\<close>

definition Snapshot_take :: "IntraBlockState \<Rightarrow> nat \<times> IntraBlockState" where
  "Snapshot_take sdb =
     (let i = sdb_nextRevisionID sdb in
      (i, sdb\<lparr>sdb_nextRevisionID := i + 1,
              sdb_validRevisions := sdb_validRevisions sdb @
                [\<lparr>rv_id = i, rv_journalIndex = jn_length (sdb_journal sdb)\<rparr>]\<rparr>))"

text \<open>A method call on a nil object panics; the caller stores the object back.\<close>

definition on_object ::
  "IntraBlockState \<Rightarrow> address \<Rightarrow> (stateObject \<Rightarrow> stateObject) \<Rightarrow> IntraBlockState option" where
  "on_object s a f =
     (case getStateObject s a of
        (None, _) \<Rightarrow> None
      | (Some so, s') \<Rightarrow> Some (put_object (f so) s'))"

fun revert_entry :: "journalEntry \<Rightarrow> IntraBlockState \<Rightarrow> IntraBlockState option" where
  "revert_entry (createObjectChange a) s =
     Some (s\<lparr>sdb_stateObjects := (sdb_stateObjects s)(a := None),
             sdb_stateObjectsDirty := sdb_stateObjectsDirty s - {a}\<rparr>)"
| "revert_entry (resetObjectChange a prev) s = Some (snd (setStateObject s a prev))"
| "revert_entry (selfdestructChange a prev prevbalance) s =
     (case getStateObject s a of
        (None, s') \<Rightarrow> Some s'
      | (Some obj, s') \<Rightarrow>
          Some (put_object (so_setBalance prevbalance (obj\<lparr>so_selfdestructed := prev\<rparr>)) s'))"
| "revert_entry (touchChange a) s = Some s"
| "revert_entry (balanceChange a prev) s = on_object s a (so_setBalance prev)"
| "revert_entry (balanceIncrease a increase) s =
     Some (case sdb_balanceInc s a of
             None \<Rightarrow> s
           | Some bi \<Rightarrow>
               (let bi' = bi\<lparr>bi_increase := bi_increase bi - increase, bi_count := bi_count bi - 1\<rparr> in
                if bi_count bi' = 0
                then s\<lparr>sdb_balanceInc := (sdb_balanceInc s)(a := None)\<rparr>
                else s\<lparr>sdb_balanceInc := (sdb_balanceInc s)(a \<mapsto> bi')\<rparr>))"
| "revert_entry (balanceIncreaseTransfer a) s =
     Some (case sdb_balanceInc s a of
             None \<Rightarrow> s
           | Some bi \<Rightarrow> s\<lparr>sdb_balanceInc := (sdb_balanceInc s)(a \<mapsto> bi\<lparr>bi_transferred := False\<rparr>)\<rparr>)"
| "revert_entry (nonceChange a prev) s = on_object s a (so_setNonce prev)"
| "revert_entry (codeChange a prevcode prevhash) s = on_object s a (so_setCode prevhash prevcode)"
| "revert_entry (storageChange a key prevalue) s = on_object s a (so_setState key prevalue)"
| "revert_entry (fakeStorageChange a key prevalue) s =
     (case getStateObject s a of
        (None, _) \<Rightarrow> None
      | (Some so, s') \<Rightarrow>
          (case so_fakeStorage so of
             None \<Rightarrow> None
           | Some fake \<Rightarrow> Some (put_object (so\<lparr>so_fakeStorage := Some (fake(key \<mapsto> prevalue))\<rparr>) s')))"
| "revert_entry (refundChange prev) s = Some (s\<lparr>sdb_refund := prev\<rparr>)"
| "revert_entry (addLogChange txhash) s =
     (let logs = GetLogs s txhash in
      if length logs = 1
      then Some (s\<lparr>sdb_logs := (sdb_logs s)(txhash := None), sdb_logSize := sdb_logSize s - 1\<rparr>)
      else if logs = [] then None
      else Some (s\<lparr>sdb_logs := (sdb_logs s)(txhash \<mapsto> butlast logs), sdb_logSize := sdb_logSize s - 1\<rparr>))"
| "revert_entry (accessListAddAccountChange a) s =
     Some (s\<lparr>sdb_accessList := DeleteAddress (sdb_accessList s) a\<rparr>)"
| "revert_entry (accessListAddSlotChange a slot) s =
     map_option (\<lambda>al. s\<lparr>sdb_accessList := al\<rparr>) (DeleteSlot (sdb_accessList s) a slot)"

text \<open>
  The loop of \<^verbatim>\<open>journal.revert\<close>, over the entries from the last one down; each step undoes
  the change and its dirty count. Entries appended while undoing are cut off at the end.
\<close>

fun revert_entries :: "journalEntry list \<Rightarrow> IntraBlockState \<Rightarrow> IntraBlockState option" where
  "revert_entries [] s = Some s"
| "revert_entries (e # es) s =
     (case revert_entry e s of
        None \<Rightarrow> None
      | Some s' \<Rightarrow> revert_entries es (s'\<lparr>sdb_journal := jn_undirty (sdb_journal s') e\<rparr>))"

definition journal_revert :: "IntraBlockState \<Rightarrow> nat \<Rightarrow> IntraBlockState option" where
  "journal_revert s snapshot =
     map_option (\<lambda>s'. s'\<lparr>sdb_journal := (sdb_journal s')
                          \<lparr>jn_entries := take snapshot (jn_entries (sdb_journal s'))\<rparr>\<rparr>)
       (revert_entries (rev (drop snapshot (jn_entries (sdb_journal s)))) s)"

definition RevertToSnapshot :: "IntraBlockState \<Rightarrow> nat \<Rightarrow> IntraBlockState option" where
  "RevertToSnapshot sdb revid =
     (let revs = sdb_validRevisions sdb;
          idx = sort_Search (length revs) (\<lambda>i. rv_id (revs ! i) \<ge> revid)
      in if idx = length revs \<or> rv_id (revs ! idx) \<noteq> revid then None
         else map_option (\<lambda>s. s\<lparr>sdb_validRevisions := take idx (sdb_validRevisions s)\<rparr>)
                (journal_revert sdb (rv_journalIndex (revs ! idx))))"

end
