(* ===== verification/State_View.thy ===== *)
theory State_View
  imports State_DB
begin

text \<open>
  What a caller can see of the state database, and the two relations the journal is proved
  correct with. \<open>obj_view\<close> forgets the caches of a state object (loaded slots, loaded code);
  \<open>view\<close> is the object an address has whether or not it is loaded yet; \<open>restores s t\<close> says
  that \<open>t\<close> shows what \<open>s\<close> shows, with at most more accounts loaded from the database.
\<close>

section \<open>The observable state\<close>

text \<open>What reads outside the caches depend on: the reader and the readable witness.\<close>

type_synonym source = "Externals \<times> StateReader \<times> Snapshot option"

definition source_of :: "IntraBlockState \<Rightarrow> source" where
  "source_of s = (sdb_ext s, sdb_stateReader s,
     case sdb_snap s of None \<Rightarrow> None | Some sn \<Rightarrow> if CanWrite sn then None else Some sn)"

fun slot_result :: "source \<Rightarrow> address \<Rightarrow> u16 \<Rightarrow> hash \<Rightarrow> (byte list option \<times> db_error option) option" where
  "slot_result (ext, rd, None) a inc k = Some (ReadAccountStorage rd a inc k)"
| "slot_result (ext, rd, Some sn) a inc k = sn_ReadAccountStorage sn a inc k"

definition slot_value :: "source \<Rightarrow> address \<Rightarrow> u16 \<Rightarrow> hash \<Rightarrow> u256" where
  "slot_value src a inc k =
     (case slot_result src a inc k of
        Some (Some enc, None) \<Rightarrow> bytes_to_u256 enc | _ \<Rightarrow> 0)"

definition committed_of :: "source \<Rightarrow> stateObject \<Rightarrow> hash \<Rightarrow> u256" where
  "committed_of src so k =
     (case so_fakeStorage so of
        Some fake \<Rightarrow> (case fake k of None \<Rightarrow> 0 | Some v \<Rightarrow> v)
      | None \<Rightarrow>
          (case so_originStorage so k of
             Some v \<Rightarrow> v
           | None \<Rightarrow> if so_created so then 0
                     else slot_value src (so_address so) (acc_Incarnation (so_data so)) k))"

definition state_of :: "source \<Rightarrow> stateObject \<Rightarrow> hash \<Rightarrow> u256" where
  "state_of src so k =
     (case so_fakeStorage so of
        Some fake \<Rightarrow> (case fake k of None \<Rightarrow> 0 | Some v \<Rightarrow> v)
      | None \<Rightarrow> (case so_dirtyStorage so k of Some v \<Rightarrow> v | None \<Rightarrow> committed_of src so k))"

definition code_of :: "source \<Rightarrow> stateObject \<Rightarrow> byte list option" where
  "code_of src so =
     (case so_code so of
        Some c \<Rightarrow> Some c
      | None \<Rightarrow>
          if acc_CodeHash (so_data so) = keccak (fst src) [] then None
          else fst (ReadAccountCode (fst (snd src)) (so_address so)
                      (acc_Incarnation (so_data so)) (acc_CodeHash (so_data so))))"

record ObjView =
  ov_address :: address
  ov_data :: StateAccount
  ov_original :: StateAccount
  ov_selfdestructed :: bool
  ov_deleted :: bool
  ov_created :: bool
  ov_code :: "byte list option"
  ov_fake :: "(hash \<Rightarrow> u256) option"
  ov_committed :: "hash \<Rightarrow> u256"
  ov_state :: "hash \<Rightarrow> u256"

definition obj_view :: "source \<Rightarrow> stateObject \<Rightarrow> ObjView" where
  "obj_view src so = \<lparr>ov_address = so_address so, ov_data = so_data so, ov_original = so_original so,
     ov_selfdestructed = so_selfdestructed so, ov_deleted = so_deleted so, ov_created = so_created so,
     ov_code = code_of src so,
     ov_fake = map_option (\<lambda>f k. case f k of None \<Rightarrow> 0 | Some v \<Rightarrow> v) (so_fakeStorage so),
     ov_committed = committed_of src so, ov_state = state_of src so\<rparr>"

text \<open>The object of an address that is not loaded, as loading would build it.\<close>

definition with_increase :: "IntraBlockState \<Rightarrow> address \<Rightarrow> stateObject \<Rightarrow> stateObject" where
  "with_increase s a so =
     (case sdb_balanceInc s a of
        None \<Rightarrow> so
      | Some bi \<Rightarrow> if bi_transferred bi then so
                   else so\<lparr>so_data := (so_data so)\<lparr>acc_Balance := acc_Balance (so_data so) + bi_increase bi\<rparr>\<rparr>)"

definition blank_object :: "IntraBlockState \<Rightarrow> address \<Rightarrow> stateObject" where
  "blank_object s a = so_setNonce 0 (newObject s a zero_account zero_account)"

definition view_object :: "IntraBlockState \<Rightarrow> address \<Rightarrow> stateObject option" where
  "view_object s a =
     (case sdb_stateObjects s a of
        Some so \<Rightarrow> Some so
      | None \<Rightarrow>
          (case ReadAccountData (sdb_stateReader s) a of
             (_, Some _) \<Rightarrow> None
           | (None, None) \<Rightarrow> if pending s a then Some (with_increase s a (blank_object s a)) else None
           | (Some acc, None) \<Rightarrow> Some (with_increase s a (newObject s a acc acc))))"

definition view :: "IntraBlockState \<Rightarrow> address \<Rightarrow> ObjView option" where
  "view s a = map_option (obj_view (source_of s)) (view_object s a)"

abbreviation loaded :: "IntraBlockState \<Rightarrow> address \<Rightarrow> bool" where
  "loaded s a \<equiv> sdb_stateObjects s a \<noteq> None"

definition in_db :: "IntraBlockState \<Rightarrow> address \<Rightarrow> bool" where
  "in_db s a = (case ReadAccountData (sdb_stateReader s) a of (Some _, None) \<Rightarrow> True | _ \<Rightarrow> False)"

section \<open>Restoring\<close>

definition restores :: "IntraBlockState \<Rightarrow> IntraBlockState \<Rightarrow> bool" where
  "restores s t \<longleftrightarrow>
     source_of t = source_of s \<and> view t = view s \<and> sdb_balanceInc t = sdb_balanceInc s \<and>
     (\<forall>a. loaded s a \<longrightarrow> loaded t a) \<and> (\<forall>a. \<not> in_db s a \<longrightarrow> loaded t a \<longrightarrow> loaded s a) \<and>
     sdb_refund t = sdb_refund s \<and> sdb_logs t = sdb_logs s \<and> sdb_logSize t = sdb_logSize s \<and>
     sdb_accessList t = sdb_accessList s \<and> sdb_thash t = sdb_thash s \<and>
     sdb_bhash t = sdb_bhash s \<and> sdb_txIndex t = sdb_txIndex s"

lemma source_of_reader: "source_of t = source_of s \<Longrightarrow> sdb_stateReader t = sdb_stateReader s"
  by (simp add: source_of_def)

lemma source_of_ext: "source_of t = source_of s \<Longrightarrow> sdb_ext t = sdb_ext s"
  by (simp add: source_of_def)

lemma in_db_source: "source_of t = source_of s \<Longrightarrow> in_db t = in_db s"
  by (simp add: in_db_def source_of_def fun_eq_iff)

lemma restores_refl [simp, intro]: "restores s s"
  by (simp add: restores_def)

lemma restores_trans: "restores s t \<Longrightarrow> restores t u \<Longrightarrow> restores s u"
  unfolding restores_def by (metis in_db_source)

text \<open>\<open>restores\<close> does not look at the journal, the revisions, the error or the dirty set.\<close>

lemma source_of_frame [frame_simps, simp]:
  "source_of (s\<lparr>sdb_journal := j\<rparr>) = source_of s"
  "source_of (s\<lparr>sdb_stateObjects := f\<rparr>) = source_of s"
  "source_of (s\<lparr>sdb_stateObjectsDirty := d\<rparr>) = source_of s"
  "source_of (s\<lparr>sdb_nilAccounts := n\<rparr>) = source_of s"
  "source_of (s\<lparr>sdb_savedErr := e\<rparr>) = source_of s"
  "source_of (s\<lparr>sdb_refund := r\<rparr>) = source_of s"
  "source_of (s\<lparr>sdb_logs := l\<rparr>) = source_of s"
  "source_of (s\<lparr>sdb_logSize := z\<rparr>) = source_of s"
  "source_of (s\<lparr>sdb_accessList := al\<rparr>) = source_of s"
  "source_of (s\<lparr>sdb_balanceInc := b\<rparr>) = source_of s"
  "source_of (s\<lparr>sdb_validRevisions := v\<rparr>) = source_of s"
  "source_of (s\<lparr>sdb_nextRevisionID := i\<rparr>) = source_of s"
  by (simp_all add: source_of_def)

lemma emptyCodeHashH_ext: "sdb_ext t = sdb_ext s \<Longrightarrow> emptyCodeHashH t = emptyCodeHashH s"
  by (simp add: emptyCodeHashH_def)

lemma newObject_ext:
  assumes "sdb_ext t = sdb_ext s"
  shows "newObject t a acc orig = newObject s a acc orig"
  unfolding newObject_def emptyCodeHashH_ext [OF assms] by (rule refl)

lemma with_increase_cong:
  "sdb_balanceInc t a = sdb_balanceInc s a \<Longrightarrow> with_increase t a so = with_increase s a so"
  by (simp add: with_increase_def)

lemma pending_cong: "sdb_balanceInc t a = sdb_balanceInc s a \<Longrightarrow> pending t a = pending s a"
  by (simp add: pending_def)

lemma view_object_cong:
  assumes "sdb_stateObjects t a = sdb_stateObjects s a" "sdb_balanceInc t a = sdb_balanceInc s a"
    "source_of t = source_of s"
  shows "view_object t a = view_object s a"
  unfolding view_object_def blank_object_def assms(1) source_of_reader [OF assms(3)]
    with_increase_cong [OF assms(2)] pending_cong [OF assms(2)]
    newObject_ext [OF source_of_ext [OF assms(3)]]
  by (rule refl)

lemma view_cong:
  assumes "sdb_stateObjects t a = sdb_stateObjects s a" "sdb_balanceInc t a = sdb_balanceInc s a"
    "source_of t = source_of s"
  shows "view t a = view s a"
  using view_object_cong [OF assms] assms by (simp add: view_def)

text \<open>The generic way to establish \<open>restores\<close>: the objects and increases agree, or the
  address is only loaded in \<open>t\<close> with the same view.\<close>

lemma restoresI:
  assumes "source_of t = source_of s" "sdb_balanceInc t = sdb_balanceInc s"
    "\<And>a. sdb_stateObjects t a = sdb_stateObjects s a \<or>
         (view t a = view s a \<and> loaded t a \<and> (loaded s a \<or> in_db s a))"
    "sdb_refund t = sdb_refund s" "sdb_logs t = sdb_logs s" "sdb_logSize t = sdb_logSize s"
    "sdb_accessList t = sdb_accessList s" "sdb_thash t = sdb_thash s"
    "sdb_bhash t = sdb_bhash s" "sdb_txIndex t = sdb_txIndex s"
  shows "restores s t"
proof -
  have "view t a = view s a" for a
    using assms(3) [of a] view_cong [of t a s, OF _ _ assms(1)] assms(2) by (elim disjE) simp_all
  then have v: "view t = view s" by (rule ext)
  have l1: "loaded s a \<longrightarrow> loaded t a" for a
    using assms(3) [of a] by (rule disjE) (simp only: simp_thms)+
  have l2: "\<not> in_db s a \<longrightarrow> loaded t a \<longrightarrow> loaded s a" for a
    using assms(3) [of a] by (rule disjE) (simp only: simp_thms, blast)
  show ?thesis
    unfolding restores_def using v l1 l2 assms(1,2,4-) by (simp only: simp_thms, blast)
qed

lemma restores_journal [simp]: "restores s (t\<lparr>sdb_journal := j\<rparr>) = restores s t"
proof -
  have "view (t\<lparr>sdb_journal := j\<rparr>) = view t" by (rule ext, rule view_cong) simp_all
  then show ?thesis by (simp add: restores_def)
qed

lemma view_loaded: "sdb_stateObjects s a = Some so \<Longrightarrow> view s a = Some (obj_view (source_of s) so)"
  by (simp add: view_def view_object_def)

section \<open>Invariants\<close>

text \<open>
  Structure: objects sit under their own address and are initialised, addresses remembered as
  absent are absent in the database, and so are the objects the journal saves.
\<close>

definition wf_object :: "address \<Rightarrow> stateObject \<Rightarrow> bool" where
  "wf_object a so \<longleftrightarrow> so_address so = a \<and> acc_Initialised (so_data so)"

definition wf_objects :: "IntraBlockState \<Rightarrow> bool" where
  "wf_objects s \<longleftrightarrow>
     (\<forall>a so. sdb_stateObjects s a = Some so \<longrightarrow> wf_object a so) \<and>
     (\<forall>a \<in> sdb_nilAccounts s. ReadAccountData (sdb_stateReader s) a = (None, None)) \<and>
     (\<forall>a p. resetObjectChange a p \<in> set (jn_entries (sdb_journal s)) \<longrightarrow> wf_object a p)"

text \<open>
  Contents: an increase waits only for an account that is neither loaded nor in the database,
  waiting increases are counted, the access list is well formed, and no log list is empty.
\<close>

definition wf_pending :: "IntraBlockState \<Rightarrow> bool" where
  "wf_pending s \<longleftrightarrow>
     (\<forall>a. pending s a \<longrightarrow> \<not> in_db s a \<and> \<not> loaded s a) \<and>
     (\<forall>a bi. sdb_balanceInc s a = Some bi \<longrightarrow> 0 < bi_count bi) \<and>
     al_wf (sdb_accessList s) \<and> (\<forall>h. sdb_logs s h \<noteq> Some [])"

lemma wf_pending_restores:
  assumes "restores s t" "wf_pending s"
  shows "wf_pending t"
proof -
  have "in_db t = in_db s" using assms(1) by (intro in_db_source) (simp add: restores_def)
  moreover have "pending t = pending s" using assms(1) by (simp add: restores_def pending_def fun_eq_iff)
  ultimately show ?thesis using assms by (auto simp: restores_def wf_pending_def)
qed

lemma wf_New: "wf_objects (New ext rd)" "wf_pending (New ext rd)"
  by (auto simp: wf_objects_def wf_pending_def New_def newJournal_def pending_def)

end
