(* ===== verification/State_Revert.thy ===== *)
theory State_Revert
  imports State_View
begin

text \<open>
  Why undoing the journal brings the state back. \<open>undoes es s1 s0\<close> says that undoing the
  entries \<open>es\<close>, newest first, takes \<open>s1\<close> to a state that restores \<open>s0\<close>. It survives loading
  more accounts (\<open>undoes_restores\<close>) and composes (\<open>undoes_append\<close>), so every operation is proved
  on its own (\<open>ustep\<close>) and the operations are then put together in any order.
\<close>

section \<open>Undoing one entry respects what is observable\<close>

lemma restores_upd_object:
  assumes r: "restores s t" and v: "obj_view (source_of s) x = obj_view (source_of s) y"
  shows "restores (s\<lparr>sdb_stateObjects := (sdb_stateObjects s)(a \<mapsto> x)\<rparr>)
                  (t\<lparr>sdb_stateObjects := (sdb_stateObjects t)(a \<mapsto> y)\<rparr>)"
    (is "restores ?s ?t")
proof -
  have src: "source_of t = source_of s" using r by (simp add: restores_def)
  have "view ?t b = view ?s b" for b
  proof (cases "b = a")
    case True
    then show ?thesis using v src by (simp add: view_loaded)
  next
    case False
    then have "view ?t b = view t b" "view ?s b = view s b" by (auto intro!: view_cong)
    then show ?thesis using r by (simp add: restores_def)
  qed
  then have "view ?t = view ?s" by (rule ext)
  moreover have "in_db ?s = in_db s" by (rule in_db_source) simp
  ultimately show ?thesis using r by (simp add: restores_def)
qed

lemma restores_del_object:
  assumes r: "restores s t"
  shows "restores (s\<lparr>sdb_stateObjects := (sdb_stateObjects s)(a := None)\<rparr>)
                  (t\<lparr>sdb_stateObjects := (sdb_stateObjects t)(a := None)\<rparr>)"
    (is "restores ?s ?t")
proof -
  have src: "source_of t = source_of s" "sdb_balanceInc t = sdb_balanceInc s"
    using r by (simp_all add: restores_def)
  have "view ?t b = view ?s b" for b
  proof (cases "b = a")
    case True
    then show ?thesis using src by (auto intro!: view_cong)
  next
    case False
    then have "view ?t b = view t b" "view ?s b = view s b" by (auto intro!: view_cong)
    then show ?thesis using r by (simp add: restores_def)
  qed
  then have "view ?t = view ?s" by (rule ext)
  moreover have "in_db ?s = in_db s" by (rule in_db_source) simp
  ultimately show ?thesis using r by (simp add: restores_def)
qed

lemma restores_upd_increase:
  assumes r: "restores s t" and a: "loaded s a \<or> \<not> in_db s a"
  shows "restores (s\<lparr>sdb_balanceInc := (sdb_balanceInc s)(a := b)\<rparr>)
                  (t\<lparr>sdb_balanceInc := (sdb_balanceInc t)(a := b)\<rparr>)"
    (is "restores ?s ?t")
proof -
  have src: "source_of t = source_of s" "sdb_balanceInc t = sdb_balanceInc s" "view t = view s"
    using r by (simp_all add: restores_def)
  have "view ?t c = view ?s c" for c
  proof (cases "c = a")
    case False
    then have "view ?t c = view t c" "view ?s c = view s c" by (auto intro!: view_cong)
    then show ?thesis using src by simp
  next
    case c: True
    show ?thesis
    proof (cases "sdb_stateObjects s a")
      case (Some so)
      then obtain so' where so': "sdb_stateObjects t a = Some so'" using r by (auto simp: restores_def)
      have "view t a = view s a" using src by simp
      then show ?thesis using Some so' c view_loaded [of ?t a so'] view_loaded [of ?s a so]
        by (simp add: view_loaded)
    next
      case None
      with a r have "sdb_stateObjects t a = None" unfolding restores_def by auto
      with None c src show ?thesis by (auto intro!: view_cong)
    qed
  qed
  then have "view ?t = view ?s" by (rule ext)
  moreover have "in_db ?s = in_db s" by (rule in_db_source) simp
  ultimately show ?thesis using r by (simp add: restores_def)
qed

text \<open>The setters act on the view of an object.\<close>

lemma obj_view_eq:
  "obj_view src x = obj_view src y \<longleftrightarrow>
     so_address x = so_address y \<and> so_data x = so_data y \<and> so_original x = so_original y \<and>
     so_selfdestructed x = so_selfdestructed y \<and> so_deleted x = so_deleted y \<and>
     so_created x = so_created y \<and> code_of src x = code_of src y \<and>
     map_option (\<lambda>f k. case f k of None \<Rightarrow> 0 | Some v \<Rightarrow> v) (so_fakeStorage x) =
     map_option (\<lambda>f k. case f k of None \<Rightarrow> 0 | Some v \<Rightarrow> v) (so_fakeStorage y) \<and>
     (\<forall>k. committed_of src x k = committed_of src y k) \<and> (\<forall>k. state_of src x k = state_of src y k)"
  by (auto simp: obj_view_def fun_eq_iff)

lemma so_setBalance_fields [simp]:
  "so_address (so_setBalance v so) = so_address so"
  "so_original (so_setBalance v so) = so_original so"
  "so_originStorage (so_setBalance v so) = so_originStorage so"
  "so_blockOriginStorage (so_setBalance v so) = so_blockOriginStorage so"
  "so_selfdestructed (so_setBalance v so) = so_selfdestructed so"
  "so_deleted (so_setBalance v so) = so_deleted so"
  "so_created (so_setBalance v so) = so_created so"
  "so_fakeStorage (so_setBalance v so) = so_fakeStorage so"
  "so_code (so_setBalance v so) = so_code so"
  "so_dirtyStorage (so_setBalance v so) = so_dirtyStorage so"
  "so_data (so_setBalance v so) = (so_data so)\<lparr>acc_Balance := v, acc_Initialised := True\<rparr>"
  by (simp_all add: so_setBalance_def)

lemma so_setNonce_fields [simp]:
  "so_address (so_setNonce v so) = so_address so"
  "so_original (so_setNonce v so) = so_original so"
  "so_originStorage (so_setNonce v so) = so_originStorage so"
  "so_blockOriginStorage (so_setNonce v so) = so_blockOriginStorage so"
  "so_selfdestructed (so_setNonce v so) = so_selfdestructed so"
  "so_deleted (so_setNonce v so) = so_deleted so"
  "so_created (so_setNonce v so) = so_created so"
  "so_fakeStorage (so_setNonce v so) = so_fakeStorage so"
  "so_code (so_setNonce v so) = so_code so"
  "so_dirtyStorage (so_setNonce v so) = so_dirtyStorage so"
  "so_data (so_setNonce v so) = (so_data so)\<lparr>acc_Nonce := v\<rparr>"
  by (simp_all add: so_setNonce_def)

lemma so_setCode_fields [simp]:
  "so_address (so_setCode h c so) = so_address so"
  "so_original (so_setCode h c so) = so_original so"
  "so_originStorage (so_setCode h c so) = so_originStorage so"
  "so_blockOriginStorage (so_setCode h c so) = so_blockOriginStorage so"
  "so_selfdestructed (so_setCode h c so) = so_selfdestructed so"
  "so_deleted (so_setCode h c so) = so_deleted so"
  "so_created (so_setCode h c so) = so_created so"
  "so_fakeStorage (so_setCode h c so) = so_fakeStorage so"
  "so_dirtyStorage (so_setCode h c so) = so_dirtyStorage so"
  "so_data (so_setCode h c so) = (so_data so)\<lparr>acc_CodeHash := h\<rparr>"
  "so_code (so_setCode h c so) = c"
  by (simp_all add: so_setCode_def)

lemma so_setState_fields [simp]:
  "so_address (so_setState k v so) = so_address so"
  "so_original (so_setState k v so) = so_original so"
  "so_originStorage (so_setState k v so) = so_originStorage so"
  "so_blockOriginStorage (so_setState k v so) = so_blockOriginStorage so"
  "so_selfdestructed (so_setState k v so) = so_selfdestructed so"
  "so_deleted (so_setState k v so) = so_deleted so"
  "so_created (so_setState k v so) = so_created so"
  "so_fakeStorage (so_setState k v so) = so_fakeStorage so"
  "so_code (so_setState k v so) = so_code so"
  "so_data (so_setState k v so) = so_data so"
  "so_dirtyStorage (so_setState k v so) = (so_dirtyStorage so)(k \<mapsto> v)"
  by (simp_all add: so_setState_def)

lemma code_of_setters [simp]:
  "code_of src (so_setBalance v so) = code_of src so"
  "code_of src (so_setNonce n so) = code_of src so"
  "code_of src (so_setState k v so) = code_of src so"
  by (simp_all add: code_of_def split: option.split)

lemma committed_of_setters [simp]:
  "committed_of src (so_setBalance b so) k = committed_of src so k"
  "committed_of src (so_setNonce n so) k = committed_of src so k"
  "committed_of src (so_setState key v so) k = committed_of src so k"
  "committed_of src (so_setCode h c so) k = committed_of src so k"
  by (simp_all add: committed_of_def split: option.split)

lemma state_of_setters [simp]:
  "state_of src (so_setBalance b so) k = state_of src so k"
  "state_of src (so_setNonce n so) k = state_of src so k"
  "state_of src (so_setCode h c so) k = state_of src so k"
  by (simp_all add: state_of_def split: option.split)

lemma state_of_setState [simp]:
  "state_of src (so_setState key v so) k =
     (if so_fakeStorage so = None \<and> k = key then v else state_of src so k)"
  by (simp add: state_of_def split: option.split)

text \<open>Each undo function respects the view, and undoes the setter it belongs to.\<close>

definition respects_view :: "source \<Rightarrow> (stateObject \<Rightarrow> stateObject) \<Rightarrow> bool" where
  "respects_view src f \<longleftrightarrow>
     (\<forall>x y. obj_view src x = obj_view src y \<longrightarrow> obj_view src (f x) = obj_view src (f y)) \<and>
     (\<forall>x. so_address (f x) = so_address x)"

lemma respects_setBalance [simp, intro]: "respects_view src (so_setBalance v)"
  by (simp add: respects_view_def obj_view_eq)

lemma respects_setNonce [simp, intro]: "respects_view src (so_setNonce v)"
  by (simp add: respects_view_def obj_view_eq)

lemma respects_setCode [simp, intro]: "respects_view src (so_setCode h c)"
  by (simp add: respects_view_def obj_view_eq) (simp add: code_of_def split: option.split)

lemma fake_None_iff:
  "map_option f x = map_option f y \<Longrightarrow> x = None \<longleftrightarrow> y = None"
  by (cases x; cases y; simp)

lemma respects_setState [simp, intro]: "respects_view src (so_setState k v)"
  unfolding respects_view_def obj_view_eq by (auto dest: fake_None_iff)

lemma respects_selfdestruct [simp, intro]:
  "respects_view src (\<lambda>x. so_setBalance v (x\<lparr>so_selfdestructed := b\<rparr>))"
proof -
  have [simp]: "code_of src (x\<lparr>so_selfdestructed := b\<rparr>) = code_of src x" for x
    by (simp add: code_of_def split: option.split)
  have [simp]: "committed_of src (x\<lparr>so_selfdestructed := b\<rparr>) k = committed_of src x k" for x k
    by (simp add: committed_of_def split: option.split)
  have [simp]: "state_of src (x\<lparr>so_selfdestructed := b\<rparr>) k = state_of src x k" for x k
    by (simp add: state_of_def split: option.split)
  show ?thesis by (simp add: respects_view_def obj_view_eq)
qed


definition set_fake :: "hash \<Rightarrow> u256 \<Rightarrow> stateObject \<Rightarrow> stateObject" where
  "set_fake k v so = so\<lparr>so_fakeStorage := map_option (\<lambda>f. f(k \<mapsto> v)) (so_fakeStorage so)\<rparr>"

lemma set_fake_fields [simp]:
  "so_address (set_fake k v so) = so_address so" "so_data (set_fake k v so) = so_data so"
  "so_original (set_fake k v so) = so_original so"
  "so_selfdestructed (set_fake k v so) = so_selfdestructed so"
  "so_deleted (set_fake k v so) = so_deleted so" "so_created (set_fake k v so) = so_created so"
  by (simp_all add: set_fake_def)

lemma respects_set_fake [simp, intro]: "respects_view src (set_fake k v)"
proof -
  have cd: "code_of src (set_fake k v x) = code_of src x" for x
    by (simp add: code_of_def set_fake_def split: option.split)
  have com: "committed_of src (set_fake k v x) l =
      (if so_fakeStorage x \<noteq> None \<and> l = k then v else committed_of src x l)" for x l
    by (simp add: committed_of_def set_fake_def split: option.split)
  have st: "state_of src (set_fake k v x) l =
      (if so_fakeStorage x \<noteq> None \<and> l = k then v else state_of src x l)" for x l
    unfolding state_of_def com by (simp add: set_fake_def split: option.split)
  have fk: "map_option (\<lambda>f k. case f k of None \<Rightarrow> 0 | Some v \<Rightarrow> v) (so_fakeStorage (set_fake k v x)) =
      map_option (\<lambda>g. g(k := v)) (map_option (\<lambda>f k. case f k of None \<Rightarrow> 0 | Some v \<Rightarrow> v) (so_fakeStorage x))" for x
    by (cases "so_fakeStorage x") (auto simp: set_fake_def fun_eq_iff)
  have main: "obj_view src (set_fake k v x) = obj_view src (set_fake k v y)"
    if e: "obj_view src x = obj_view src y" for x y
  proof -
    have n: "so_fakeStorage x = None \<longleftrightarrow> so_fakeStorage y = None"
      using e by (auto simp: obj_view_eq dest: fake_None_iff)
    show ?thesis using e unfolding obj_view_eq com st fk n set_fake_fields cd
      by (elim conjE) (simp only: simp_thms)
  qed
  show ?thesis unfolding respects_view_def by (intro conjI allI impI, erule main, simp)
qed

section \<open>Undoing an entry\<close>

text \<open>The object an entry is about, when the entry writes an object in place, and the write.\<close>

fun object_undo :: "journalEntry \<Rightarrow> (address \<times> (stateObject \<Rightarrow> stateObject)) option" where
  "object_undo (selfdestructChange a prev b) = Some (a, \<lambda>x. so_setBalance b (x\<lparr>so_selfdestructed := prev\<rparr>))"
| "object_undo (balanceChange a prev) = Some (a, so_setBalance prev)"
| "object_undo (nonceChange a prev) = Some (a, so_setNonce prev)"
| "object_undo (storageChange a k v) = Some (a, so_setState k v)"
| "object_undo (fakeStorageChange a k v) = Some (a, set_fake k v)"
| "object_undo (codeChange a c h) = Some (a, so_setCode h c)"
| "object_undo _ = None"

definition is_fake_change :: "journalEntry \<Rightarrow> bool" where
  "is_fake_change e = (case e of fakeStorageChange a k v \<Rightarrow> True | _ \<Rightarrow> False)"

fun entry_ok :: "journalEntry \<Rightarrow> IntraBlockState \<Rightarrow> bool" where
  "entry_ok (balanceIncrease a v) s = (loaded s a \<or> \<not> in_db s a)"
| "entry_ok (balanceIncreaseTransfer a) s = (loaded s a \<or> \<not> in_db s a)"
| "entry_ok (resetObjectChange a p) s = (so_address p = a)"
| "entry_ok e s =
     (case object_undo e of
        None \<Rightarrow> True
      | Some (a, f) \<Rightarrow>
          (case sdb_stateObjects s a of
             None \<Rightarrow> False
           | Some so \<Rightarrow> so_address so = a \<and> (is_fake_change e \<longrightarrow> so_fakeStorage so \<noteq> None)))"

lemma object_undo_respects: "object_undo e = Some (a, f) \<Longrightarrow> respects_view src f"
  by (cases e) auto

lemma getStateObject_loaded: "sdb_stateObjects s a = Some so \<Longrightarrow> getStateObject s a = (Some so, s)"
  by (simp add: getStateObject_def)

lemma revert_entry_object:
  assumes "object_undo e = Some (a, f)" "entry_ok e s" "sdb_stateObjects s a = Some so"
  shows "revert_entry e s = Some (s\<lparr>sdb_stateObjects := (sdb_stateObjects s)(a \<mapsto> f so)\<rparr>)"
  using assms
  by (cases e)
     (auto simp: getStateObject_loaded on_object_def put_object_def set_fake_def is_fake_change_def)

lemma entry_ok_object:
  assumes "object_undo e = Some (a, f)"
  shows "entry_ok e s \<longleftrightarrow> (\<exists>so. sdb_stateObjects s a = Some so \<and> so_address so = a \<and>
           (is_fake_change e \<longrightarrow> so_fakeStorage so \<noteq> None))"
  using assms by (cases e) (auto split: option.split)

lemma restores_objects:
  assumes "restores s t" "sdb_stateObjects s a = Some so"
  obtains so' where "sdb_stateObjects t a = Some so'" "obj_view (source_of s) so = obj_view (source_of s) so'"
proof -
  from assms obtain so' where so': "sdb_stateObjects t a = Some so'" by (auto simp: restores_def)
  have "view t a = view s a" "source_of t = source_of s" using assms(1) by (simp_all add: restores_def)
  with view_loaded [OF so'] view_loaded [OF assms(2)]
  have "obj_view (source_of s) so = obj_view (source_of s) so'" by simp
  with so' show ?thesis by (rule that)
qed

lemma entry_ok_restores:
  assumes "restores s t" "entry_ok e s"
  shows "entry_ok e t"
proof (cases "object_undo e")
  case (Some p)
  then obtain a f where e: "object_undo e = Some (a, f)" by (cases p) auto
  with assms(2) obtain so where so: "sdb_stateObjects s a = Some so" "so_address so = a"
      "is_fake_change e \<longrightarrow> so_fakeStorage so \<noteq> None"
    by (auto simp: entry_ok_object)
  obtain so' where so': "sdb_stateObjects t a = Some so'"
      "obj_view (source_of s) so = obj_view (source_of s) so'"
    using restores_objects [OF assms(1) so(1)] .
  then have "so_address so' = a" "so_fakeStorage so' = None \<longleftrightarrow> so_fakeStorage so = None"
    using so(2) by (auto simp: obj_view_eq dest: fake_None_iff)
  with e so so' show ?thesis by (auto simp: entry_ok_object)
next
  case None
  have "in_db t = in_db s" "\<And>a. loaded s a \<Longrightarrow> loaded t a"
    using assms(1) by (auto simp: restores_def intro: in_db_source)
  with None assms(2) show ?thesis by (cases e) auto
qed

lemma restores_frame:
  assumes "restores s t"
  shows "restores (s\<lparr>sdb_refund := r\<rparr>) (t\<lparr>sdb_refund := r\<rparr>)"
    "restores (s\<lparr>sdb_logs := l, sdb_logSize := z\<rparr>) (t\<lparr>sdb_logs := l, sdb_logSize := z\<rparr>)"
    "restores (s\<lparr>sdb_accessList := al\<rparr>) (t\<lparr>sdb_accessList := al\<rparr>)"
    "restores s (t\<lparr>sdb_stateObjectsDirty := d\<rparr>)"
    "restores (s\<lparr>sdb_stateObjectsDirty := d'\<rparr>) t"
    "restores (s\<lparr>sdb_journal := j'\<rparr>) t"
proof -
  have v: "view (u\<lparr>sdb_refund := r\<rparr>) = view u" "view (u\<lparr>sdb_logs := l, sdb_logSize := z\<rparr>) = view u"
    "view (u\<lparr>sdb_accessList := al\<rparr>) = view u" "view (u\<lparr>sdb_stateObjectsDirty := d\<rparr>) = view u"
    "view (u\<lparr>sdb_stateObjectsDirty := d'\<rparr>) = view u" "view (u\<lparr>sdb_journal := j'\<rparr>) = view u" for u
    by (rule ext, rule view_cong, simp_all)+
  have i: "in_db (u\<lparr>sdb_refund := r\<rparr>) = in_db u" "in_db (u\<lparr>sdb_logs := l, sdb_logSize := z\<rparr>) = in_db u"
    "in_db (u\<lparr>sdb_accessList := al\<rparr>) = in_db u" "in_db (u\<lparr>sdb_stateObjectsDirty := d'\<rparr>) = in_db u"
    "in_db (u\<lparr>sdb_journal := j'\<rparr>) = in_db u" for u
    by (rule in_db_source, simp)+
  show "restores (s\<lparr>sdb_refund := r\<rparr>) (t\<lparr>sdb_refund := r\<rparr>)"
    "restores (s\<lparr>sdb_logs := l, sdb_logSize := z\<rparr>) (t\<lparr>sdb_logs := l, sdb_logSize := z\<rparr>)"
    "restores (s\<lparr>sdb_accessList := al\<rparr>) (t\<lparr>sdb_accessList := al\<rparr>)"
    "restores s (t\<lparr>sdb_stateObjectsDirty := d\<rparr>)"
    "restores (s\<lparr>sdb_stateObjectsDirty := d'\<rparr>) t"
    "restores (s\<lparr>sdb_journal := j'\<rparr>) t"
    using assms unfolding restores_def v i by simp_all
qed


lemma setStateObject_eq:
  "setStateObject s a so =
     (with_increase s a so,
      if pending s a then
        s\<lparr>sdb_stateObjects := (sdb_stateObjects s)(a \<mapsto> with_increase s a so),
          sdb_balanceInc := (sdb_balanceInc s)(a \<mapsto> (the (sdb_balanceInc s a))\<lparr>bi_transferred := True\<rparr>),
          sdb_journal := jn_append (sdb_journal s) (balanceIncreaseTransfer a)\<rparr>
      else s\<lparr>sdb_stateObjects := (sdb_stateObjects s)(a \<mapsto> with_increase s a so)\<rparr>)"
  by (cases "sdb_balanceInc s a")
     (auto simp: setStateObject_def with_increase_def pending_def journal_append_def)

lemma restores_setStateObject:
  assumes r: "restores s t"
  shows "restores (snd (setStateObject s a so)) (snd (setStateObject t a so))"
proof -
  have bi: "sdb_balanceInc t = sdb_balanceInc s" using r by (simp add: restores_def)
  then have e: "with_increase t a so = with_increase s a so" "pending t a = pending s a"
    by (simp_all add: with_increase_def pending_def)
  let ?o = "with_increase s a so"
  let ?s = "s\<lparr>sdb_stateObjects := (sdb_stateObjects s)(a \<mapsto> ?o)\<rparr>"
  let ?t = "t\<lparr>sdb_stateObjects := (sdb_stateObjects t)(a \<mapsto> ?o)\<rparr>"
  have o: "restores ?s ?t" by (rule restores_upd_object [OF r refl])
  have "restores (?s\<lparr>sdb_balanceInc := (sdb_balanceInc ?s)(a := b)\<rparr>)
                 (?t\<lparr>sdb_balanceInc := (sdb_balanceInc ?t)(a := b)\<rparr>)" for b
    by (rule restores_upd_increase [OF o]) simp
  then have "restores (?s\<lparr>sdb_balanceInc := (sdb_balanceInc s)(a := b), sdb_journal := j\<rparr>)
                      (?t\<lparr>sdb_balanceInc := (sdb_balanceInc s)(a := b), sdb_journal := j'\<rparr>)" for b j j'
    using bi by (simp add: restores_frame(6))
  with o show ?thesis unfolding setStateObject_eq e bi by simp
qed

lemma revert_entry_restores:
  assumes r: "restores s t" and ok: "entry_ok e s" and s': "revert_entry e s = Some s'"
  shows "\<exists>t'. revert_entry e t = Some t' \<and> restores s' t'"
proof (cases "object_undo e")
  case (Some p)
  then obtain a f where e: "object_undo e = Some (a, f)" by (cases p) auto
  with ok obtain so where so: "sdb_stateObjects s a = Some so" by (auto simp: entry_ok_object)
  obtain so' where so': "sdb_stateObjects t a = Some so'"
      "obj_view (source_of s) so = obj_view (source_of s) so'"
    using restores_objects [OF r so] .
  have "obj_view (source_of s) (f so) = obj_view (source_of s) (f so')"
    using so'(2) object_undo_respects [OF e, of "source_of s"] unfolding respects_view_def by blast
  then have "restores (s\<lparr>sdb_stateObjects := (sdb_stateObjects s)(a \<mapsto> f so)\<rparr>)
                  (t\<lparr>sdb_stateObjects := (sdb_stateObjects t)(a \<mapsto> f so')\<rparr>)"
    by (rule restores_upd_object [OF r])
  then show ?thesis
    using revert_entry_object [OF e entry_ok_restores [OF r ok] so'(1)]
      revert_entry_object [OF e ok so] s' by simp
next
  case None
  note eqs = r [unfolded restores_def]
  show ?thesis
  proof (cases e)
    case (createObjectChange a)
    have "restores (s\<lparr>sdb_stateObjects := (sdb_stateObjects s)(a := None)\<rparr>)
                   (t\<lparr>sdb_stateObjects := (sdb_stateObjects t)(a := None)\<rparr>)"
      by (rule restores_del_object [OF r])
    with createObjectChange s' show ?thesis
      by (auto intro: restores_frame(4) restores_frame(5))
  next
    case (resetObjectChange a p)
    with s' restores_setStateObject [OF r] show ?thesis by auto
  next
    case (balanceIncrease a v)
    with ok have "loaded s a \<or> \<not> in_db s a" by simp
    note u = restores_upd_increase [OF r this]
    have b: "sdb_balanceInc t = sdb_balanceInc s" using eqs by simp
    from u r b balanceIncrease s' show ?thesis
      by (cases "sdb_balanceInc s a") (auto simp: Let_def split: if_splits)
  next
    case (balanceIncreaseTransfer a)
    with ok have "loaded s a \<or> \<not> in_db s a" by simp
    note u = restores_upd_increase [OF r this]
    have b: "sdb_balanceInc t = sdb_balanceInc s" using eqs by simp
    from u r b balanceIncreaseTransfer s' show ?thesis
      by (cases "sdb_balanceInc s a") auto
  next
    case (addLogChange h)
    have l: "GetLogs t h = GetLogs s h" "sdb_logs t = sdb_logs s" "sdb_logSize t = sdb_logSize s"
      using eqs by (simp_all add: GetLogs_def)
    with addLogChange s' show ?thesis
      using restores_frame(2) [OF r] by (auto simp: Let_def split: if_splits)
  next
    case (accessListAddSlotChange a k)
    have l: "sdb_accessList t = sdb_accessList s" using eqs by simp
    with accessListAddSlotChange s' show ?thesis using restores_frame(3) [OF r] by auto
  next
    case (accessListAddAccountChange a)
    have l: "sdb_accessList t = sdb_accessList s" using eqs by simp
    with accessListAddAccountChange s' show ?thesis using restores_frame(3) [OF r] by auto
  qed (use None s' r restores_frame(1) [OF r] in auto)
qed

section \<open>Undoing a run of entries\<close>

fun undoes :: "journalEntry list \<Rightarrow> IntraBlockState \<Rightarrow> IntraBlockState \<Rightarrow> bool" where
  "undoes [] s1 s0 = restores s0 s1"
| "undoes (e # es) s1 s0 =
     (entry_ok e s1 \<and> (case revert_entry e s1 of None \<Rightarrow> False | Some s' \<Rightarrow> undoes es s' s0))"

lemma undoes_restores: "undoes es s1 s0 \<Longrightarrow> restores s1 t1 \<Longrightarrow> undoes es t1 s0"
proof (induction es arbitrary: s1 t1)
  case Nil
  then show ?case by (auto intro: restores_trans)
next
  case (Cons e es)
  from Cons.prems obtain s' where s': "entry_ok e s1" "revert_entry e s1 = Some s'" "undoes es s' s0"
    by (auto split: option.splits)
  obtain t' where t': "revert_entry e t1 = Some t'" "restores s' t'"
    using revert_entry_restores [OF Cons.prems(2) s'(1,2)] by blast
  have "undoes es t' s0" by (rule Cons.IH [OF s'(3) t'(2)])
  with t' entry_ok_restores [OF Cons.prems(2) s'(1)] show ?case by simp
qed

lemma undoes_append: "undoes es1 s2 s1 \<Longrightarrow> undoes es2 s1 s0 \<Longrightarrow> undoes (es1 @ es2) s2 s0"
  by (induction es1 arbitrary: s2) (auto intro: undoes_restores split: option.splits)

lemma undoes_base: "undoes es s2 s1 \<Longrightarrow> restores s0 s1 \<Longrightarrow> undoes es s2 s0"
  using undoes_append [of es s2 s1 "[]" s0] by simp

lemma undoes_revert_entries:
  "undoes es s1 s0 \<Longrightarrow> \<exists>t. revert_entries es s1 = Some t \<and> restores s0 t"
proof (induction es arbitrary: s1)
  case (Cons e es)
  from Cons.prems obtain s' where s': "revert_entry e s1 = Some s'" "undoes es s' s0"
    by (auto split: option.splits)
  have "undoes es (s'\<lparr>sdb_journal := jn_undirty (sdb_journal s') e\<rparr>) s0"
    by (rule undoes_restores [OF s'(2)]) simp
  with Cons.IH s'(1) show ?case by simp
qed simp

end
