(* ===== verification/State_Steps.thy ===== *)
theory State_Steps
  imports State_Revert
begin

text \<open>
  Every operation of the state database is a step the journal can undo. \<open>ustep s s'\<close> collects
  what a step guarantees: the invariants, the same revisions, and a journal that has grown by
  entries whose undoing restores \<open>s\<close>. Steps compose, so an operation that loads an account and
  then writes it is two steps.
\<close>

section \<open>Steps\<close>

definition wf_state :: "IntraBlockState \<Rightarrow> bool" where
  "wf_state s \<longleftrightarrow> wf_objects s \<and> wf_pending s"

abbreviation entries :: "IntraBlockState \<Rightarrow> journalEntry list" where
  "entries s \<equiv> jn_entries (sdb_journal s)"

definition ustep :: "IntraBlockState \<Rightarrow> IntraBlockState \<Rightarrow> bool" where
  "ustep s s' \<longleftrightarrow> wf_state s' \<and> source_of s' = source_of s \<and>
     sdb_validRevisions s' = sdb_validRevisions s \<and> sdb_nextRevisionID s' = sdb_nextRevisionID s \<and>
     (\<exists>es. entries s' = entries s @ es \<and> undoes (rev es) s' s)"

lemma ustep_refl: "wf_state s \<Longrightarrow> ustep s s"
  by (simp add: ustep_def)

lemma ustep_trans [trans]: "ustep s t \<Longrightarrow> ustep t u \<Longrightarrow> ustep s u"
proof -
  assume st: "ustep s t" and tu: "ustep t u"
  then obtain es fs where "entries t = entries s @ es" "undoes (rev es) t s"
      "entries u = entries t @ fs" "undoes (rev fs) u t"
    by (auto simp: ustep_def)
  then have "entries u = entries s @ (es @ fs)" "undoes (rev (es @ fs)) u s"
    by (auto intro: undoes_append)
  with st tu show ?thesis unfolding ustep_def by metis
qed

lemma ustep_wf: "ustep s s' \<Longrightarrow> wf_state s'"
  by (simp add: ustep_def)

lemma ustep_source: "ustep s s' \<Longrightarrow> source_of s' = source_of s"
  by (simp add: ustep_def)

text \<open>A step that writes nothing observable and journals nothing.\<close>

lemma ustep_silent:
  assumes "wf_state s" "restores s s'" "wf_objects s'" "entries s' = entries s"
    "sdb_validRevisions s' = sdb_validRevisions s" "sdb_nextRevisionID s' = sdb_nextRevisionID s"
  shows "ustep s s'"
  using assms wf_pending_restores [OF assms(2)]
  by (simp add: ustep_def wf_state_def restores_def)

lemma jn_append_entries [simp]: "jn_entries (jn_append j e) = jn_entries j @ [e]"
  by (simp add: jn_append_def Let_def split: option.split)

lemma jn_dirty_entries [simp]: "jn_entries (jn_dirty j a) = jn_entries j"
  by (simp add: jn_dirty_def)

lemma journal_append_fields [simp]:
  "sdb_stateObjects (journal_append e s) = sdb_stateObjects s"
  "sdb_balanceInc (journal_append e s) = sdb_balanceInc s"
  "sdb_nilAccounts (journal_append e s) = sdb_nilAccounts s"
  "sdb_stateReader (journal_append e s) = sdb_stateReader s"
  "sdb_ext (journal_append e s) = sdb_ext s"
  "source_of (journal_append e s) = source_of s"
  "sdb_refund (journal_append e s) = sdb_refund s"
  "sdb_logs (journal_append e s) = sdb_logs s"
  "sdb_logSize (journal_append e s) = sdb_logSize s"
  "sdb_accessList (journal_append e s) = sdb_accessList s"
  "sdb_thash (journal_append e s) = sdb_thash s"
  "sdb_bhash (journal_append e s) = sdb_bhash s"
  "sdb_txIndex (journal_append e s) = sdb_txIndex s"
  "sdb_validRevisions (journal_append e s) = sdb_validRevisions s"
  "sdb_nextRevisionID (journal_append e s) = sdb_nextRevisionID s"
  "sdb_savedErr (journal_append e s) = sdb_savedErr s"
  "sdb_snap (journal_append e s) = sdb_snap s"
  "jn_entries (sdb_journal (journal_append e s)) = jn_entries (sdb_journal s) @ [e]"
  by (simp_all add: journal_append_def)

lemma put_object_fields [simp]:
  "sdb_stateObjects (put_object x s) = (sdb_stateObjects s)(so_address x \<mapsto> x)"
  "sdb_balanceInc (put_object x s) = sdb_balanceInc s"
  "sdb_nilAccounts (put_object x s) = sdb_nilAccounts s"
  "sdb_stateReader (put_object x s) = sdb_stateReader s"
  "sdb_ext (put_object x s) = sdb_ext s"
  "source_of (put_object x s) = source_of s"
  "sdb_refund (put_object x s) = sdb_refund s"
  "sdb_logs (put_object x s) = sdb_logs s"
  "sdb_logSize (put_object x s) = sdb_logSize s"
  "sdb_accessList (put_object x s) = sdb_accessList s"
  "sdb_thash (put_object x s) = sdb_thash s"
  "sdb_bhash (put_object x s) = sdb_bhash s"
  "sdb_txIndex (put_object x s) = sdb_txIndex s"
  "sdb_validRevisions (put_object x s) = sdb_validRevisions s"
  "sdb_nextRevisionID (put_object x s) = sdb_nextRevisionID s"
  "sdb_journal (put_object x s) = sdb_journal s"
  by (simp_all add: put_object_def)

lemma setErrorUnsafe_fields [simp]:
  "sdb_stateObjects (setErrorUnsafe s err) = sdb_stateObjects s"
  "sdb_balanceInc (setErrorUnsafe s err) = sdb_balanceInc s"
  "sdb_nilAccounts (setErrorUnsafe s err) = sdb_nilAccounts s"
  "sdb_stateReader (setErrorUnsafe s err) = sdb_stateReader s"
  "sdb_ext (setErrorUnsafe s err) = sdb_ext s"
  "source_of (setErrorUnsafe s err) = source_of s"
  "sdb_refund (setErrorUnsafe s err) = sdb_refund s"
  "sdb_logs (setErrorUnsafe s err) = sdb_logs s"
  "sdb_logSize (setErrorUnsafe s err) = sdb_logSize s"
  "sdb_accessList (setErrorUnsafe s err) = sdb_accessList s"
  "sdb_thash (setErrorUnsafe s err) = sdb_thash s"
  "sdb_bhash (setErrorUnsafe s err) = sdb_bhash s"
  "sdb_txIndex (setErrorUnsafe s err) = sdb_txIndex s"
  "sdb_journal (setErrorUnsafe s err) = sdb_journal s"
  "sdb_validRevisions (setErrorUnsafe s err) = sdb_validRevisions s"
  "sdb_nextRevisionID (setErrorUnsafe s err) = sdb_nextRevisionID s"
  "sdb_snap (setErrorUnsafe s err) = sdb_snap s"
  by (simp_all add: setErrorUnsafe_def split: option.split)

lemma in_db_fields [simp]: "in_db (journal_append e s) = in_db s" "in_db (put_object x s) = in_db s"
  by (rule in_db_source, simp)+

lemma wf_objectsI:
  assumes "wf_objects s" "sdb_stateReader s' = sdb_stateReader s" "sdb_nilAccounts s' = sdb_nilAccounts s"
    "\<And>a so. sdb_stateObjects s' a = Some so \<Longrightarrow> wf_object a so"
    "\<And>a p. resetObjectChange a p \<in> set (entries s') \<Longrightarrow> resetObjectChange a p \<in> set (entries s) \<or> wf_object a p"
  shows "wf_objects s'"
  using assms(1,4,5) unfolding wf_objects_def assms(2,3) by blast

lemma wf_objects_upd:
  assumes "wf_objects s" "sdb_stateReader s' = sdb_stateReader s" "sdb_nilAccounts s' = sdb_nilAccounts s"
    "sdb_stateObjects s' = (sdb_stateObjects s)(a \<mapsto> x)" "wf_object a x"
    "\<And>b p. resetObjectChange b p \<in> set (entries s') \<Longrightarrow> resetObjectChange b p \<in> set (entries s) \<or> wf_object b p"
  shows "wf_objects s'"
proof (rule wf_objectsI [OF assms(1-3) _ assms(6)])
  fix b so assume "sdb_stateObjects s' b = Some so"
  then have "b = a \<and> so = x \<or> sdb_stateObjects s b = Some so"
    unfolding assms(4) by (simp split: if_splits)
  then show "wf_object b so" using assms(1,5) unfolding wf_objects_def by blast
qed

lemma wf_objects_object: "wf_state s \<Longrightarrow> sdb_stateObjects s a = Some so \<Longrightarrow> wf_object a so"
  by (auto simp: wf_state_def wf_objects_def)

lemma wf_objects_address: "wf_state s \<Longrightarrow> sdb_stateObjects s a = Some so \<Longrightarrow> so_address so = a"
  using wf_objects_object by (auto simp: wf_object_def)

lemma wf_object_address [dest]: "wf_object a x \<Longrightarrow> so_address x = a"
  by (simp add: wf_object_def)

lemma wf_pending_loaded: "wf_state s \<Longrightarrow> loaded s a \<Longrightarrow> \<not> pending s a"
  by (auto simp: wf_state_def wf_pending_def)

lemma wf_pending_db: "wf_state s \<Longrightarrow> in_db s a \<Longrightarrow> \<not> pending s a"
  by (auto simp: wf_state_def wf_pending_def)

text \<open>A step that journals one entry and leaves the objects alone.\<close>

lemma ustep_entry:
  assumes wf: "wf_state s"
    and same: "sdb_stateObjects s' = sdb_stateObjects s" "sdb_nilAccounts s' = sdb_nilAccounts s"
      "source_of s' = source_of s" "sdb_validRevisions s' = sdb_validRevisions s"
      "sdb_nextRevisionID s' = sdb_nextRevisionID s"
    and e: "entries s' = entries s @ [e]" "\<And>b p. e \<noteq> resetObjectChange b p"
    and undo: "entry_ok e s'" "revert_entry e s' = Some t" "restores s t"
    and wp: "wf_pending s'"
  shows "ustep s s'"
proof -
  have "wf_objects s'"
  proof (rule wf_objectsI [of s])
    show "wf_objects s" using wf by (simp add: wf_state_def)
    show "sdb_stateReader s' = sdb_stateReader s" by (rule source_of_reader [OF same(3)])
    show "sdb_nilAccounts s' = sdb_nilAccounts s" by (rule same)
    show "wf_object b so" if "sdb_stateObjects s' b = Some so" for b so
      using that wf_objects_object [OF wf] same(1) by simp
    show "resetObjectChange b p \<in> set (entries s) \<or> wf_object b p"
      if "resetObjectChange b p \<in> set (entries s')" for b p
      using that e(1) e(2) [of b p] by auto
  qed
  moreover have "undoes (rev [e]) s' s" using undo by simp
  ultimately show ?thesis using wp same e(1) unfolding ustep_def wf_state_def by blast
qed

section \<open>Writing an object in place\<close>

lemma ustep_object:
  assumes wf: "wf_state s" and so: "sdb_stateObjects s a = Some so"
    and e: "object_undo e = Some (a, f)" and x: "wf_object a x"
    and undo: "obj_view (source_of s) (f x) = obj_view (source_of s) so"
    and fake: "is_fake_change e \<longrightarrow> so_fakeStorage x \<noteq> None"
  shows "ustep s (put_object x (journal_append e s))" (is "ustep s ?s'")
proof -
  have xa: "so_address x = a" using x by (rule wf_object_address)
  have ok: "entry_ok e ?s'" using xa fake by (simp add: entry_ok_object [OF e])
  have rv: "revert_entry e ?s' = Some (?s'\<lparr>sdb_stateObjects := (sdb_stateObjects ?s')(a \<mapsto> f x)\<rparr>)"
    by (rule revert_entry_object [OF e ok]) (simp add: xa)
  have "restores s (?s'\<lparr>sdb_stateObjects := (sdb_stateObjects ?s')(a \<mapsto> f x)\<rparr>)" (is "restores s ?t")
  proof (rule restoresI)
    fix b show "sdb_stateObjects ?t b = sdb_stateObjects s b \<or>
      view ?t b = view s b \<and> loaded ?t b \<and> (loaded s b \<or> in_db s b)"
      using xa so undo by (cases "b = a") (simp_all add: view_loaded)
  qed simp_all
  with ok rv have u: "undoes (rev [e]) ?s' s" by simp
  have ne: "e \<noteq> resetObjectChange b p" for b p using e by auto
  have "wf_objects ?s'"
  proof (rule wf_objects_upd [of s _ a x])
    show "wf_objects s" using wf by (simp add: wf_state_def)
    show "resetObjectChange b p \<in> set (entries s) \<or> wf_object b p"
      if "resetObjectChange b p \<in> set (entries ?s')" for b p
      using that ne [of b p] by auto
  qed (simp_all add: x xa)
  moreover have "wf_pending ?s'"
    using wf so xa wf_pending_loaded [OF wf, of a] unfolding wf_state_def wf_pending_def
    by (simp add: pending_cong [of ?s' _ s])
  ultimately show ?thesis using u by (simp add: ustep_def wf_state_def)
qed


section \<open>Creating and loading objects\<close>

lemma blank_object_fields [simp]:
  "so_address (blank_object s a) = a" "so_address (newObject s a acc orig) = a"
  "so_address (with_increase s a so) = so_address so"
  by (simp_all add: blank_object_def newObject_def Let_def with_increase_def split: option.split)

lemma newObject_Initialised [simp]: "acc_Initialised (so_data (newObject s a acc orig))"
  unfolding newObject_def Let_def by simp

lemma wf_new_object [simp]:
  "wf_object a (newObject s a acc orig)" "wf_object a (so_setNonce v (newObject s a acc orig))"
  "wf_object a (blank_object s a)"
  unfolding wf_object_def blank_object_def by simp_all

lemma wf_with_increase [simp]: "wf_object a (with_increase s b x) = wf_object a x"
  by (cases "sdb_balanceInc s b") (simp_all add: wf_object_def with_increase_def)

lemma pending_transferred [simp]:
  "pending (s\<lparr>sdb_balanceInc := (sdb_balanceInc s)(a \<mapsto> b\<lparr>bi_transferred := True\<rparr>)\<rparr>) c =
     (c \<noteq> a \<and> pending s c)"
  by (simp add: pending_def)

lemma createObject_new:
  "createObject s a None =
     (with_increase s a (blank_object s a),
      if pending s a then
        s\<lparr>sdb_stateObjects := (sdb_stateObjects s)(a \<mapsto> with_increase s a (blank_object s a)),
          sdb_balanceInc := (sdb_balanceInc s)(a \<mapsto> (the (sdb_balanceInc s a))\<lparr>bi_transferred := True\<rparr>),
          sdb_journal := jn_append (jn_append (sdb_journal s) (createObjectChange a)) (balanceIncreaseTransfer a)\<rparr>
      else
        s\<lparr>sdb_stateObjects := (sdb_stateObjects s)(a \<mapsto> with_increase s a (blank_object s a)),
          sdb_journal := jn_append (sdb_journal s) (createObjectChange a)\<rparr>)"
proof -
  have "newObject (journal_append e s) = newObject s" for e
    by (rule ext)+ (rule newObject_ext, simp)
  then show ?thesis
    unfolding createObject_def Let_def setStateObject_eq
    by (simp add: blank_object_def journal_append_def with_increase_def pending_def)
qed

text \<open>
  Creating an object, and then writing the new object in place (as \<^verbatim>\<open>CreateAccount\<close> does),
  is one step: undoing the creation drops the object whatever it holds by then.
\<close>

lemma put_object_created:
  assumes c: "createObject s a None = (so, s1)" and x: "so_address x = a"
  shows "put_object x s1 =
     (if pending s a then
        s\<lparr>sdb_stateObjects := (sdb_stateObjects s)(a \<mapsto> x),
          sdb_balanceInc := (sdb_balanceInc s)(a \<mapsto> (the (sdb_balanceInc s a))\<lparr>bi_transferred := True\<rparr>),
          sdb_journal := jn_append (jn_append (sdb_journal s) (createObjectChange a)) (balanceIncreaseTransfer a)\<rparr>
      else
        s\<lparr>sdb_stateObjects := (sdb_stateObjects s)(a \<mapsto> x),
          sdb_journal := jn_append (sdb_journal s) (createObjectChange a)\<rparr>)"
  using c x by (auto simp: createObject_new put_object_def split: if_splits)

lemma ustep_create:
  assumes wf: "wf_state s" and n: "sdb_stateObjects s a = None" and db: "\<not> in_db s a"
    and c: "createObject s a None = (so, s1)" and x: "wf_object a x"
  shows "ustep s (put_object x s1)" (is "ustep s ?s'")
proof -
  have xa: "so_address x = a" using x by (rule wf_object_address)
  note s' = put_object_created [OF c xa]
  have idb: "in_db ?s' = in_db s" unfolding s' by (rule in_db_source) simp
  have src: "source_of ?s' = source_of s" unfolding s' by simp
  have objs: "sdb_stateObjects ?s' = (sdb_stateObjects s)(a \<mapsto> x)" unfolding s' by simp
  have w: "wf_objects ?s'"
  proof (rule wf_objects_upd [of s _ a x])
    show "wf_objects s" using wf by (simp add: wf_state_def)
    show "resetObjectChange b p \<in> set (entries s) \<or> wf_object b p"
      if "resetObjectChange b p \<in> set (entries ?s')" for b p
      using that unfolding s' by (simp split: if_splits)
  qed (simp_all add: s' x)
  have pend: "pending ?s' b \<longleftrightarrow> b \<noteq> a \<and> pending s b" for b
    unfolding s' by (auto simp: pending_def split: option.splits)
  have cnt: "0 < bi_count bi" if "sdb_balanceInc ?s' b = Some bi" for b bi
  proof (cases "pending s a \<and> b = a")
    case True
    then obtain bi0 where "sdb_balanceInc s a = Some bi0" by (auto simp: pending_def split: option.splits)
    with wf that True show ?thesis unfolding s' by (auto simp: wf_state_def wf_pending_def)
  next
    case False
    then have "sdb_balanceInc s b = Some bi" using that unfolding s' by (auto split: if_splits)
    with wf show ?thesis by (simp add: wf_state_def wf_pending_def)
  qed
  have same: "sdb_accessList ?s' = sdb_accessList s" "sdb_logs ?s' = sdb_logs s"
    unfolding s' by simp_all
  have "wf_pending ?s'"
    using wf pend cnt unfolding wf_state_def wf_pending_def same idb objs by simp
  moreover have "\<exists>es. entries ?s' = entries s @ es \<and> undoes (rev es) ?s' s"
  proof (cases "pending s a")
    case False
    have "restores s (?s'\<lparr>sdb_stateObjects := (sdb_stateObjects ?s')(a := None),
                        sdb_stateObjectsDirty := sdb_stateObjectsDirty ?s' - {a}\<rparr>)"
      unfolding s' using False n by (intro restoresI) auto
    then have "undoes (rev [createObjectChange a]) ?s' s" by simp
    with False show ?thesis by (intro exI [of _ "[createObjectChange a]"]) (simp add: s')
  next
    case True
    then obtain bi where bi: "sdb_balanceInc s a = Some bi" "\<not> bi_transferred bi"
      by (auto simp: pending_def split: option.splits)
    then have bi': "sdb_balanceInc ?s' = (sdb_balanceInc s)(a \<mapsto> bi\<lparr>bi_transferred := True\<rparr>)"
      using True unfolding s' by simp
    have eq: "(sdb_balanceInc s)(a \<mapsto> bi\<lparr>bi_transferred := False\<rparr>) = sdb_balanceInc s"
      using bi by (auto simp: fun_eq_iff)
    have "restores s (?s'\<lparr>sdb_balanceInc := sdb_balanceInc s,
                        sdb_stateObjects := (sdb_stateObjects ?s')(a := None),
                        sdb_stateObjectsDirty := sdb_stateObjectsDirty ?s' - {a}\<rparr>)"
      unfolding s' using True n by (intro restoresI) auto
    then have "undoes (rev [createObjectChange a, balanceIncreaseTransfer a]) ?s' s"
      using bi' idb db eq by simp
    with True show ?thesis
      by (intro exI [of _ "[createObjectChange a, balanceIncreaseTransfer a]"]) (simp add: s')
  qed
  moreover have "sdb_validRevisions ?s' = sdb_validRevisions s" "sdb_nextRevisionID ?s' = sdb_nextRevisionID s"
    unfolding s' by simp_all
  ultimately show ?thesis using w src by (simp add: ustep_def wf_state_def)
qed

lemma put_object_same: "sdb_stateObjects s a = Some so \<Longrightarrow> so_address so = a \<Longrightarrow> put_object so s = s"
  by (simp add: put_object_def fun_upd_idem)

lemma createObject_stores:
  "createObject s a p = (so, s1) \<Longrightarrow> sdb_stateObjects s1 a = Some so \<and> wf_object a so"
  unfolding createObject_def Let_def setStateObject_eq by (auto split: if_splits)

lemma ustep_create_plain:
  assumes "wf_state s" "sdb_stateObjects s a = None" "\<not> in_db s a" "createObject s a None = (so, s1)"
  shows "ustep s s1"
  using ustep_create [OF assms, of so] createObject_stores [OF assms(4)] put_object_same [of s1 a so] by (simp add: wf_object_def)

text \<open>Replacing a loaded object.\<close>

lemma createObject_reset:
  assumes "\<not> pending s a"
  shows "createObject s a (Some p) =
     (so_setNonce 0 (newObject s a zero_account (so_original p)),
      s\<lparr>sdb_stateObjects := (sdb_stateObjects s)(a \<mapsto> so_setNonce 0 (newObject s a zero_account (so_original p))),
        sdb_journal := jn_append (sdb_journal s) (resetObjectChange a p)\<rparr>)"
proof -
  have "newObject (journal_append e s) = newObject s" for e
    by (rule ext)+ (rule newObject_ext, simp)
  moreover have "with_increase (journal_append e s) a o' = o'" for e o'
    using assms by (auto simp: with_increase_def pending_def split: option.splits)
  moreover have "\<not> pending (journal_append e s) a" for e using assms by (simp add: pending_def)
  ultimately show ?thesis
    unfolding createObject_def Let_def setStateObject_eq by (simp add: journal_append_def)
qed

lemma ustep_reset:
  assumes wf: "wf_state s" and p: "sdb_stateObjects s a = Some p"
    and c: "createObject s a (Some p) = (so, s1)" and x: "wf_object a x"
  shows "ustep s (put_object x s1)" (is "ustep s ?s'")
proof -
  have np: "\<not> pending s a" using wf_pending_loaded [OF wf] p by simp
  have s': "?s' = s\<lparr>sdb_stateObjects := (sdb_stateObjects s)(a \<mapsto> x),
                    sdb_journal := jn_append (sdb_journal s) (resetObjectChange a p)\<rparr>"
    using c wf_object_address [OF x] np by (auto simp: createObject_reset put_object_def)
  have pa: "wf_object a p" by (rule wf_objects_object [OF wf p])
  have w: "wf_objects ?s'"
  proof (rule wf_objects_upd [of s _ a x])
    show "wf_objects s" using wf by (simp add: wf_state_def)
    show "resetObjectChange b q \<in> set (entries s) \<or> wf_object b q"
      if "resetObjectChange b q \<in> set (entries ?s')" for b q
      using that pa unfolding s' by auto
  qed (simp_all add: s' x)
  have pe: "pending ?s' b = pending s b" for b by (rule pending_cong) (simp add: s')
  have idb: "in_db ?s' = in_db s" by (rule in_db_source) (simp add: s')
  have wp: "wf_pending ?s'"
    using wf p np unfolding wf_state_def wf_pending_def pe idb by (simp add: s')
  have "with_increase ?s' a p = p"
    using np by (auto simp: with_increase_def pending_def s' split: option.splits)
  then have rv: "revert_entry (resetObjectChange a p) ?s' = Some (?s'\<lparr>sdb_stateObjects := (sdb_stateObjects ?s')(a \<mapsto> p)\<rparr>)"
    using pe np by (simp add: setStateObject_eq)
  have "restores s (?s'\<lparr>sdb_stateObjects := (sdb_stateObjects ?s')(a \<mapsto> p)\<rparr>)"
    using p by (intro restoresI) (auto simp: s')
  with rv wf_object_address [OF pa] have "undoes (rev [resetObjectChange a p]) ?s' s" by simp
  then show ?thesis using w wp unfolding ustep_def wf_state_def
    by (intro conjI exI [of _ "[resetObjectChange a p]"]) (simp_all add: s')
qed

lemma CanWrite_AddAccount [simp]: "CanWrite (sn_AddAccount ext sn a acc) = CanWrite sn"
  by (simp add: sn_AddAccount_def CanWrite_def Let_def split: option.split)

lemma CanWrite_AddStorage [simp]: "CanWrite (sn_AddStorage sn a k inc v) = CanWrite sn"
  by (simp add: sn_AddStorage_def CanWrite_def Let_def)

definition load_witness :: "IntraBlockState \<Rightarrow> address \<Rightarrow> StateAccount \<Rightarrow> IntraBlockState" where
  "load_witness s a acc =
     (case sdb_snap s of
        Some snap \<Rightarrow> if CanWrite snap
                     then s\<lparr>sdb_snap := Some (sn_AddAccount (sdb_ext s) snap a (Some acc))\<rparr> else s
      | None \<Rightarrow> s)"

lemma source_of_load_witness [simp]: "source_of (load_witness s a acc) = source_of s"
  by (simp add: load_witness_def source_of_def split: option.split)

lemma load_witness_fields [simp]:
  "sdb_stateObjects (load_witness s a acc) = sdb_stateObjects s"
  "sdb_balanceInc (load_witness s a acc) = sdb_balanceInc s"
  "sdb_nilAccounts (load_witness s a acc) = sdb_nilAccounts s"
  "sdb_refund (load_witness s a acc) = sdb_refund s"
  "sdb_logs (load_witness s a acc) = sdb_logs s"
  "sdb_logSize (load_witness s a acc) = sdb_logSize s"
  "sdb_accessList (load_witness s a acc) = sdb_accessList s"
  "sdb_thash (load_witness s a acc) = sdb_thash s"
  "sdb_bhash (load_witness s a acc) = sdb_bhash s"
  "sdb_txIndex (load_witness s a acc) = sdb_txIndex s"
  "sdb_journal (load_witness s a acc) = sdb_journal s"
  "sdb_validRevisions (load_witness s a acc) = sdb_validRevisions s"
  "sdb_nextRevisionID (load_witness s a acc) = sdb_nextRevisionID s"
  "sdb_stateReader (load_witness s a acc) = sdb_stateReader s"
  "sdb_ext (load_witness s a acc) = sdb_ext s"
  by (simp_all add: load_witness_def split: option.split)

lemma getStateObject_db:
  assumes "sdb_stateObjects s a = None" "a \<notin> sdb_nilAccounts s" "\<not> pending s a"
    "ReadAccountData (sdb_stateReader s) a = (Some acc, None)"
  shows "getStateObject s a =
     (Some (newObject s a acc acc),
      (load_witness s a acc)\<lparr>sdb_stateObjects := (sdb_stateObjects s)(a \<mapsto> newObject s a acc acc)\<rparr>)"
proof -
  have "\<not> pending (load_witness s a acc) a" using assms(3) by (simp add: pending_def)
  moreover have "with_increase (load_witness s a acc) a o' = o'" for o'
    using assms(3) by (auto simp: with_increase_def pending_def split: option.splits)
  moreover have "newObject (load_witness s a acc) a acc acc = newObject s a acc acc"
    by (rule newObject_ext) simp
  ultimately show ?thesis
    using assms(1,2,4)
    by (simp add: getStateObject_def load_witness_def [symmetric] setStateObject_eq Let_def)
qed

lemma ustep_quiet:
  assumes "wf_state s" "sdb_stateObjects s' = sdb_stateObjects s" "sdb_balanceInc s' = sdb_balanceInc s"
    "source_of s' = source_of s"
    "\<And>b. b \<in> sdb_nilAccounts s' \<Longrightarrow> b \<in> sdb_nilAccounts s \<or> ReadAccountData (sdb_stateReader s) b = (None, None)"
    "sdb_refund s' = sdb_refund s" "sdb_logs s' = sdb_logs s" "sdb_logSize s' = sdb_logSize s"
    "sdb_accessList s' = sdb_accessList s" "sdb_thash s' = sdb_thash s"
    "sdb_bhash s' = sdb_bhash s" "sdb_txIndex s' = sdb_txIndex s" "entries s' = entries s"
    "sdb_validRevisions s' = sdb_validRevisions s" "sdb_nextRevisionID s' = sdb_nextRevisionID s"
  shows "ustep s s'" "view s' = view s"
proof -
  have r: "restores s s'" by (rule restoresI) (use assms in simp_all)
  then show "view s' = view s" by (simp add: restores_def)
  have "wf_objects s'"
    using assms(1,5) unfolding wf_state_def wf_objects_def assms(2,13) source_of_reader [OF assms(4)]
    by blast
  then show "ustep s s'" by (rule ustep_silent [OF assms(1) r _ assms(13-15)])
qed

text \<open>Loading an account is a step that changes nothing observable, and returns the object of
  the view.\<close>

lemma getStateObject_step:
  assumes wf: "wf_state s" and g: "getStateObject s a = (r, s')"
  shows "ustep s s' \<and> sdb_stateObjects s' a = r \<and> view s' = view s \<and>
         (r = None \<longrightarrow> \<not> in_db s a)"
proof (cases "sdb_stateObjects s a")
  case (Some so)
  with g ustep_refl [OF wf] show ?thesis by (auto simp: getStateObject_loaded)
next
  case unloaded: None
  obtain v err where rd: "ReadAccountData (sdb_stateReader s) a = (v, err)" by (meson surj_pair)
  have nil: "a \<in> sdb_nilAccounts s \<Longrightarrow> v = None \<and> err = None"
    using wf rd by (auto simp: wf_state_def wf_objects_def)
  consider (err) e where "err = Some e" | (db) acc where "v = Some acc" "err = None"
    | (absent) "v = None" "err = None" by (cases v; cases err) auto
  then show ?thesis
  proof cases
    case err
    with nil have "a \<notin> sdb_nilAccounts s" by auto
    with err unloaded rd g have r: "r = None" "s' = setErrorUnsafe s e" "\<not> in_db s a"
      by (cases v; simp add: getStateObject_def in_db_def)+
    have u: "ustep s s'" "view s' = view s"
      unfolding r by (rule ustep_quiet [OF wf]; simp)+
    with r unloaded show ?thesis by simp
  next
    case db
    have d: "in_db s a" using rd db by (simp add: in_db_def)
    have p: "\<not> pending s a" by (rule wf_pending_db [OF wf d])
    have r: "r = Some (newObject s a acc acc)"
        "s' = (load_witness s a acc)\<lparr>sdb_stateObjects := (sdb_stateObjects s)(a \<mapsto> newObject s a acc acc)\<rparr>"
      using getStateObject_db [OF unloaded _ p, of acc] rd db nil g by auto
    have "view s a = Some (obj_view (source_of s) (newObject s a acc acc))"
      using unloaded rd db p
      by (auto simp: view_def view_object_def with_increase_def pending_def split: option.splits)
    then have v: "view s' a = view s a" using r by (simp add: view_loaded)
    have res: "restores s s'"
    proof (rule restoresI)
      fix b show "sdb_stateObjects s' b = sdb_stateObjects s b \<or>
          view s' b = view s b \<and> loaded s' b \<and> (loaded s b \<or> in_db s b)"
        using v d r by (cases "b = a") auto
    qed (simp_all add: r)
    have "wf_objects s'"
      using wf unfolding wf_state_def
      by (intro wf_objects_upd [of s s' a "newObject s a acc acc"]) (simp_all add: r)
    then have "ustep s s'" by (intro ustep_silent [OF wf res]) (simp_all add: r)
    with res r show ?thesis by (simp add: restores_def)
  next
    case absent
    let ?s1 = "s\<lparr>sdb_nilAccounts := insert a (sdb_nilAccounts s)\<rparr>"
    have ins: "?s1 = s" if "a \<in> sdb_nilAccounts s" using that by (simp add: insert_absorb)
    have p1: "pending ?s1 a = pending s a" by (rule pending_cong) simp
    have g1: "getStateObject s a =
        (if pending s a then (let (o', t) = createObject ?s1 a None in (Some o', t)) else (None, ?s1))"
      using unloaded rd absent p1 ins
      by (cases "a \<in> sdb_nilAccounts s") (simp_all add: getStateObject_def Let_def)
    have u1: "ustep s ?s1" "view ?s1 = view s"
      by (rule ustep_quiet [OF wf]; use rd absent in auto)+
    have d: "\<not> in_db s a" using rd absent by (simp add: in_db_def)
    then have d1: "\<not> in_db ?s1 a" using in_db_source [of ?s1 s] by simp
    show ?thesis
    proof (cases "pending s a")
      case False
      with g g1 u1 unloaded d show ?thesis by auto
    next
      case True
      then obtain o' where c: "createObject ?s1 a None = (o', s')" "r = Some o'"
        using g g1 by (auto simp: Let_def split: prod.splits)
      have "ustep ?s1 s'" "sdb_stateObjects s' a = Some o'"
        using ustep_create_plain [OF ustep_wf [OF u1(1)] _ d1 c(1)] createObject_stores [OF c(1)] unloaded
        by simp_all
      moreover have "view s' b = view ?s1 b" for b
      proof (cases "b = a")
        case True
        have "o' = with_increase ?s1 a (blank_object ?s1 a)" using c(1) by (simp add: createObject_new)
        moreover have "source_of s' = source_of ?s1" by (rule ustep_source) fact
        ultimately show ?thesis
          using True \<open>sdb_stateObjects s' a = Some o'\<close> \<open>pending s a\<close> p1 unloaded rd absent
          by (simp add: view_loaded) (simp add: view_def view_object_def)
      next
        case False
        then show ?thesis using c(1) p1 True by (intro view_cong) (auto simp: createObject_new)
      qed
      ultimately show ?thesis using u1 c(2) ustep_trans by (auto simp: fun_eq_iff)
    qed
  qed
qed

end
