(* ===== verification/State_Ops.thy ===== *)
theory State_Ops
  imports State_Steps
begin

text \<open>
  Each public operation of the state database as a step, in the order of
  \<^verbatim>\<open>intra_block_state.go\<close>, with what it returns in terms of the view.
\<close>

section \<open>Finding or creating the object\<close>

lemma GetOrNewStateObject_step:
  assumes wf: "wf_state s" and g: "GetOrNewStateObject s a = (so, s')"
  shows "ustep s s' \<and> sdb_stateObjects s' a = Some so"
proof -
  obtain r s1 where g1: "getStateObject s a = (r, s1)" by (meson surj_pair)
  note st = getStateObject_step [OF wf g1]
  then have wf1: "wf_state s1" by (auto intro: ustep_wf)
  have idb: "in_db s1 = in_db s" using st by (intro in_db_source ustep_source) simp
  show ?thesis
  proof (cases r)
    case None
    with g g1 have c: "createObject s1 a None = (so, s')" by (simp add: GetOrNewStateObject_def)
    have "ustep s1 s'" using None st idb by (intro ustep_create_plain [OF wf1 _ _ c]) simp_all
    with st createObject_stores [OF c] show ?thesis by (blast intro: ustep_trans)
  next
    case (Some p)
    show ?thesis
    proof (cases "so_deleted p")
      case False
      with Some g g1 st show ?thesis by (auto simp: GetOrNewStateObject_def)
    next
      case True
      with Some g g1 have c: "createObject s1 a (Some p) = (so, s')" by (simp add: GetOrNewStateObject_def)
      note so = createObject_stores [OF c]
      have "ustep s1 (put_object so s')"
        using st Some so by (intro ustep_reset [OF wf1 _ c]) simp_all
      moreover have "put_object so s' = s'" using so by (intro put_object_same) auto
      ultimately show ?thesis using st so ustep_trans by auto
    qed
  qed
qed

section \<open>Writes of a loaded object\<close>

lemma wf_object_setters [simp]:
  "wf_object a (so_setBalance v so) \<longleftrightarrow> so_address so = a"
  "wf_object a (so_setNonce n so) = wf_object a so"
  "wf_object a (so_setCode h c so) = wf_object a so"
  "wf_object a (so_setState k v so) = wf_object a so"
  by (auto simp: wf_object_def)

lemma so_SetBalance_step:
  assumes "wf_state s" "sdb_stateObjects s a = Some so"
  shows "ustep s (so_SetBalance s so v)"
proof -
  have w: "wf_object a so" by (rule wf_objects_object [OF assms])
  then have a: "so_address so = a" and i: "acc_Initialised (so_data so)" by (auto simp: wf_object_def)
  have d: "(so_data so)\<lparr>acc_Initialised := True\<rparr> = so_data so"
    using i by simp
  show ?thesis
    unfolding so_SetBalance_def a
    by (rule ustep_object [OF assms, where f = "so_setBalance (acc_Balance (so_data so))"])
       (simp_all add: a obj_view_eq d is_fake_change_def)
qed

lemma so_SetNonce_step:
  assumes "wf_state s" "sdb_stateObjects s a = Some so"
  shows "ustep s (so_SetNonce s so v)"
proof -
  have w: "wf_object a so" by (rule wf_objects_object [OF assms])
  then have a: "so_address so = a" by auto
  show ?thesis
    unfolding so_SetNonce_def a
    by (rule ustep_object [OF assms, where f = "so_setNonce (acc_Nonce (so_data so))"])
       (simp_all add: w obj_view_eq is_fake_change_def)
qed

lemma ustep_dirty:
  assumes "wf_state s"
  shows "ustep s (s\<lparr>sdb_journal := jn_dirty (sdb_journal s) a\<rparr>)"
  by (rule ustep_quiet [OF assms]) simp_all

lemma so_touch_step:
  assumes "wf_state s" "sdb_stateObjects s a = Some so"
  shows "ustep s (so_touch s so)"
proof -
  let ?s1 = "journal_append (touchChange (so_address so)) s"
  have r: "restores s ?s1" by (simp add: journal_append_def)
  have u: "ustep s ?s1"
    by (rule ustep_entry [OF assms(1), of _ "touchChange (so_address so)" ?s1])
       (use r assms(1) wf_pending_restores [OF r] in \<open>simp_all add: wf_state_def\<close>)
  show ?thesis
    unfolding so_touch_def Let_def
    using u ustep_trans [OF u ustep_dirty [OF ustep_wf [OF u]]] by (cases "so_address so = 3") (simp_all only: if_True if_False simp_thms)
qed

lemma so_AddBalance_step:
  assumes "wf_state s" "sdb_stateObjects s a = Some so"
  shows "ustep s (so_AddBalance s so v)"
  using so_SetBalance_step [OF assms] so_touch_step [OF assms] ustep_refl [OF assms(1)]
  by (simp add: so_AddBalance_def)

lemma so_SubBalance_step:
  assumes "wf_state s" "sdb_stateObjects s a = Some so"
  shows "ustep s (so_SubBalance s so v)"
  using so_SetBalance_step [OF assms] ustep_refl [OF assms(1)] by (simp add: so_SubBalance_def)

lemma setErrorUnsafe_step:
  assumes "wf_state s"
  shows "ustep s (setErrorUnsafe s e) \<and> view (setErrorUnsafe s e) = view s"
  by (intro conjI ustep_quiet [OF assms]) simp_all

lemma obj_view_code:
  "committed_of src (so\<lparr>so_code := c\<rparr>) = committed_of src so"
  "state_of src (so\<lparr>so_code := c\<rparr>) = state_of src so"
  by (simp_all add: fun_eq_iff committed_of_def state_of_def cong: option.case_cong)

text \<open>Filling a cache of a loaded object.\<close>

lemma ustep_cache:
  assumes wf: "wf_state s" and so: "sdb_stateObjects s a = Some so" and x: "wf_object a x"
    and v: "obj_view (source_of s) x = obj_view (source_of s) so"
  shows "ustep s (put_object x s) \<and> view (put_object x s) = view s"
proof -
  have xa: "so_address x = a" using x by (rule wf_object_address)
  have r: "restores s (put_object x s)"
  proof (rule restoresI)
    fix b show "sdb_stateObjects (put_object x s) b = sdb_stateObjects s b \<or>
        view (put_object x s) b = view s b \<and> loaded (put_object x s) b \<and> (loaded s b \<or> in_db s b)"
      using xa so v by (cases "b = a") (simp_all add: view_loaded)
  qed simp_all
  have "wf_objects (put_object x s)"
    by (rule wf_objects_upd [of s _ a x]) (use wf x xa in \<open>simp_all add: wf_state_def\<close>)
  then have "ustep s (put_object x s)" by (rule ustep_silent [OF wf r]) simp_all
  with r show ?thesis by (simp add: restores_def)
qed

lemma so_Code_step:
  assumes wf: "wf_state s" and so: "sdb_stateObjects s a = Some so" and c: "so_Code s so = (code, s')"
  shows "ustep s s' \<and> view s' = view s \<and> code = code_of (source_of s) so \<and>
     (\<exists>so'. sdb_stateObjects s' a = Some so' \<and> so_data so' = so_data so \<and>
            obj_view (source_of s) so' = obj_view (source_of s) so)"
proof (cases "so_code so = None \<and> acc_CodeHash (so_data so) \<noteq> emptyCodeHashH s")
  case False
  with c so ustep_refl [OF wf] show ?thesis
    by (auto simp: so_Code_def code_of_def source_of_def emptyCodeHashH_def split: option.splits)
next
  case True
  obtain code0 err where rd: "ReadAccountCode (sdb_stateReader s) (so_address so)
      (acc_Incarnation (so_data so)) (acc_CodeHash (so_data so)) = (code0, err)" by (meson surj_pair)
  define s1 where "s1 = (case err of None \<Rightarrow> s
      | Some e \<Rightarrow> setErrorUnsafe s (CantLoadCode (acc_CodeHash (so_data so)) e))"
  have s': "code = code0" "s' = put_object (so\<lparr>so_code := code0\<rparr>) s1"
    using c True rd by (auto simp: so_Code_def s1_def)
  have u1: "ustep s s1" "view s1 = view s"
    unfolding s1_def using setErrorUnsafe_step [OF wf] ustep_refl [OF wf] by (cases err; simp)+
  have so1: "sdb_stateObjects s1 a = Some so" using so by (simp add: s1_def split: option.split)
  have src: "source_of s1 = source_of s" by (rule ustep_source [OF u1(1)])
  have w: "wf_object a (so\<lparr>so_code := code0\<rparr>)"
    using wf_objects_object [OF wf so] by (simp add: wf_object_def)
  have code: "code_of (source_of s) so = code0" and code': "code_of (source_of s) (so\<lparr>so_code := code0\<rparr>) = code0"
    using True rd by (auto simp: code_of_def source_of_def emptyCodeHashH_def split: option.split)
  have v: "obj_view (source_of s) (so\<lparr>so_code := code0\<rparr>) = obj_view (source_of s) so"
    unfolding obj_view_eq code code' by (simp add: obj_view_code)
  have "ustep s1 s' \<and> view s' = view s1"
    unfolding s' by (rule ustep_cache [OF ustep_wf [OF u1(1)] so1 w]) (simp add: src v)
  then show ?thesis
    using u1 ustep_trans v code s' wf_object_address [OF w] by auto
qed


lemma so_SetCode_step:
  assumes wf: "wf_state s" and so: "sdb_stateObjects s a = Some so"
  shows "ustep s (so_SetCode s so h c)"
proof -
  obtain pc s1 where c1: "so_Code s so = (pc, s1)" by (meson surj_pair)
  note cs = so_Code_step [OF wf so c1]
  then obtain so1 where so1: "sdb_stateObjects s1 a = Some so1"
      "obj_view (source_of s) so1 = obj_view (source_of s) so" by blast
  have src: "source_of s1 = source_of s" using cs by (blast intro: ustep_source)
  have wf1: "wf_state s1" using cs by (blast intro: ustep_wf)
  have w1: "wf_object a so1" by (rule wf_objects_object [OF wf1 so1(1)])
  have a: "so_address so = a" "so_address so1 = a"
    using wf_objects_address [OF wf so] wf_object_address [OF w1] by simp_all
  have rl: "reload s1 so = so1" using so1 a by (simp add: reload_def)
  have pc: "pc = code_of (source_of s1) so1" using cs so1(2) src by (simp add: obj_view_eq)
  have "code_of (source_of s1) (so_setCode (acc_CodeHash (so_data so1)) pc (so_setCode h c so1)) =
        code_of (source_of s1) so1"
    unfolding pc by (simp add: code_of_def split: option.split)
  then have "ustep s1 (put_object (so_setCode h c so1)
      (journal_append (codeChange a pc (acc_CodeHash (so_data so1))) s1))"
    by (intro ustep_object [OF wf1 so1(1), where f = "so_setCode (acc_CodeHash (so_data so1)) pc"])
       (simp_all add: w1 obj_view_eq is_fake_change_def)
  then show ?thesis
    using cs ustep_trans by (auto simp: so_SetCode_def c1 rl a)
qed

text \<open>Reading a slot returns the view's value and at most fills the cache.\<close>

definition cache_slot :: "hash \<Rightarrow> u256 \<Rightarrow> stateObject \<Rightarrow> stateObject" where
  "cache_slot key v so = so\<lparr>so_originStorage := (so_originStorage so)(key \<mapsto> v),
                            so_blockOriginStorage := (so_blockOriginStorage so)(key \<mapsto> v)\<rparr>"

lemma cache_slot_view:
  assumes "so_fakeStorage so = None" "so_originStorage so key = None" "\<not> so_created so"
    "v = slot_value src (so_address so) (acc_Incarnation (so_data so)) key"
  shows "obj_view src (cache_slot key v so) = obj_view src so"
proof -
  have "committed_of src (cache_slot key v so) k = committed_of src so k" for k
    using assms by (simp add: committed_of_def cache_slot_def split: option.split)
  moreover have "state_of src (cache_slot key v so) k = state_of src so k" for k
    unfolding state_of_def calculation by (simp add: cache_slot_def cong: option.case_cong)
  ultimately show ?thesis unfolding obj_view_eq by (simp add: cache_slot_def code_of_def cong: option.case_cong)
qed

definition note_slot :: "IntraBlockState \<Rightarrow> stateObject \<Rightarrow> hash \<Rightarrow> byte list option \<Rightarrow> IntraBlockState" where
  "note_slot s so key r =
     (case (sdb_snap s, r) of
        (Some sn, Some enc) \<Rightarrow>
          if CanWrite sn
          then s\<lparr>sdb_snap := Some (sn_AddStorage sn (so_address so) key (acc_Incarnation (so_data so)) enc)\<rparr>
          else s
      | _ \<Rightarrow> s)"

lemma so_GetCommittedState_load:
  assumes "so_fakeStorage so = None" "so_originStorage so key = None" "\<not> so_created so"
  shows "so_GetCommittedState s so key =
    (case slot_result (source_of s) (so_address so) (acc_Incarnation (so_data so)) key of
       None \<Rightarrow> None
     | Some (r, Some err) \<Rightarrow> Some (0, setErrorUnsafe s err)
     | Some (r, None) \<Rightarrow>
         (let v = slot_value (source_of s) (so_address so) (acc_Incarnation (so_data so)) key
          in Some (v, put_object (cache_slot key v so) (note_slot s so key r))))"
proof (cases "sdb_snap s")
  case None
  then show ?thesis using assms
    by (simp add: so_GetCommittedState_def slot_value_def source_of_def Let_def cache_slot_def
        note_slot_def split: option.split prod.split)
next
  case (Some sn)
  then show ?thesis using assms
    by (cases "CanWrite sn")
       (simp_all add: so_GetCommittedState_def slot_value_def source_of_def Let_def cache_slot_def
        note_slot_def split: option.split prod.split)
qed

lemma note_slot_fields [simp]:
  "source_of (note_slot s so key r) = source_of s"
  "sdb_stateObjects (note_slot s so key r) = sdb_stateObjects s"
  "sdb_balanceInc (note_slot s so key r) = sdb_balanceInc s"
  "sdb_nilAccounts (note_slot s so key r) = sdb_nilAccounts s"
  "sdb_refund (note_slot s so key r) = sdb_refund s"
  "sdb_logs (note_slot s so key r) = sdb_logs s"
  "sdb_logSize (note_slot s so key r) = sdb_logSize s"
  "sdb_accessList (note_slot s so key r) = sdb_accessList s"
  "sdb_thash (note_slot s so key r) = sdb_thash s"
  "sdb_bhash (note_slot s so key r) = sdb_bhash s"
  "sdb_txIndex (note_slot s so key r) = sdb_txIndex s"
  "sdb_journal (note_slot s so key r) = sdb_journal s"
  "sdb_validRevisions (note_slot s so key r) = sdb_validRevisions s"
  "sdb_nextRevisionID (note_slot s so key r) = sdb_nextRevisionID s"
  by (cases "sdb_snap s"; cases r; simp add: note_slot_def source_of_def)+

lemma note_slot_step:
  assumes "wf_state s"
  shows "ustep s (note_slot s so key r) \<and> view (note_slot s so key r) = view s"
  by (intro conjI ustep_quiet [OF assms]) simp_all

lemma so_GetCommittedState_step:
  assumes wf: "wf_state s" and so: "sdb_stateObjects s a = Some so"
    and g: "so_GetCommittedState s so key = Some (v, s')"
  shows "ustep s s' \<and> view s' = view s \<and> v = committed_of (source_of s) so key \<and>
    (\<exists>so'. sdb_stateObjects s' a = Some so' \<and> obj_view (source_of s) so' = obj_view (source_of s) so)"
proof (cases "so_fakeStorage so = None \<and> so_originStorage so key = None \<and> \<not> so_created so")
  case False
  then have "s' = s" "v = committed_of (source_of s) so key"
    using g by (auto simp: so_GetCommittedState_def committed_of_def split: option.splits)
  then show ?thesis using ustep_refl [OF wf] so by simp
next
  case load: True
  define sv where "sv = slot_value (source_of s) (so_address so) (acc_Incarnation (so_data so)) key"
  have c: "committed_of (source_of s) so key = sv" using load by (simp add: committed_of_def sv_def)
  obtain r e where r: "slot_result (source_of s) (so_address so) (acc_Incarnation (so_data so)) key = Some (r, e)"
    using g load by (auto simp: so_GetCommittedState_load split: option.splits)
  show ?thesis
  proof (cases e)
    case (Some err)
    then have "s' = setErrorUnsafe s err" "v = sv"
      using g load r by (simp_all add: so_GetCommittedState_load sv_def slot_value_def split: option.splits)
    then show ?thesis using setErrorUnsafe_step [OF wf] so c by simp
  next
    case None
    let ?s1 = "note_slot s so key r" and ?x = "cache_slot key sv so"
    have s': "v = sv" "s' = put_object ?x ?s1"
      using g load r None by (auto simp: so_GetCommittedState_load sv_def Let_def)
    have u1: "ustep s ?s1" "view ?s1 = view s" using note_slot_step [OF wf] by blast+
    have so1: "sdb_stateObjects ?s1 a = Some so"
      using so by (simp add: note_slot_def split: option.split)
    have w: "wf_object a ?x" using wf_objects_object [OF wf so] by (simp add: wf_object_def cache_slot_def)
    have ov: "obj_view (source_of s) ?x = obj_view (source_of s) so"
      using load sv_def by (intro cache_slot_view) simp_all
    have "ustep ?s1 s' \<and> view s' = view ?s1"
      unfolding s' by (rule ustep_cache [OF ustep_wf [OF u1(1)] so1 w]) (simp add: ustep_source [OF u1(1)] ov)
    then show ?thesis using u1 ustep_trans s' c ov wf_object_address [OF w] by auto
  qed
qed

lemma so_GetState_step:
  assumes wf: "wf_state s" and so: "sdb_stateObjects s a = Some so"
    and g: "so_GetState s so key = Some (v, s')"
  shows "ustep s s' \<and> view s' = view s \<and> v = state_of (source_of s) so key \<and>
    (\<exists>so'. sdb_stateObjects s' a = Some so' \<and> obj_view (source_of s) so' = obj_view (source_of s) so)"
proof (cases "so_fakeStorage so = None \<and> so_dirtyStorage so key = None")
  case True
  then have "so_GetCommittedState s so key = Some (v, s')" using g by (simp add: so_GetState_def)
  from so_GetCommittedState_step [OF wf so this] True show ?thesis by (simp add: state_of_def)
next
  case False
  then have "s' = s" "v = state_of (source_of s) so key"
    using g by (auto simp: so_GetState_def state_of_def split: option.splits)
  then show ?thesis using ustep_refl [OF wf] so by simp
qed

text \<open>Writing a slot.\<close>

lemma state_of_reset:
  assumes "so_fakeStorage so = None"
  shows "state_of src (so_setState key (state_of src so key) (so_setState key v so)) = state_of src so"
  using assms by (simp add: fun_eq_iff)

lemma so_SetState_step:
  assumes wf: "wf_state s" and so: "sdb_stateObjects s a = Some so"
    and g: "so_SetState s so key v = Some s'"
  shows "ustep s s'"
proof (cases "so_fakeStorage so")
  case (Some fake)
  have w: "wf_object a so" by (rule wf_objects_object [OF wf so])
  let ?p = "case fake key of None \<Rightarrow> 0 | Some p \<Rightarrow> p" and ?x = "so\<lparr>so_fakeStorage := Some (fake(key \<mapsto> v))\<rparr>"
  have s': "s' = put_object ?x (journal_append (fakeStorageChange a key ?p) s)"
    using g Some wf_object_address [OF w] by (simp add: so_SetState_def)
  have "wf_object a ?x" using w by (simp add: wf_object_def)
  then show ?thesis unfolding s'
    by (intro ustep_object [OF wf so, where f = "set_fake key ?p"])
       (auto simp: obj_view_eq set_fake_def Some committed_of_def state_of_def code_of_def fun_eq_iff
             cong: option.case_cong split: option.split)
next
  case None
  obtain prev s1 where gs: "so_GetState s so key = Some (prev, s1)"
      "s' = (if prev = v then s1 else put_object (so_setState key v (reload s1 so))
               (journal_append (storageChange (so_address so) key prev) s1))"
    using g None by (auto simp: so_SetState_def split: option.splits if_splits)
  obtain so1 where so1: "ustep s s1" "prev = state_of (source_of s) so key" "sdb_stateObjects s1 a = Some so1"
      "obj_view (source_of s) so1 = obj_view (source_of s) so"
    using so_GetState_step [OF wf so gs(1)] by blast
  have wf1: "wf_state s1" and src: "source_of s1 = source_of s"
    using ustep_wf [OF so1(1)] ustep_source [OF so1(1)] by simp_all
  have w1: "wf_object a so1" by (rule wf_objects_object [OF wf1 so1(3)])
  have a: "so_address so = a" "so_address so1 = a"
    using wf_objects_address [OF wf so] wf_object_address [OF w1] by simp_all
  have prev: "prev = state_of (source_of s1) so1 key" "so_fakeStorage so1 = None"
    using so1(2,4) None src by (simp_all add: obj_view_eq)
  have "ustep s1 (put_object (so_setState key v so1) (journal_append (storageChange a key prev) s1))"
    using prev(2) by (intro ustep_object [OF wf1 so1(3), where f = "so_setState key prev"])
      (simp_all add: w1 is_fake_change_def obj_view_eq prev(1) state_of_reset
         committed_of_def code_of_def fun_eq_iff cong: option.case_cong)
  then show ?thesis using gs(2) so1(1,3) ustep_trans a by (auto simp: reload_def)
qed

end
