(* ===== verification/State_Run.thy ===== *)
theory State_Run
  imports State_Ops
begin

text \<open>
  The operations of the state database as undoable steps, one lemma per operation, and sequences
  of them: \<open>run_ops\<close> executes any sequence of operations, nested snapshots and reverts included,
  and reverting to a snapshot that is still valid brings back what was observable when it was taken.
\<close>

section \<open>Writes through the state database\<close>

lemma SubBalance_step: "wf_state s \<Longrightarrow> ustep s (SubBalance s a v)"
  by (auto simp: SubBalance_def split: prod.split
      dest!: GetOrNewStateObject_step intro: ustep_trans so_SubBalance_step ustep_wf)

lemma SetBalance_step: "wf_state s \<Longrightarrow> ustep s (SetBalance s a v)"
  by (auto simp: SetBalance_def split: prod.split
      dest!: GetOrNewStateObject_step intro: ustep_trans so_SetBalance_step ustep_wf)

lemma SetNonce_step: "wf_state s \<Longrightarrow> ustep s (SetNonce s a v)"
  by (auto simp: SetNonce_def split: prod.split
      dest!: GetOrNewStateObject_step intro: ustep_trans so_SetNonce_step ustep_wf)

lemma SetCode_step: "wf_state s \<Longrightarrow> ustep s (SetCode s a c)"
  by (auto simp: SetCode_def split: prod.split
      dest!: GetOrNewStateObject_step intro: ustep_trans so_SetCode_step ustep_wf)

lemma SetState_step: "wf_state s \<Longrightarrow> SetState s a k v = Some s' \<Longrightarrow> ustep s s'"
  by (auto simp: SetState_def split: prod.splits
      dest!: GetOrNewStateObject_step intro: ustep_trans so_SetState_step ustep_wf)

text \<open>Adding to an account that is neither loaded nor in the database waits in \<open>balanceInc\<close>.\<close>

lemma AddBalance_step:
  assumes wf: "wf_state s" and ok: "loaded s a \<or> \<not> in_db s a"
  shows "ustep s (AddBalance s a v)"
proof (cases "loaded s a \<or> (a = 3 \<and> v = 0)")
  case True
  then show ?thesis using wf
    by (auto simp: AddBalance_def split: prod.split
        dest!: GetOrNewStateObject_step intro: ustep_trans so_AddBalance_step ustep_wf)
next
  case False
  define bi where "bi = (case sdb_balanceInc s a of Some bi \<Rightarrow> bi
    | None \<Rightarrow> \<lparr>bi_increase = 0, bi_transferred = False, bi_count = 0\<rparr>)"
  define s' where "s' = (journal_append (balanceIncrease a v) s)\<lparr>sdb_balanceInc := (sdb_balanceInc s)
    (a \<mapsto> bi\<lparr>bi_increase := bi_increase bi + v, bi_count := bi_count bi + 1\<rparr>)\<rparr>"
  have eq: "AddBalance s a v = s'"
    using False by (simp add: AddBalance_def bi_def s'_def Let_def)
  have idb: "in_db s' = in_db s" by (rule in_db_source) (simp add: s'_def)
  have cnt: "0 \<le> bi_count bi" "bi_count bi = 0 \<longleftrightarrow> sdb_balanceInc s a = None"
    using wf by (force simp: bi_def wf_state_def wf_pending_def split: option.splits)+
  obtain t where t: "revert_entry (balanceIncrease a v) s' = Some t"
      "t = s'\<lparr>sdb_balanceInc := sdb_balanceInc s\<rparr>"
    using cnt(2) by (auto simp: s'_def bi_def fun_upd_idem Let_def split: option.splits)
  have "restores s t"
    unfolding t(2) by (rule restoresI) (simp_all add: s'_def)
  moreover have "wf_pending s'"
    using wf False ok cnt unfolding wf_state_def wf_pending_def idb
    by (auto simp: s'_def pending_def)
  ultimately show ?thesis
    unfolding eq using t(1) False ok idb
    by (intro ustep_entry [OF wf, where e = "balanceIncrease a v" and t = t]) (simp_all add: s'_def)
qed

lemma CreateAccount_step:
  assumes wf: "wf_state s" shows "ustep s (CreateAccount s a cc)"
proof -
  obtain prev s1 where g: "getStateObject s a = (prev, s1)" by (meson surj_pair)
  note gs = getStateObject_step [OF wf g]
  then have wf1: "wf_state s1" and u1: "ustep s s1" by (auto intro: ustep_wf)
  obtain new s2 where c: "createObject s1 a prev = (new, s2)" by (meson surj_pair)
  have w: "wf_object a new" using createObject_stores [OF c] by simp
  have "\<exists>x. CreateAccount s a cc = put_object x s2 \<and> wf_object a x"
    unfolding CreateAccount_def g Let_def prod.case c
    by (intro exI conjI, rule refl) (use w in \<open>simp add: wf_object_def split: option.split\<close>)
  then obtain x where x: "CreateAccount s a cc = put_object x s2" "wf_object a x" by blast
  have "ustep s1 (put_object x s2)"
  proof (cases prev)
    case None
    then have "\<not> in_db s1 a" "sdb_stateObjects s1 a = None"
      using gs in_db_source [OF ustep_source [OF u1]] by simp_all
    then show ?thesis using ustep_create [OF wf1 _ _ _ x(2)] c None by blast
  next
    case (Some p)
    then show ?thesis using ustep_reset [OF wf1 _ _ x(2)] c gs by blast
  qed
  then show ?thesis unfolding x(1) by (rule ustep_trans [OF u1])
qed

text \<open>
  Self-destructing is undone exactly only when the object was not created in this transaction:
  \<^verbatim>\<open>selfdestructChange.revert\<close> does not bring back the \<open>created\<close> flag.
\<close>

definition not_created :: "IntraBlockState \<Rightarrow> address \<Rightarrow> bool" where
  "not_created s a \<longleftrightarrow> (case view s a of None \<Rightarrow> True | Some v \<Rightarrow> ov_deleted v \<or> \<not> ov_created v)"

lemma Selfdestruct_step:
  assumes wf: "wf_state s" and nc: "not_created s a"
  shows "ustep s (snd (Selfdestruct s a))"
proof -
  obtain r s1 where g: "getStateObject s a = (r, s1)" by (meson surj_pair)
  note gs = getStateObject_step [OF wf g]
  then have wf1: "wf_state s1" and u1: "ustep s s1" by (auto intro: ustep_wf)
  show ?thesis
  proof (cases "\<exists>so. r = Some so \<and> \<not> so_deleted so")
    case False
    then have "snd (Selfdestruct s a) = s1" by (auto simp: Selfdestruct_def g split: option.split)
    with u1 show ?thesis by simp
  next
    case True
    then obtain so where so: "r = Some so" "\<not> so_deleted so" by blast
    then have l: "sdb_stateObjects s1 a = Some so" using gs by simp
    have w: "wf_object a so" by (rule wf_objects_object [OF wf1 l])
    have v: "view s a = Some (obj_view (source_of s1) so)" using gs view_loaded [OF l] by simp
    then have nc': "\<not> so_created so" using nc so(2) by (simp add: not_created_def obj_view_def)
    let ?x = "so\<lparr>so_selfdestructed := True, so_created := False, so_data := (so_data so)\<lparr>acc_Balance := 0\<rparr>\<rparr>"
    let ?b = "acc_Balance (so_data so)" and ?d = "so_selfdestructed so"
    have "so_setBalance ?b (?x\<lparr>so_selfdestructed := ?d\<rparr>) = so"
      using nc' w by (simp add: so_setBalance_def wf_object_def)
    then have "ustep s1 (put_object ?x (journal_append (selfdestructChange a ?d ?b) s1))"
      using w by (intro ustep_object [OF wf1 l,
          where f = "\<lambda>y. so_setBalance ?b (y\<lparr>so_selfdestructed := ?d\<rparr>)"])
         (simp_all add: wf_object_def is_fake_change_def)
    moreover have "snd (Selfdestruct s a) = put_object ?x (journal_append (selfdestructChange a ?d ?b) s1)"
      using so by (simp add: Selfdestruct_def g)
    ultimately show ?thesis using ustep_trans [OF u1] by simp
  qed
qed

lemma Suicide_Selfdestruct: "Suicide s a = Selfdestruct s a"
  by (simp add: Suicide_def Selfdestruct_def)

section \<open>Logs, refunds and the access list\<close>

lemma ustep_AddLog:
  assumes wf: "wf_state s" shows "ustep s (AddLog s l)"
proof (rule ustep_entry [OF wf, where e = "addLogChange (sdb_thash s)"])
  let ?h = "sdb_thash s"
  have ne: "sdb_logs s ?h \<noteq> Some []" using wf by (simp add: wf_state_def wf_pending_def)
  then have upd: "(sdb_logs s)(?h := None) = sdb_logs s \<or> GetLogs s ?h \<noteq> []"
    by (cases "sdb_logs s ?h") (auto simp: GetLogs_def fun_upd_idem)
  show "revert_entry (addLogChange ?h) (AddLog s l) =
        Some ((AddLog s l)\<lparr>sdb_logs := sdb_logs s, sdb_logSize := sdb_logSize s\<rparr>)"
    using ne by (cases "sdb_logs s ?h")
      (auto simp: AddLog_def Let_def GetLogs_def fun_upd_idem)
  show "restores s ((AddLog s l)\<lparr>sdb_logs := sdb_logs s, sdb_logSize := sdb_logSize s\<rparr>)"
    by (rule restoresI) (simp_all add: AddLog_def Let_def)
  have "in_db (AddLog s l) = in_db s" by (rule in_db_source) (simp add: AddLog_def Let_def)
  then show "wf_pending (AddLog s l)"
    using wf by (auto simp: wf_state_def wf_pending_def AddLog_def Let_def pending_def)
qed (simp_all add: AddLog_def Let_def)

lemma ustep_refund:
  assumes wf: "wf_state s"
    and t: "t = (journal_append (refundChange (sdb_refund s)) s)\<lparr>sdb_savedErr := e, sdb_refund := v\<rparr>"
  shows "ustep s t"
proof (rule ustep_entry [OF wf, where e = "refundChange (sdb_refund s)"])
  show "revert_entry (refundChange (sdb_refund s)) t = Some (t\<lparr>sdb_refund := sdb_refund s\<rparr>)" by simp
  show "restores s (t\<lparr>sdb_refund := sdb_refund s\<rparr>)" unfolding t by (rule restoresI) simp_all
  have "in_db t = in_db s" by (rule in_db_source) (simp add: t)
  then show "wf_pending t"
    using wf by (auto simp: wf_state_def wf_pending_def t pending_def)
qed (simp_all add: t)

lemma AddRefund_step: "wf_state s \<Longrightarrow> ustep s (AddRefund s g)"
  by (rule ustep_refund [where e = "sdb_savedErr s" and v = "sdb_refund s + g"])
     (simp_all add: AddRefund_def Let_def journal_append_def)

lemma SubRefund_step: "wf_state s \<Longrightarrow> ustep s (SubRefund s g)"
  by (rule ustep_refund [where e = "sdb_savedErr (SubRefund s g)" and v = "sdb_refund s - g"])
     (simp_all add: SubRefund_def Let_def journal_append_def setErrorUnsafe_def split: option.split)

lemma ustep_access:
  assumes wf: "wf_state s" and al: "al_wf al"
    and t: "t = (journal_append e s)\<lparr>sdb_accessList := al\<rparr>"
    and e: "revert_entry e t = Some (t\<lparr>sdb_accessList := sdb_accessList s\<rparr>)"
      "\<And>b p. e \<noteq> resetObjectChange b p" "entry_ok e t"
  shows "ustep s t"
proof (rule ustep_entry [OF wf, where e = e])
  show "restores s (t\<lparr>sdb_accessList := sdb_accessList s\<rparr>)" unfolding t by (rule restoresI) simp_all
  have "in_db t = in_db s" by (rule in_db_source) (simp add: t)
  then show "wf_pending t"
    using wf al by (auto simp: wf_state_def wf_pending_def t pending_def)
qed (use e in \<open>simp_all add: t\<close>)

lemma AddAddressToAccessList_step:
  assumes wf: "wf_state s" shows "ustep s (AddAddressToAccessList s a)"
proof -
  obtain c al where c: "AddAddress (sdb_accessList s) a = (c, al)" by (meson surj_pair)
  show ?thesis
  proof (cases c)
    case False
    then have "al = sdb_accessList s" using c by (auto simp: AddAddress_def split: option.splits)
    then show ?thesis using False c ustep_refl [OF wf] by (simp add: AddAddressToAccessList_def)
  next
    case True
    then have t: "AddAddressToAccessList s a =
        (journal_append (accessListAddAccountChange a) s)\<lparr>sdb_accessList := al\<rparr>"
      using c by (simp add: AddAddressToAccessList_def journal_append_def)
    have "al_wf (sdb_accessList s)" using wf by (simp add: wf_state_def wf_pending_def)
    then have "al_wf al" using c by (rule al_wf_AddAddress)
    then show ?thesis
      by (rule ustep_access [OF wf _ t]) (use DeleteAddress_AddAddress c True in \<open>auto simp: t\<close>)
  qed
qed

lemma AddSlot_after_AddAddress:
  "AddSlot al a slot = Some (True, sc, al') \<Longrightarrow>
     AddAddress al a = (True, al\<lparr>al_addresses := (al_addresses al)(a \<mapsto> -1)\<rparr>) \<and>
     AddSlot (al\<lparr>al_addresses := (al_addresses al)(a \<mapsto> -1)\<rparr>) a slot = Some (False, True, al')"
  by (auto simp: AddSlot_def AddAddress_def Let_def split: if_splits option.splits)

lemma AddSlotToAccessList_known:
  assumes wf: "wf_state s" and a: "AddSlot (sdb_accessList s) a slot = Some (False, sc, al)"
  shows "ustep s (if sc then journal_append (accessListAddSlotChange a slot) (s\<lparr>sdb_accessList := al\<rparr>)
                  else s\<lparr>sdb_accessList := al\<rparr>)"
proof (cases sc)
  case False
  then have "al = sdb_accessList s" using AddSlot_unchanged [of _ a slot False al] a by simp
  then show ?thesis using False ustep_refl [OF wf] by simp
next
  case True
  let ?t = "(journal_append (accessListAddSlotChange a slot) s)\<lparr>sdb_accessList := al\<rparr>"
  have w: "al_wf (sdb_accessList s)" using wf by (simp add: wf_state_def wf_pending_def)
  have "al_wf al" by (rule al_wf_AddSlot [OF w a])
  moreover have "DeleteSlot al a slot = Some (sdb_accessList s)"
    using DeleteSlot_AddSlot [OF w, of a slot False al] a True by simp
  ultimately have "ustep s ?t" by (intro ustep_access [OF wf _ refl]) simp_all
  moreover have "journal_append (accessListAddSlotChange a slot) (s\<lparr>sdb_accessList := al\<rparr>) = ?t"
    by (simp add: journal_append_def)
  ultimately show ?thesis using True by simp
qed

lemma AddSlotToAccessList_step:
  assumes wf: "wf_state s" and a: "AddSlotToAccessList s a slot = Some s'"
  shows "ustep s s'"
proof -
  obtain ac sc al where al: "AddSlot (sdb_accessList s) a slot = Some (ac, sc, al)"
    using a by (auto simp: AddSlotToAccessList_def split: option.splits)
  show ?thesis
  proof (cases ac)
    case False
    with al AddSlotToAccessList_known [OF wf, of a slot sc al] a show ?thesis
      by (auto simp: AddSlotToAccessList_def Let_def)
  next
    case True
    let ?s1 = "AddAddressToAccessList s a"
    have al': "AddSlot (sdb_accessList s) a slot = Some (True, sc, al)" using al True by simp
    note aa = AddSlot_after_AddAddress [OF al']
    have u1: "ustep s ?s1" by (rule AddAddressToAccessList_step [OF wf])
    have sc using AddSlot_new_address [OF al'] by simp
    have "AddSlot (sdb_accessList ?s1) a slot = Some (False, True, al)"
      using aa by (simp add: AddAddressToAccessList_def)
    from AddSlotToAccessList_known [OF ustep_wf [OF u1] this]
    have "ustep ?s1 s'" using a al aa \<open>sc\<close> True
      by (simp add: AddSlotToAccessList_def AddAddressToAccessList_def journal_append_def)
    then show ?thesis by (rule ustep_trans [OF u1])
  qed
qed

lemma add_slots_step: "wf_state s \<Longrightarrow> add_slots s a ks = Some s' \<Longrightarrow> ustep s s'"
proof (induction ks arbitrary: s)
  case (Cons k ks)
  then obtain s1 where s1: "AddSlotToAccessList s a k = Some s1" "add_slots s1 a ks = Some s'"
    by (auto split: option.splits)
  have u: "ustep s s1" by (rule AddSlotToAccessList_step [OF Cons.prems(1) s1(1)])
  show ?case by (rule ustep_trans [OF u Cons.IH [OF ustep_wf [OF u] s1(2)]])
qed (simp add: ustep_refl)

lemma add_access_list_step: "wf_state s \<Longrightarrow> add_access_list s l = Some s' \<Longrightarrow> ustep s s'"
proof (induction s l rule: add_access_list.induct)
  case (2 s a ks els)
  let ?s1 = "AddAddressToAccessList s a"
  obtain s2 where s2: "add_slots ?s1 a ks = Some s2" "add_access_list s2 els = Some s'"
    using 2 by (auto split: option.splits)
  have u1: "ustep s ?s1" by (rule AddAddressToAccessList_step [OF 2(2)])
  have u2: "ustep ?s1 s2" by (rule add_slots_step [OF ustep_wf [OF u1] s2(1)])
  have "ustep s2 s'" by (rule 2(1) [OF s2(1) ustep_wf [OF u2] s2(2)])
  then show ?case using u1 u2 ustep_trans by blast
qed (simp add: ustep_refl)

lemma add_addresses_step: "wf_state s \<Longrightarrow> ustep s (foldl AddAddressToAccessList s as)"
proof (induction as arbitrary: s)
  case (Cons a as)
  have u: "ustep s (AddAddressToAccessList s a)" by (rule AddAddressToAccessList_step [OF Cons.prems])
  then show ?case using Cons.IH [OF ustep_wf [OF u]] ustep_trans by auto
qed (simp add: ustep_refl)

lemma PrepareAccessList_step:
  assumes wf: "wf_state s" and p: "PrepareAccessList s sender dst pre l = Some s'"
  shows "ustep s s'"
proof -
  let ?as = "sender # (case dst of None \<Rightarrow> [] | Some d \<Rightarrow> [d]) @ pre"
  have "add_access_list (foldl AddAddressToAccessList s ?as) l = Some s'"
    using p by (cases dst) (simp_all add: PrepareAccessList_def Let_def)
  moreover have u: "ustep s (foldl AddAddressToAccessList s ?as)" by (rule add_addresses_step [OF wf])
  ultimately show ?thesis using add_access_list_step ustep_trans ustep_wf by blast
qed

end
