(* ===== verification/State_Journal.thy ===== *)
theory State_Journal
  imports State_Run
begin

text \<open>
  Any sequence of operations on the state database, nested snapshots and reverts included
  (\<open>run_ops\<close>), and the theorem the journal exists for: reverting to a snapshot that is still
  valid does not panic and brings back what was observable when the snapshot was taken.
\<close>

section \<open>Sequences of operations\<close>

datatype op =
    OpCreateAccount address bool
  | OpAddBalance address u256
  | OpSubBalance address u256
  | OpSetBalance address u256
  | OpSetNonce address u64
  | OpSetCode address "byte list option"
  | OpSetState address hash u256
  | OpSuicide address
  | OpSelfdestruct address
  | OpAddLog Log
  | OpAddRefund u64
  | OpSubRefund u64
  | OpAddAddress address
  | OpAddSlot address hash
  | OpPrepareAccessList address "address option" "address list" "(address \<times> hash list) list"
  | OpGetBalance address
  | OpGetNonce address
  | OpGetCode address
  | OpGetCodeSize address
  | OpGetCodeHash address
  | OpGetState address hash
  | OpGetCommittedState address hash
  | OpExist address
  | OpEmpty address
  | OpSnapshot
  | OpRevert nat

fun exec_op :: "op \<Rightarrow> IntraBlockState \<Rightarrow> IntraBlockState option" where
  "exec_op (OpCreateAccount a c) s = Some (CreateAccount s a c)"
| "exec_op (OpAddBalance a v) s = Some (AddBalance s a v)"
| "exec_op (OpSubBalance a v) s = Some (SubBalance s a v)"
| "exec_op (OpSetBalance a v) s = Some (SetBalance s a v)"
| "exec_op (OpSetNonce a n) s = Some (SetNonce s a n)"
| "exec_op (OpSetCode a c) s = Some (SetCode s a c)"
| "exec_op (OpSetState a k v) s = SetState s a k v"
| "exec_op (OpSuicide a) s = Some (snd (Suicide s a))"
| "exec_op (OpSelfdestruct a) s = Some (snd (Selfdestruct s a))"
| "exec_op (OpAddLog l) s = Some (AddLog s l)"
| "exec_op (OpAddRefund g) s = Some (AddRefund s g)"
| "exec_op (OpSubRefund g) s = Some (SubRefund s g)"
| "exec_op (OpAddAddress a) s = Some (AddAddressToAccessList s a)"
| "exec_op (OpAddSlot a k) s = AddSlotToAccessList s a k"
| "exec_op (OpPrepareAccessList a d p l) s = PrepareAccessList s a d p l"
| "exec_op (OpGetBalance a) s = Some (snd (GetBalance s a))"
| "exec_op (OpGetNonce a) s = Some (snd (GetNonce s a))"
| "exec_op (OpGetCode a) s = Some (snd (GetCode s a))"
| "exec_op (OpGetCodeSize a) s = Some (snd (GetCodeSize s a))"
| "exec_op (OpGetCodeHash a) s = Some (snd (GetCodeHash s a))"
| "exec_op (OpGetState a k) s = map_option snd (GetState s a k)"
| "exec_op (OpGetCommittedState a k) s = map_option snd (GetCommittedState s a k)"
| "exec_op (OpExist a) s = Some (snd (Exist s a))"
| "exec_op (OpEmpty a) s = Some (snd (Empty s a))"
| "exec_op OpSnapshot s = Some (snd (Snapshot_take s))"
| "exec_op (OpRevert i) s = RevertToSnapshot s i"

text \<open>
  The two uses the journal does not undo exactly: crediting an account that is in the database
  but not loaded, and self-destructing an account created in the same transaction.
\<close>

fun op_ok :: "op \<Rightarrow> IntraBlockState \<Rightarrow> bool" where
  "op_ok (OpAddBalance a v) s = (loaded s a \<or> \<not> in_db s a)"
| "op_ok (OpSuicide a) s = not_created s a"
| "op_ok (OpSelfdestruct a) s = not_created s a"
| "op_ok _ s = True"

fun run_ops :: "op list \<Rightarrow> IntraBlockState \<Rightarrow> IntraBlockState option" where
  "run_ops [] s = Some s"
| "run_ops (x # xs) s = (case exec_op x s of None \<Rightarrow> None | Some s' \<Rightarrow> run_ops xs s')"

fun ops_ok :: "op list \<Rightarrow> IntraBlockState \<Rightarrow> bool" where
  "ops_ok [] s = True"
| "ops_ok (x # xs) s = (op_ok x s \<and> (case exec_op x s of None \<Rightarrow> True | Some s' \<Rightarrow> ops_ok xs s'))"

section \<open>Reads\<close>

lemma getStateObject_ustep: "wf_state s \<Longrightarrow> getStateObject s a = (r, s') \<Longrightarrow> ustep s s'"
  using getStateObject_step by blast

lemma read_steps:
  assumes "wf_state s"
  shows "ustep s (snd (GetBalance s a))" "ustep s (snd (GetNonce s a))" "ustep s (snd (GetCodeHash s a))"
    "ustep s (snd (Exist s a))" "ustep s (snd (Empty s a))"
  using getStateObject_ustep [OF assms, of a]
  by (auto simp: GetBalance_def GetNonce_def GetCodeHash_def Exist_def Empty_def
      split: prod.split option.split)

lemma GetCode_step:
  assumes "wf_state s" shows "ustep s (snd (GetCode s a))"
proof -
  obtain r s1 where g: "getStateObject s a = (r, s1)" by (meson surj_pair)
  have u: "ustep s s1" "sdb_stateObjects s1 a = r" using getStateObject_step [OF assms g] by blast+
  show ?thesis
  proof (cases r)
    case (Some so)
    then have l: "sdb_stateObjects s1 a = Some so" using u by simp
    have "ustep s1 (snd (so_Code s1 so))"
      using so_Code_step [OF ustep_wf [OF u(1)] l] by (cases "so_Code s1 so") auto
    then show ?thesis using Some u(1) ustep_trans by (auto simp: GetCode_def g)
  qed (use u in \<open>simp add: GetCode_def g\<close>)
qed

lemma GetCodeSize_step:
  assumes "wf_state s" shows "ustep s (snd (GetCodeSize s a))"
proof -
  obtain r s1 where g: "getStateObject s a = (r, s1)" by (meson surj_pair)
  have u: "ustep s s1" using getStateObject_step [OF assms g] by blast
  have "ustep s (setErrorUnsafe s1 e)" for e
    using setErrorUnsafe_step [OF ustep_wf [OF u]] ustep_trans [OF u] by blast
  then show ?thesis using u by (auto simp: GetCodeSize_def g split: option.split prod.split)
qed

lemma GetState_step:
  assumes wf: "wf_state s" and g: "GetState s a k = Some (v, s')"
  shows "ustep s s'"
proof -
  obtain r s1 where gs: "getStateObject s a = (r, s1)" by (meson surj_pair)
  have u: "ustep s s1" "sdb_stateObjects s1 a = r" using getStateObject_step [OF wf gs] by blast+
  show ?thesis
  proof (cases "\<exists>so. r = Some so \<and> \<not> so_deleted so")
    case True
    then obtain so where so: "sdb_stateObjects s1 a = Some so" "so_GetState s1 so k = Some (v, s')"
      using g u by (auto simp: GetState_def gs)
    then show ?thesis using so_GetState_step [OF ustep_wf [OF u(1)] so] ustep_trans [OF u(1)] by blast
  next
    case False
    then have "s' = s1" using g by (auto simp: GetState_def gs split: option.splits)
    then show ?thesis using u by simp
  qed
qed

lemma GetCommittedState_step:
  assumes wf: "wf_state s" and g: "GetCommittedState s a k = Some (v, s')"
  shows "ustep s s'"
proof -
  obtain r s1 where gs: "getStateObject s a = (r, s1)" by (meson surj_pair)
  have u: "ustep s s1" "sdb_stateObjects s1 a = r" using getStateObject_step [OF wf gs] by blast+
  show ?thesis
  proof (cases "\<exists>so. r = Some so \<and> \<not> so_deleted so")
    case True
    then obtain so where so: "sdb_stateObjects s1 a = Some so" "so_GetCommittedState s1 so k = Some (v, s')"
      using g u by (auto simp: GetCommittedState_def gs)
    then show ?thesis using so_GetCommittedState_step [OF ustep_wf [OF u(1)] so] ustep_trans [OF u(1)] by blast
  next
    case False
    then have "s' = s1" using g by (auto simp: GetCommittedState_def gs split: option.splits)
    then show ?thesis using u by simp
  qed
qed

lemmas op_steps = CreateAccount_step AddBalance_step SubBalance_step SetBalance_step SetNonce_step
  SetCode_step SetState_step Selfdestruct_step ustep_AddLog AddRefund_step SubRefund_step
  AddAddressToAccessList_step AddSlotToAccessList_step PrepareAccessList_step read_steps GetCode_step
  GetCodeSize_step GetState_step GetCommittedState_step

lemma exec_op_step:
  assumes "wf_state s" "op_ok x s" "exec_op x s = Some s'" "x \<noteq> OpSnapshot" "\<And>i. x \<noteq> OpRevert i"
  shows "ustep s s'"
  using assms by (cases x) (auto simp: Suicide_Selfdestruct intro: op_steps)

section \<open>The history of a state\<close>

text \<open>
  \<open>hist s es gs\<close>: \<open>gs\<close> lists the valid revisions, newest first, each with the state it was taken
  in; undoing the entries after a revision's index leads from one to the next.
\<close>

fun hist :: "IntraBlockState \<Rightarrow> journalEntry list \<Rightarrow> (revision \<times> IntraBlockState) list \<Rightarrow> bool" where
  "hist s es [] = True"
| "hist s es ((r, g) # gs) =
     (rv_journalIndex r \<le> length es \<and> wf_pending g \<and> entries g = take (rv_journalIndex r) es \<and>
      undoes (rev (drop (rv_journalIndex r) es)) s g \<and> hist g (take (rv_journalIndex r) es) gs)"

lemma hist_step:
  assumes "hist s es gs" "undoes (rev fs) s' s"
  shows "hist s' (es @ fs) gs"
  using assms by (cases gs) (auto intro: undoes_append)

lemma hist_restores: "hist s es gs \<Longrightarrow> restores s t \<Longrightarrow> hist t es gs"
  by (cases gs) (auto intro: undoes_restores)

lemma hist_suffix:
  "hist s es (new @ (r, g) # gs) \<Longrightarrow>
     rv_journalIndex r \<le> length es \<and> wf_pending g \<and> entries g = take (rv_journalIndex r) es \<and>
     undoes (rev (drop (rv_journalIndex r) es)) s g \<and> hist g (take (rv_journalIndex r) es) gs"
proof (induction new arbitrary: s es)
  case (Cons rg new)
  obtain r1 g1 where rg: "rg = (r1, g1)" by (cases rg)
  let ?n = "rv_journalIndex r1" and ?m = "rv_journalIndex r"
  have h: "?n \<le> length es" "undoes (rev (drop ?n es)) s g1" "hist g1 (take ?n es) (new @ (r, g) # gs)"
    using Cons.prems rg by simp_all
  note ih = Cons.IH [OF h(3)]
  then have m: "?m \<le> ?n" using h(1) by simp
  have "drop ?m es = drop ?m (take ?n es) @ drop ?n es"
    using m by (metis append_take_drop_id drop_append drop_take h(1) length_take min.absorb2 diff_is_0_eq drop_0)
  then have "undoes (rev (drop ?m es)) s g" using undoes_append [OF h(2)] ih by simp
  with ih m h(1) show ?case by (simp add: min_def)
qed simp

section \<open>Undoing keeps the objects well formed\<close>

lemma object_undo_wf: "object_undo e = Some (a, f) \<Longrightarrow> wf_object a so \<Longrightarrow> wf_object a (f so)"
  by (cases e) (auto simp: wf_object_def)

text \<open>What undoing leaves alone: the revisions, and the journal up to entries it appends.\<close>

definition undo_frame :: "IntraBlockState \<Rightarrow> IntraBlockState \<Rightarrow> bool" where
  "undo_frame s s' \<longleftrightarrow> wf_objects s' \<and> sdb_validRevisions s' = sdb_validRevisions s \<and>
     sdb_nextRevisionID s' = sdb_nextRevisionID s \<and> (\<exists>fs. entries s' = entries s @ fs)"

lemma undo_frame_trans: "undo_frame s t \<Longrightarrow> undo_frame t u \<Longrightarrow> undo_frame s u"
  by (auto simp: undo_frame_def)

lemma wf_objects_same:
  "wf_objects s \<Longrightarrow> sdb_stateReader s' = sdb_stateReader s \<Longrightarrow> sdb_nilAccounts s' = sdb_nilAccounts s \<Longrightarrow>
   sdb_stateObjects s' = sdb_stateObjects s \<Longrightarrow> entries s' = entries s \<Longrightarrow> wf_objects s'"
  unfolding wf_objects_def by simp

lemma wf_objects_delete:
  "wf_objects s \<Longrightarrow> wf_objects (s\<lparr>sdb_stateObjects := (sdb_stateObjects s)(a := None), sdb_stateObjectsDirty := d\<rparr>)"
  unfolding wf_objects_def by auto

lemma revert_entry_frame:
  assumes wf: "wf_objects s" and ok: "entry_ok e s" and p: "\<And>a p. e = resetObjectChange a p \<Longrightarrow> wf_object a p"
    and r: "revert_entry e s = Some s'"
  shows "undo_frame s s'"
proof (cases "object_undo e")
  case (Some af)
  obtain a f where af: "object_undo e = Some (a, f)" using Some by (cases af) auto
  then obtain so where so: "sdb_stateObjects s a = Some so"
    using ok by (cases e) (auto split: option.splits)
  have s': "s' = s\<lparr>sdb_stateObjects := (sdb_stateObjects s)(a \<mapsto> f so)\<rparr>"
    using revert_entry_object [OF af ok so] r by simp
  have "wf_object a so" using wf so by (simp add: wf_objects_def)
  then have "wf_object a (f so)" by (rule object_undo_wf [OF af])
  then have "wf_objects s'" by (intro wf_objects_upd [OF wf, of s' a "f so"]) (simp_all add: s')
  then show ?thesis by (simp add: undo_frame_def s')
next
  case None
  show ?thesis
  proof (cases e)
    case (resetObjectChange a q)
    let ?x = "with_increase s a q"
    have q: "wf_object a ?x" using p [OF resetObjectChange] by simp
    have s': "s' = snd (setStateObject s a q)" using r resetObjectChange by simp
    have "wf_objects s'"
      by (rule wf_objects_upd [OF wf, of s' a ?x]) (use q in \<open>auto simp: s' setStateObject_eq split: if_splits\<close>)
    then show ?thesis by (simp add: undo_frame_def s' setStateObject_eq)
  next
    case (createObjectChange a)
    then show ?thesis using r wf_objects_delete [OF wf] by (auto simp: undo_frame_def)
  qed (use None r in \<open>auto simp: undo_frame_def Let_def split: option.splits if_splits
        intro!: wf_objects_same [OF wf]\<close>)
qed

lemma undo_frame_undirty:
  assumes "wf_objects s" shows "undo_frame s (s\<lparr>sdb_journal := jn_undirty (sdb_journal s) e\<rparr>)"
proof -
  have "jn_entries (jn_undirty j e) = jn_entries j" for j
    by (simp add: jn_undirty_def Let_def split: option.split)
  then show ?thesis using wf_objects_same [OF assms] by (simp add: undo_frame_def)
qed

lemma revert_entries_frame:
  assumes "wf_objects s" "undoes es s g" "\<And>a p. resetObjectChange a p \<in> set es \<Longrightarrow> wf_object a p"
    "revert_entries es s = Some t"
  shows "undo_frame s t"
  using assms
proof (induction es arbitrary: s)
  case Nil
  then show ?case by (simp add: undo_frame_def)
next
  case (Cons e es)
  obtain s1 where s1: "entry_ok e s" "revert_entry e s = Some s1" "undoes es s1 g"
    using Cons.prems(2) by (auto split: option.splits)
  have f1: "undo_frame s s1" by (rule revert_entry_frame [OF Cons.prems(1) s1(1) _ s1(2)]) (use Cons.prems(3) in auto)
  let ?s2 = "s1\<lparr>sdb_journal := jn_undirty (sdb_journal s1) e\<rparr>"
  have f2: "undo_frame s1 ?s2" using f1 by (intro undo_frame_undirty) (simp add: undo_frame_def)
  have "undo_frame ?s2 t"
  proof (rule Cons.IH)
    show "wf_objects ?s2" using f2 by (simp add: undo_frame_def)
    show "undoes es ?s2 g" by (rule undoes_restores [OF s1(3)]) simp
    show "revert_entries es ?s2 = Some t" using Cons.prems(4) s1(2) by simp
  qed (use Cons.prems(3) in auto)
  then show ?case using f1 f2 undo_frame_trans by blast
qed

section \<open>The invariant of a run\<close>

definition run_inv :: "IntraBlockState \<Rightarrow> (revision \<times> IntraBlockState) list \<Rightarrow> bool" where
  "run_inv s gs \<longleftrightarrow> wf_state s \<and> hist s (entries s) gs \<and> map fst gs = rev (sdb_validRevisions s) \<and>
     sorted_wrt (<) (map rv_id (sdb_validRevisions s)) \<and>
     (\<forall>r \<in> set (sdb_validRevisions s). rv_id r < sdb_nextRevisionID s)"

lemma run_inv_step:
  assumes "run_inv s gs" "ustep s s'"
  shows "run_inv s' gs"
  using assms by (auto simp: run_inv_def ustep_def intro: hist_step)

lemma run_inv_snapshot:
  assumes "run_inv s gs"
  shows "run_inv (snd (Snapshot_take s)) ((\<lparr>rv_id = sdb_nextRevisionID s, rv_journalIndex = jn_length (sdb_journal s)\<rparr>, s) # gs)"
proof -
  let ?s' = "snd (Snapshot_take s)"
  have r: "restores s ?s'" by (rule restoresI) (simp_all add: Snapshot_take_def Let_def)
  have "wf_state ?s'"
    using assms wf_pending_restores [OF r] unfolding run_inv_def wf_state_def
    by (auto simp: Snapshot_take_def Let_def intro: wf_objects_same)
  moreover have "hist ?s' (entries ?s') ((\<lparr>rv_id = sdb_nextRevisionID s, rv_journalIndex = jn_length (sdb_journal s)\<rparr>, s) # gs)"
    using assms r by (simp add: run_inv_def wf_state_def Snapshot_take_def Let_def jn_length_def)
  ultimately show ?thesis
    using assms by (auto simp: run_inv_def Snapshot_take_def Let_def sorted_wrt_append)
qed

text \<open>The binary search finds a valid revision.\<close>

lemma search_revision:
  assumes "sorted_wrt (<) (map rv_id revs)" "i < length revs"
  shows "sort_Search (length revs) (\<lambda>k. rv_id (revs ! k) \<ge> rv_id (revs ! i)) = i"
proof (rule sort_Search_first)
  fix k assume k: "k < length revs"
  have lt: "rv_id (revs ! x) < rv_id (revs ! y)" if "x < y" "y < length revs" for x y
    using assms(1) that by (simp add: sorted_wrt_iff_nth_less)
  show "rv_id (revs ! i) \<le> rv_id (revs ! k) \<longleftrightarrow> i \<le> k"
    using lt [of k i] lt [of i k] k assms(2) by (metis leD leI nat_less_le order_refl)
qed (use assms in simp)

lemma run_inv_revert:
  assumes inv: "run_inv s (new @ (r, g) # old)"
  shows "\<exists>t. RevertToSnapshot s (rv_id r) = Some t \<and> restores g t \<and> run_inv t old \<and>
    entries t = entries g \<and> sdb_nextRevisionID t = sdb_nextRevisionID s"
proof -
  let ?revs = "sdb_validRevisions s" and ?n = "rv_journalIndex r"
  have "rev ?revs = map fst new @ r # map fst old" using inv by (simp add: run_inv_def)
  then have "rev (rev ?revs) = rev (map fst new @ r # map fst old)" by (rule arg_cong)
  then have revs: "?revs = rev (map fst old) @ r # rev (map fst new)" by simp
  let ?i = "length old"
  have nth: "?revs ! ?i = r" "?i < length ?revs" "take ?i ?revs = rev (map fst old)"
    unfolding revs by (simp_all add: nth_append)
  have srt: "sorted_wrt (<) (map rv_id ?revs)" using inv by (simp add: run_inv_def)
  have idx: "sort_Search (length ?revs) (\<lambda>k. rv_id (?revs ! k) \<ge> rv_id r) = ?i"
    using search_revision [OF srt nth(2)] nth(1) by simp
  have h: "?n \<le> length (entries s)" "wf_pending g" "undoes (rev (drop ?n (entries s))) s g"
      "hist g (take ?n (entries s)) old" "entries g = take ?n (entries s)"
    using hist_suffix [of s "entries s" new r g old] inv by (auto simp: run_inv_def)
  obtain u where u: "revert_entries (rev (drop ?n (entries s))) s = Some u" "restores g u"
    using undoes_revert_entries [OF h(3)] by blast
  have wo: "wf_objects s" using inv by (simp add: run_inv_def wf_state_def)
  have "undo_frame s u"
    by (rule revert_entries_frame [OF wo h(3) _ u(1)])
       (use wo in \<open>auto simp: wf_objects_def dest: in_set_dropD\<close>)
  then obtain fs where fr: "wf_objects u" "sdb_validRevisions u = ?revs" "sdb_nextRevisionID u = sdb_nextRevisionID s"
      "entries u = entries s @ fs" by (auto simp: undo_frame_def)
  define t where "t = u\<lparr>sdb_journal := (sdb_journal u)\<lparr>jn_entries := take ?n (entries u)\<rparr>,
                       sdb_validRevisions := take ?i ?revs\<rparr>"
  have es: "entries t = take ?n (entries s)" using h(1) fr(4) by (simp add: t_def)
  have rt: "restores g t"
    by (rule restores_trans [OF u(2)]) (rule restoresI, simp_all add: t_def)
  have tv: "sdb_validRevisions t = rev (map fst old)" using nth(3) by (simp add: t_def)
  have "RevertToSnapshot s (rv_id r) = Some t"
    using nth idx u(1) fr(2) by (simp add: RevertToSnapshot_def Let_def journal_revert_def t_def)
  moreover have "wf_objects t"
    by (rule wf_objectsI [OF fr(1)])
       (use fr(1,4) in \<open>auto simp: t_def wf_objects_def dest: in_set_takeD\<close>)
  moreover have "wf_pending t" by (rule wf_pending_restores [OF rt h(2)])
  moreover have "hist t (entries t) old" unfolding es by (rule hist_restores [OF h(4) rt])
  moreover have "map fst old = rev (sdb_validRevisions t)" by (simp add: tv)
  moreover have "sorted_wrt (<) (map rv_id (sdb_validRevisions t))"
    using srt unfolding tv revs by (simp add: sorted_wrt_append)
  moreover have "\<forall>q \<in> set (sdb_validRevisions t). rv_id q < sdb_nextRevisionID t"
    using inv by (auto simp: run_inv_def t_def fr(3) dest: in_set_takeD)
  ultimately show ?thesis using rt es fr(3) h(5) by (auto simp: run_inv_def wf_state_def t_def)
qed

text \<open>A revision that is not valid makes \<^verbatim>\<open>RevertToSnapshot\<close> panic.\<close>

lemma RevertToSnapshot_valid:
  assumes "RevertToSnapshot s i = Some t"
  shows "\<exists>r \<in> set (sdb_validRevisions s). rv_id r = i"
proof -
  let ?revs = "sdb_validRevisions s"
  let ?idx = "sort_Search (length ?revs) (\<lambda>k. rv_id (?revs ! k) \<ge> i)"
  have "?idx \<noteq> length ?revs" "rv_id (?revs ! ?idx) = i"
    using assms by (auto simp: RevertToSnapshot_def Let_def split: if_splits)
  moreover have "?idx \<le> length ?revs" by (rule sort_Search_le)
  ultimately show ?thesis by (intro bexI [of _ "?revs ! ?idx"]) auto
qed

lemma split_revision:
  assumes "run_inv s gs" "r \<in> set (sdb_validRevisions s)"
  obtains new g old where "gs = new @ (r, g) # old"
proof -
  have "r \<in> set (map fst gs)" using assms by (simp add: run_inv_def)
  then obtain g where "(r, g) \<in> set gs" by auto
  then show ?thesis using that by (meson split_list)
qed

text \<open>Running operations keeps the invariant; the revisions older than a valid one stay as they
  were.\<close>

lemma run_inv_exec:
  assumes inv: "run_inv s gs" and ok: "op_ok x s" and e: "exec_op x s = Some s'"
  obtains (step) "run_inv s' gs" "sdb_nextRevisionID s' = sdb_nextRevisionID s"
  | (snapshot) r where "run_inv s' ((r, s) # gs)" "rv_id r = sdb_nextRevisionID s"
      "sdb_nextRevisionID s' = sdb_nextRevisionID s + 1"
  | (revert) new r g old where "gs = new @ (r, g) # old" "run_inv s' old" "sdb_nextRevisionID s' = sdb_nextRevisionID s"
proof -
  consider (snap) "x = OpSnapshot" | (rev) i where "x = OpRevert i" | (op) "x \<noteq> OpSnapshot" "\<And>i. x \<noteq> OpRevert i"
    by blast
  then show thesis
  proof cases
    case snap
    then have "s' = snd (Snapshot_take s)" using e by simp
    then show thesis using run_inv_snapshot [OF inv]
      by (intro snapshot [of "\<lparr>rv_id = sdb_nextRevisionID s, rv_journalIndex = jn_length (sdb_journal s)\<rparr>"])
         (simp_all add: Snapshot_take_def Let_def)
  next
    case (rev i)
    then have r: "RevertToSnapshot s i = Some s'" using e by simp
    then obtain r where "r \<in> set (sdb_validRevisions s)" "rv_id r = i" using RevertToSnapshot_valid by blast
    with split_revision [OF inv] obtain new g old where "gs = new @ (r, g) # old" by metis
    then show thesis using run_inv_revert [of s new r g old] inv r \<open>rv_id r = i\<close> by (intro revert) auto
  next
    case op
    have "wf_state s" using inv by (simp add: run_inv_def)
    from exec_op_step [OF this ok e op] show thesis
      using run_inv_step [OF inv] by (intro step) (simp_all add: ustep_def)
  qed
qed

lemma run_inv_distinct: "run_inv s gs \<Longrightarrow> distinct (map (rv_id \<circ> fst) gs)"
proof -
  assume inv: "run_inv s gs"
  have "map (rv_id \<circ> fst) gs = rev (map rv_id (sdb_validRevisions s))"
    using inv by (simp add: run_inv_def rev_map flip: map_map)
  moreover have "distinct (map rv_id (sdb_validRevisions s))"
    using inv by (auto simp: run_inv_def strict_sorted_iff)
  ultimately show ?thesis by simp
qed

lemma run_inv_fresh: "run_inv s gs \<Longrightarrow> x \<in> set gs \<Longrightarrow> rv_id (fst x) < sdb_nextRevisionID s"
proof -
  assume inv: "run_inv s gs" and x: "x \<in> set gs"
  then have "fst x \<in> set (rev (sdb_validRevisions s))" unfolding run_inv_def by (metis image_eqI set_map)
  then show ?thesis using inv by (auto simp: run_inv_def)
qed

text \<open>\<open>tracks i ts gs\<close>: if revision \<open>i\<close> is still valid, it is the head of \<open>ts\<close>, untouched.\<close>

definition tracks :: "nat \<Rightarrow> (revision \<times> IntraBlockState) list \<Rightarrow> (revision \<times> IntraBlockState) list \<Rightarrow> bool" where
  "tracks i ts gs \<longleftrightarrow> ((\<exists>x \<in> set gs. rv_id (fst x) = i) \<longrightarrow> dropWhile (\<lambda>x. rv_id (fst x) \<noteq> i) gs = ts)"

lemma tracks_revert:
  assumes "tracks i ts (new @ old)" "distinct (map (rv_id \<circ> fst) (new @ old))"
  shows "tracks i ts old"
  unfolding tracks_def
proof
  assume "\<exists>x \<in> set old. rv_id (fst x) = i"
  then obtain x where x: "x \<in> set old" "rv_id (fst x) = i" by blast
  then have "rv_id (fst y) \<noteq> i" if "y \<in> set new" for y
    using assms(2) that by (force simp: image_iff)
  then have "dropWhile (\<lambda>x. rv_id (fst x) \<noteq> i) (new @ old) = dropWhile (\<lambda>x. rv_id (fst x) \<noteq> i) old"
    by (simp add: dropWhile_append2)
  with assms(1) x show "dropWhile (\<lambda>x. rv_id (fst x) \<noteq> i) old = ts" by (auto simp: tracks_def)
qed

lemma run_ops_inv:
  assumes "run_inv s gs" "ops_ok xs s" "run_ops xs s = Some s'" "tracks i ts gs" "i < sdb_nextRevisionID s"
  shows "\<exists>gs'. run_inv s' gs' \<and> tracks i ts gs' \<and> i < sdb_nextRevisionID s'"
  using assms
proof (induction xs arbitrary: s gs)
  case (Cons x xs)
  obtain s1 where s1: "exec_op x s = Some s1" "run_ops xs s1 = Some s'"
    using Cons.prems by (auto split: option.splits)
  have ok: "op_ok x s" "ops_ok xs s1" using Cons.prems s1 by simp_all
  note IH = Cons.IH [OF _ ok(2) s1(2)]
  show ?case
  proof (rule run_inv_exec [OF Cons.prems(1) ok(1) s1(1)])
    assume "run_inv s1 gs" "sdb_nextRevisionID s1 = sdb_nextRevisionID s"
    then show ?thesis using IH Cons.prems(4,5) by auto
  next
    fix r assume r: "run_inv s1 ((r, s) # gs)" "rv_id r = sdb_nextRevisionID s"
      "sdb_nextRevisionID s1 = sdb_nextRevisionID s + 1"
    then have "tracks i ts ((r, s) # gs)" using Cons.prems(4,5) by (auto simp: tracks_def)
    then show ?thesis using IH [OF r(1)] r(3) Cons.prems(5) by simp
  next
    fix new r g old assume r: "gs = new @ (r, g) # old" "run_inv s1 old" "sdb_nextRevisionID s1 = sdb_nextRevisionID s"
    have "tracks i ts old"
      by (rule tracks_revert [of _ _ "new @ [(r, g)]"]) (use Cons.prems(4) run_inv_distinct [OF Cons.prems(1)] r(1) in simp_all)
    then show ?thesis using IH [OF r(2)] r(3) Cons.prems(5) by simp
  qed
qed auto

lemma run_ops_inv0:
  "run_inv s gs \<Longrightarrow> ops_ok xs s \<Longrightarrow> run_ops xs s = Some s' \<Longrightarrow> \<exists>gs'. run_inv s' gs'"
proof (induction xs arbitrary: s gs)
  case (Cons x xs)
  obtain s1 where s1: "exec_op x s = Some s1" "run_ops xs s1 = Some s'"
    using Cons.prems by (auto split: option.splits)
  have ok: "op_ok x s" "ops_ok xs s1" using Cons.prems s1 by simp_all
  show ?case
    by (rule run_inv_exec [OF Cons.prems(1) ok(1) s1(1)]; rule Cons.IH [OF _ ok(2) s1(2)])
qed auto

lemma revert_to_snapshot_inv:
  assumes inv: "run_inv s gs" and sn: "Snapshot_take s = (i, s1)"
    and run: "ops_ok xs s1" "run_ops xs s1 = Some s2"
    and valid: "i \<in> rv_id ` set (sdb_validRevisions s2)"
  shows "\<exists>t. RevertToSnapshot s2 i = Some t \<and> restores s t \<and> run_inv t gs \<and> entries t = entries s"
proof -
  define r where "r = \<lparr>rv_id = i, rv_journalIndex = jn_length (sdb_journal s)\<rparr>"
  have i: "i = sdb_nextRevisionID s" "sdb_nextRevisionID s1 = i + 1" "snd (Snapshot_take s) = s1"
      "entries s1 = entries s"
    using sn by (auto simp: Snapshot_take_def Let_def)
  have inv1: "run_inv s1 ((r, s) # gs)" using run_inv_snapshot [OF inv] unfolding i(3) r_def i(1) .
  have "tracks i ((r, s) # gs) ((r, s) # gs)" by (simp add: tracks_def r_def)
  then obtain gs' where gs': "run_inv s2 gs'" "tracks i ((r, s) # gs) gs'"
    using run_ops_inv [OF inv1 run] i(2) by auto
  obtain q where q: "q \<in> set (sdb_validRevisions s2)" "rv_id q = i" using valid by auto
  obtain new g old where "gs' = new @ (q, g) # old" by (rule split_revision [OF gs'(1) q(1)])
  then have "dropWhile (\<lambda>x. rv_id (fst x) \<noteq> i) gs' = (r, s) # gs"
    using gs'(2) q(2) by (auto simp: tracks_def)
  then have "gs' = takeWhile (\<lambda>x. rv_id (fst x) \<noteq> i) gs' @ (r, s) # gs"
    by (metis takeWhile_dropWhile_id)
  then obtain new' where "gs' = new' @ (r, s) # gs" by blast
  with gs'(1) run_inv_revert [of s2 new' r s gs] show ?thesis by (auto simp: r_def)
qed

end
