(* ===== verification/State_Props.thy ===== *)
theory State_Props
  imports State_Journal
begin

text \<open>
  The properties of the state database: reverting, reading, totality, and what exactly the journal
  does not undo.
\<close>

section \<open>A concrete database\<close>

text \<open>One account, at address 7, with balance 100; every other address is absent.\<close>

definition demo_ext :: Externals where
  "demo_ext = \<lparr>keccak = (\<lambda>bs. if bs = [] then 1 else 2), protoMarshal = (\<lambda>_. []),
     protoUnmarshal = (\<lambda>_. (ToProtoMessage zero_account, None))\<rparr>"

definition demo_account :: StateAccount where
  "demo_account = zero_account\<lparr>acc_Initialised := True, acc_Balance := 100\<rparr>"

definition demo_reader :: StateReader where
  "demo_reader = \<lparr>ReadAccountData = (\<lambda>a. (if a = 7 then Some demo_account else None, None)),
     ReadAccountStorage = (\<lambda>_ _ _. (None, None)), ReadAccountCode = (\<lambda>_ _ _. (None, None)),
     ReadAccountCodeSize = (\<lambda>_ _ _. (0, None)), ReadAccountIncarnation = (\<lambda>_. (0, None))\<rparr>"

lemmas state_eval = Snapshot_take_def jn_length_def Let_def AddBalance_def GetOrNewStateObject_def
  getStateObject_def createObject_def setStateObject_def newObject_def so_AddBalance_def so_empty_def
  emptyCodeHashH_def so_SetBalance_def put_object_def journal_append_def jn_append_def jn_dirty_def
  jn_get_def newJournal_def New_def pending_def so_setNonce_def so_setBalance_def acc_Copy_def
  so_touch_def SetNonce_def so_SetNonce_def SubBalance_def so_SubBalance_def GetBalance_def
  SetBalance_def CreateAccount_def Selfdestruct_def Suicide_def
  demo_ext_def demo_reader_def demo_account_def zero_account_def in_db_def

lemmas revert_eval = RevertToSnapshot_def journal_revert_def sort_Search_def search_loop.simps
  on_object_def jn_undirty_def

text \<open>
  C1: take a snapshot after any run of operations, run any further operations (loads, writes,
  creations, self-destructs, logs, refunds, access list, nested snapshots and reverts) that leave
  the snapshot valid. Then \<^verbatim>\<open>RevertToSnapshot\<close> does not panic, and every account, slot and code
  is observed as when the snapshot was taken; pending increases, refund, logs, access list,
  journal and valid revisions are the same as then. The hypothesis \<open>ops_ok\<close> excludes crediting an
  account that is in the database but not loaded and self-destructing one that the transaction
  created.
\<close>

theorem RevertToSnapshot_restores:
  assumes "wf_state s0" "sdb_validRevisions s0 = []"
    and "ops_ok pre s0" "run_ops pre s0 = Some s"
    and "Snapshot_take s = (i, s1)"
    and "ops_ok xs s1" "run_ops xs s1 = Some s2"
    and "i \<in> rv_id ` set (sdb_validRevisions s2)"
  shows "\<exists>t. RevertToSnapshot s2 i = Some t \<and> view t = view s \<and> sdb_balanceInc t = sdb_balanceInc s \<and>
    sdb_refund t = sdb_refund s \<and> sdb_logs t = sdb_logs s \<and> sdb_logSize t = sdb_logSize s \<and>
    sdb_accessList t = sdb_accessList s \<and> sdb_validRevisions t = sdb_validRevisions s \<and>
    jn_entries (sdb_journal t) = jn_entries (sdb_journal s) \<and> wf_state t"
proof -
  have "run_inv s0 []" using assms(1,2) by (simp add: run_inv_def)
  then obtain gs where gs: "run_inv s gs" using run_ops_inv0 [OF _ assms(3,4)] by blast
  then obtain t where t: "RevertToSnapshot s2 i = Some t" "restores s t" "run_inv t gs" "entries t = entries s"
    using revert_to_snapshot_inv [OF _ assms(5-8)] by blast
  have "rev (sdb_validRevisions t) = rev (sdb_validRevisions s)" using gs t(3) by (simp add: run_inv_def)
  then show ?thesis using t by (auto simp: restores_def run_inv_def)
qed

theorem RevertToSnapshot_restores_witness:
  "\<exists>s s1 s2 t. run_ops [OpAddBalance 9 5] (New demo_ext demo_reader) = Some s \<and>
     Snapshot_take s = (0, s1) \<and> run_ops [OpSetNonce 7 3, OpSnapshot, OpSubBalance 9 1] s1 = Some s2 \<and>
     RevertToSnapshot s2 0 = Some t \<and> view t = view s"
proof -
  let ?s0 = "New demo_ext demo_reader"
  obtain s where s: "run_ops [OpAddBalance 9 5] ?s0 = Some s" by simp
  obtain s1 where s1: "Snapshot_take s = (0, s1)" using s by (auto simp: state_eval)
  obtain s2 where s2: "run_ops [OpSetNonce 7 3, OpSnapshot, OpSubBalance 9 1] s1 = Some s2" by simp
  have w: "wf_state ?s0" "sdb_validRevisions ?s0 = []" by (simp add: wf_state_def wf_New) (simp add: New_def)
  have ok: "ops_ok [OpAddBalance 9 5] ?s0" by (simp add: state_eval)
  have ok1: "ops_ok [OpSetNonce 7 3, OpSnapshot, OpSubBalance 9 1] s1" by simp
  have id: "0 \<in> rv_id ` set (sdb_validRevisions s2)"
    using s s1 s2 by (auto simp: state_eval)
  show ?thesis using RevertToSnapshot_restores [OF w ok s s1 ok1 s2 id] s s1 s2 by blast
qed

section \<open>Reads\<close>

definition view_get :: "'a \<Rightarrow> (ObjView \<Rightarrow> 'a) \<Rightarrow> ObjView option \<Rightarrow> 'a" where
  "view_get d f v = (case v of None \<Rightarrow> d | Some ov \<Rightarrow> if ov_deleted ov then d else f ov)"

lemma getStateObject_None:
  assumes "wf_objects s" "getStateObject s a = (None, s')"
  shows "view s a = None"
proof -
  have nil: "a \<in> sdb_nilAccounts s \<Longrightarrow> ReadAccountData (sdb_stateReader s) a = (None, None)"
    using assms(1) by (simp add: wf_objects_def)
  have p: "pending (s\<lparr>sdb_nilAccounts := n\<rparr>) a = pending s a" for n by (simp add: pending_def)
  have "view_object s a = None"
    using assms(2) nil p unfolding getStateObject_def view_object_def
    by (auto simp: Let_def split: option.splits if_splits prod.splits)
  then show ?thesis by (simp add: view_def)
qed

lemma getStateObject_view:
  assumes "wf_state s" "getStateObject s a = (r, s')"
  shows "view s' = view s" "view s a = map_option (obj_view (source_of s)) r" "source_of s' = source_of s"
    "wf_state s'" "sdb_stateObjects s' a = r"
proof -
  note g = getStateObject_step [OF assms]
  then show v: "view s' = view s" "source_of s' = source_of s" "wf_state s'" "sdb_stateObjects s' a = r"
    by (auto dest: ustep_source ustep_wf)
  show "view s a = map_option (obj_view (source_of s)) r"
    using v view_loaded [of s' a] getStateObject_None [of s a s'] assms by (cases r) (auto simp: wf_state_def)
qed

text \<open>
  Loading an account returns the object of the view, also when an increase waits for an account of
  the database, and touches no other account.
\<close>

definition loads :: "IntraBlockState \<Rightarrow> address \<Rightarrow> stateObject option \<Rightarrow> IntraBlockState \<Rightarrow> bool" where
  "loads s a r s' \<longleftrightarrow> r = view_object s a \<and> sdb_stateObjects s' a = r \<and> source_of s' = source_of s \<and> wf_objects s' \<and>
     (\<forall>b. b \<noteq> a \<longrightarrow> sdb_stateObjects s' b = sdb_stateObjects s b \<and> sdb_balanceInc s' b = sdb_balanceInc s b) \<and>
     (r = None \<longrightarrow> sdb_balanceInc s' a = sdb_balanceInc s a)"

lemma loads_setStateObject:
  assumes "wf_objects s" "source_of t = source_of s" "sdb_stateObjects t = sdb_stateObjects s" "sdb_balanceInc t = sdb_balanceInc s"
    "\<And>b. b \<in> sdb_nilAccounts t \<Longrightarrow> ReadAccountData (sdb_stateReader s) b = (None, None)"
    "\<And>b p. resetObjectChange b p \<in> set (entries t) \<Longrightarrow> resetObjectChange b p \<in> set (entries s)"
    "wf_object a x" "view_object s a = Some (with_increase s a x)" "setStateObject t a x = (y, s')"
  shows "loads s a (Some y) s'"
proof -
  have w: "with_increase t a x = with_increase s a x" by (rule with_increase_cong) (simp add: assms(4))
  have "wf_object b so" if "sdb_stateObjects s b = Some so" for b so using assms(1) that by (simp add: wf_objects_def)
  moreover have "wf_object b p" if "resetObjectChange b p \<in> set (entries s)" for b p
    using assms(1) that by (auto simp: wf_objects_def)
  ultimately have "wf_objects s'"
    using assms(2,3,5-7,9) source_of_reader [OF assms(2)] w
    by (auto simp: wf_objects_def setStateObject_eq split: if_splits)
  then show ?thesis using assms(2-4,8,9) w by (auto simp: loads_def setStateObject_eq split: if_splits)
qed

lemma getStateObject_absent:
  assumes wf: "wf_objects s" and unloaded: "sdb_stateObjects s a = None"
    and rd: "ReadAccountData (sdb_stateReader s) a = (None, None)" and g: "getStateObject s a = (r, s')"
  shows "loads s a r s'"
proof -
  have nil: "ReadAccountData (sdb_stateReader s) b = (None, None)" if "b \<in> sdb_nilAccounts s" for b
    using wf that by (simp add: wf_objects_def)
  define t where "t = s\<lparr>sdb_nilAccounts := insert a (sdb_nilAccounts s)\<rparr>"
  have p: "pending t a = pending s a" by (simp add: t_def pending_def)
  have g1: "getStateObject s a =
      (if pending s a then (let (o', u) = createObject t a None in (Some o', u)) else (None, t))"
    using unloaded rd p
    by (cases "a \<in> sdb_nilAccounts s") (simp_all add: getStateObject_def Let_def t_def insert_absorb)
  show ?thesis
  proof (cases "pending s a")
    case False
    then have "r = None" "s' = t" "view_object s a = None"
      using g g1 unloaded rd by (auto simp: view_object_def)
    then show ?thesis using wf unloaded rd by (auto simp: loads_def wf_objects_def t_def)
  next
    case True
    then have v: "view_object s a = Some (with_increase s a (blank_object s a))"
      using unloaded rd by (simp add: view_object_def)
    let ?t = "journal_append (createObjectChange a) t"
    have "so_setNonce 0 (newObject t a zero_account zero_account) = blank_object s a"
      unfolding blank_object_def using newObject_ext [of t s] by (simp add: t_def)
    moreover have "newObject t = newObject ?t" by (rule ext)+ (rule newObject_ext, simp)
    ultimately obtain y where "setStateObject ?t a (blank_object s a) = (y, s')" "r = Some y"
      using g g1 True by (auto simp: createObject_def Let_def split: prod.splits)
    then show ?thesis using loads_setStateObject [OF wf _ _ _ _ _ _ v, of ?t y s'] nil rd
      by (auto simp: t_def)
  qed
qed

lemma getStateObject_loads:
  assumes wf: "wf_objects s" and g: "getStateObject s a = (r, s')"
  shows "loads s a r s'"
proof (cases "sdb_stateObjects s a")
  case (Some so)
  then have "r = Some so" "s' = s" using g by (simp_all add: getStateObject_def)
  then show ?thesis using wf Some by (simp add: loads_def view_object_def)
next
  case unloaded: None
  have nil: "ReadAccountData (sdb_stateReader s) b = (None, None)" if "b \<in> sdb_nilAccounts s" for b
    using wf that by (simp add: wf_objects_def)
  obtain v err where rd: "ReadAccountData (sdb_stateReader s) a = (v, err)" by (meson surj_pair)
  consider (err) e where "err = Some e" | (db) acc where "v = Some acc" "err = None"
    | (absent) "v = None" "err = None" by (cases v; cases err) auto
  then show ?thesis
  proof cases
    case err
    have "a \<notin> sdb_nilAccounts s" using nil [of a] rd err by auto
    then have "r = None" "s' = setErrorUnsafe s e" "view_object s a = None"
      using unloaded rd g err by (cases v; simp add: getStateObject_def view_object_def)+
    then show ?thesis using wf unloaded by (auto simp: loads_def wf_objects_def)
  next
    case db
    have v: "view_object s a = Some (with_increase s a (newObject s a acc acc))"
      using unloaded rd db by (simp add: view_object_def)
    have n: "newObject (load_witness s a acc) a acc acc = newObject s a acc acc" by (rule newObject_ext) simp
    obtain y where "setStateObject (load_witness s a acc) a (newObject s a acc acc) = (y, s')" "r = Some y"
      using g nil [of a] unloaded rd db n
      by (cases "a \<in> sdb_nilAccounts s") (auto simp: getStateObject_def load_witness_def [symmetric] Let_def split: prod.splits)
    then show ?thesis using loads_setStateObject [OF wf _ _ _ _ _ _ v, of "load_witness s a acc" y s'] nil by auto
  next
    case absent
    then show ?thesis using getStateObject_absent [OF wf unloaded _ g] rd by simp
  qed
qed

lemma loads_view:
  assumes "loads s a r s'"
  shows "view s' = view s" "view s a = map_option (obj_view (source_of s)) r"
proof -
  show v: "view s a = map_option (obj_view (source_of s)) r" using assms by (simp add: loads_def view_def)
  have "view s' b = view s b" for b
  proof (cases "b = a")
    case True
    show ?thesis
    proof (cases r)
      case None
      then have "sdb_stateObjects s a = None" using assms by (cases "sdb_stateObjects s a") (auto simp: loads_def view_object_def)
      then show ?thesis using assms True None by (intro view_cong) (auto simp: loads_def)
    next
      case (Some so)
      then have "sdb_stateObjects s' a = Some so" "source_of s' = source_of s" using assms by (simp_all add: loads_def)
      then show ?thesis using view_loaded [of s' a so] True v Some by simp
    qed
  next
    case False
    then show ?thesis using assms by (intro view_cong) (auto simp: loads_def)
  qed
  then show "view s' = view s" by (rule ext)
qed

lemma so_Code_reads:
  assumes wf: "wf_objects s" and so: "sdb_stateObjects s a = Some so" and c: "so_Code s so = (code, s')"
  shows "view s' = view s" "wf_objects s'" "code = code_of (source_of s) so"
proof -
  have w: "wf_object a so" using wf so by (simp add: wf_objects_def)
  have "view s' = view s \<and> wf_objects s' \<and> code = code_of (source_of s) so"
  proof (cases "so_code so = None \<and> acc_CodeHash (so_data so) \<noteq> emptyCodeHashH s")
    case False
    then show ?thesis using c wf by (auto simp: so_Code_def code_of_def source_of_def emptyCodeHashH_def split: option.splits)
  next
    case True
    obtain code0 err where rd: "ReadAccountCode (sdb_stateReader s) (so_address so)
        (acc_Incarnation (so_data so)) (acc_CodeHash (so_data so)) = (code0, err)" by (meson surj_pair)
    define s1 where "s1 = (case err of None \<Rightarrow> s | Some e \<Rightarrow> setErrorUnsafe s (CantLoadCode (acc_CodeHash (so_data so)) e))"
    have s1: "sdb_stateObjects s1 = sdb_stateObjects s" "sdb_balanceInc s1 = sdb_balanceInc s" "source_of s1 = source_of s"
        "sdb_stateReader s1 = sdb_stateReader s" "sdb_nilAccounts s1 = sdb_nilAccounts s" "entries s1 = entries s"
      by (auto simp: s1_def split: option.split)
    have s': "code = code0" "s' = put_object (so\<lparr>so_code := code0\<rparr>) s1" using c True rd by (auto simp: so_Code_def s1_def)
    have code: "code_of (source_of s) so = code0" "code_of (source_of s) (so\<lparr>so_code := code0\<rparr>) = code0"
      using True rd by (auto simp: code_of_def source_of_def emptyCodeHashH_def split: option.split)
    have o: "obj_view (source_of s) (so\<lparr>so_code := code0\<rparr>) = obj_view (source_of s) so"
      unfolding obj_view_eq code by (simp add: obj_view_code)
    have a: "so_address so = a" using w by (simp add: wf_object_def)
    have "view s' b = view s b" for b
    proof (cases "b = a")
      case True
      then show ?thesis using view_loaded [of s' a "so\<lparr>so_code := code0\<rparr>"] view_loaded [OF so] s'(2) s1(3) a o by simp
    next
      case False
      then show ?thesis using s'(2) s1 a by (intro view_cong) auto
    qed
    moreover have "wf_objects s'"
      by (rule wf_objects_upd [OF wf, of s' a "so\<lparr>so_code := code0\<rparr>"]) (use s'(2) s1 a w in \<open>auto simp: wf_object_def\<close>)
    ultimately show ?thesis using s'(1) code(1) by auto
  qed
  then show "view s' = view s" "wf_objects s'" "code = code_of (source_of s) so" by simp_all
qed

text \<open>
  C2: the account reads return the value of the observable account (zero for an absent or deleted
  one), whether it is loaded, in the database, or waiting as a balance increase, also when an
  increase waits for an account of the database, and change nothing observable. The objects of the
  state sit under their own addresses and are initialised, and the addresses remembered as absent
  are absent in the database; the reads keep that, and the stronger invariant of the journal too.
\<close>

theorem getters_read_view:
  assumes "wf_objects s"
  shows "fst (GetBalance s a) = view_get 0 (acc_Balance \<circ> ov_data) (view s a) \<and>
    fst (GetNonce s a) = view_get 0 (acc_Nonce \<circ> ov_data) (view s a) \<and>
    fst (GetCodeHash s a) = view_get 0 (acc_CodeHash \<circ> ov_data) (view s a) \<and>
    fst (GetCode s a) = view_get None ov_code (view s a) \<and>
    fst (Exist s a) = view_get False (\<lambda>_. True) (view s a) \<and>
    (\<forall>s' \<in> {snd (GetBalance s a), snd (GetNonce s a), snd (GetCodeHash s a), snd (GetCode s a),
            snd (Exist s a)}. view s' = view s \<and> wf_objects s' \<and> (wf_state s \<longrightarrow> wf_state s'))"
proof -
  obtain r s' where g: "getStateObject s a = (r, s')" by (meson surj_pair)
  note l = getStateObject_loads [OF assms g]
  note v = loads_view [OF l] and w = getStateObject_step [OF _ g, THEN conjunct1, THEN ustep_wf]
  have f: "wf_objects s'" "source_of s' = source_of s" "sdb_stateObjects s' a = r" using l by (simp_all add: loads_def)
  show ?thesis
  proof (cases r)
    case None
    then show ?thesis using v f w g
      by (simp add: GetBalance_def GetNonce_def GetCodeHash_def GetCode_def Exist_def view_get_def)
  next
    case (Some so)
    obtain c s2 where c: "so_Code s' so = (c, s2)" by (meson surj_pair)
    have o: "sdb_stateObjects s' a = Some so" using f(3) Some by simp
    have w2: "wf_state s2" if "wf_state s" using so_Code_step [OF w [OF that] o c] ustep_wf by blast
    show ?thesis using v f w w2 g Some c so_Code_reads [OF f(1) o c]
      by (auto simp: GetBalance_def GetNonce_def GetCodeHash_def GetCode_def Exist_def view_get_def
          obj_view_def)
  qed
qed

theorem getters_read_view_witness:
  "wf_objects (AddBalance (New demo_ext demo_reader) 7 5) \<and> fst (GetBalance (AddBalance (New demo_ext demo_reader) 7 5) 7) = 105 \<and>
   view_get 0 (acc_Balance \<circ> ov_data) (view (AddBalance (New demo_ext demo_reader) 7 5) 7) = 105"
proof -
  let ?s = "AddBalance (New demo_ext demo_reader) 7 5"
  have w: "wf_objects ?s" by (simp add: wf_objects_def state_eval)
  moreover have "fst (GetBalance ?s 7) = 105" by (simp add: state_eval)
  ultimately show ?thesis using getters_read_view [OF w, of 7] by simp
qed

section \<open>Storage\<close>

lemma so_SetState_effect:
  assumes wf: "wf_state s" and so: "sdb_stateObjects s a = Some so" and g: "so_SetState s so k v = Some s'"
  shows "\<exists>so'. sdb_stateObjects s' a = Some so' \<and> so_deleted so' = so_deleted so \<and> so_data so' = so_data so \<and>
    state_of (source_of s') so' = (state_of (source_of s) so)(k := v) \<and>
    (so_fakeStorage so = None \<longrightarrow> committed_of (source_of s') so' = committed_of (source_of s) so)"
proof -
  have src: "source_of s' = source_of s" by (rule ustep_source [OF so_SetState_step [OF wf so g]])
  have a: "so_address so = a" by (rule wf_objects_address [OF wf so])
  show ?thesis
  proof (cases "so_fakeStorage so")
    case (Some fake)
    then show ?thesis using g a src
      by (auto simp: so_SetState_def state_of_def fun_eq_iff)
  next
    case None
    obtain prev s1 where gs: "so_GetState s so k = Some (prev, s1)"
      "s' = (if prev = v then s1 else put_object (so_setState k v (reload s1 so))
               (journal_append (storageChange (so_address so) k prev) s1))"
      using g None by (auto simp: so_SetState_def split: option.splits if_splits)
    obtain so1 where so1: "prev = state_of (source_of s) so k" "sdb_stateObjects s1 a = Some so1"
        "obj_view (source_of s) so1 = obj_view (source_of s) so" "so_address so1 = a"
      using so_GetState_step [OF wf so gs(1)] wf_objects_address ustep_wf by blast
    have f: "so_fakeStorage so1 = None" using so1(3) None by (simp add: obj_view_eq)
    show ?thesis
    proof (cases "prev = v")
      case True
      then show ?thesis using gs(2) so1 src by (auto simp: obj_view_eq fun_eq_iff)
    next
      case False
      then have "sdb_stateObjects s' a = Some (so_setState k v so1)"
        using gs(2) so1 a by (simp add: reload_def)
      then show ?thesis using so1 f src by (auto simp: obj_view_eq fun_eq_iff)
    qed
  qed
qed

lemma GetState_view:
  assumes "wf_state s" "GetState s a k = Some (w, s')"
  shows "w = view_get 0 (\<lambda>ov. ov_state ov k) (view s a) \<and> view s' = view s"
proof -
  obtain r s1 where g: "getStateObject s a = (r, s1)" by (meson surj_pair)
  note v = getStateObject_view [OF assms(1) g]
  show ?thesis
  proof (cases "\<exists>so. r = Some so \<and> \<not> so_deleted so")
    case True
    then obtain so where so: "r = Some so" "\<not> so_deleted so" by blast
    have gs: "so_GetState s1 so k = Some (w, s')" using assms(2) so g by (simp add: GetState_def)
    have l: "sdb_stateObjects s1 a = Some so" using v(5) so by simp
    show ?thesis using so_GetState_step [OF v(4) l gs] v so by (simp add: view_get_def obj_view_def)
  next
    case False
    then show ?thesis using assms(2) g v
      by (auto simp: GetState_def view_get_def obj_view_def split: option.splits)
  qed
qed

lemma GetOrNewStateObject_existing:
  assumes "wf_state s" "view s a = Some ov" "\<not> ov_deleted ov" "GetOrNewStateObject s a = (so, s1)"
  shows "ov = obj_view (source_of s1) so \<and> sdb_stateObjects s1 a = Some so \<and> wf_state s1 \<and> view s1 = view s"
proof -
  obtain r t where g: "getStateObject s a = (r, t)" by (meson surj_pair)
  note v = getStateObject_view [OF assms(1) g]
  obtain so' where "r = Some so'" "ov = obj_view (source_of s) so'"
    using assms(2) v(2) by (cases r) auto
  then show ?thesis using v assms(3,4) g by (auto simp: GetOrNewStateObject_def obj_view_def)
qed

text \<open>
  C3: after \<^verbatim>\<open>SetState\<close> on an existing account, \<^verbatim>\<open>GetState\<close> of the written key returns the value
  and every other key reads as before, wherever the slots live (dirty, cached, database or
  witness).
\<close>

theorem GetState_SetState:
  assumes "wf_state s" "view s a = Some ov" "\<not> ov_deleted ov"
    "SetState s a k v = Some s'" "GetState s' a k' = Some (w, s'')"
  shows "w = (if k' = k then v else ov_state ov k')"
proof -
  obtain so s1 where g: "GetOrNewStateObject s a = (so, s1)" by (meson surj_pair)
  note e = GetOrNewStateObject_existing [OF assms(1-3) g]
  then have st: "so_SetState s1 so k v = Some s'" "wf_state s1" "sdb_stateObjects s1 a = Some so"
    using assms(4) g by (auto simp: SetState_def)
  obtain so' where so': "sdb_stateObjects s' a = Some so'" "so_deleted so' = so_deleted so"
      "state_of (source_of s') so' = (state_of (source_of s1) so)(k := v)"
    using so_SetState_effect [OF st(2,3,1)] by blast
  have wf': "wf_state s'" by (rule ustep_wf [OF so_SetState_step [OF st(2,3,1)]])
  have "view s' a = Some (obj_view (source_of s') so')" by (rule view_loaded [OF so'(1)])
  then show ?thesis
    using GetState_view [OF wf' assms(5)] so' e assms(3) by (auto simp: view_get_def obj_view_def)
qed

theorem GetState_SetState_witness:
  "\<exists>s' s''. SetState (New demo_ext demo_reader) 7 1 8 = Some s' \<and> GetState s' 7 1 = Some (8, s'')"
proof -
  let ?s = "New demo_ext demo_reader"
  have wf: "wf_state ?s" by (simp add: wf_state_def wf_New)
  obtain ov where ov: "view ?s 7 = Some ov" "\<not> ov_deleted ov"
    by (simp add: view_def view_object_def with_increase_def obj_view_def state_eval)
  obtain s' where s': "SetState ?s 7 1 8 = Some s'"
    by (simp add: state_eval SetState_def so_SetState_def so_GetState_def so_GetCommittedState_def)
  moreover obtain w s'' where w: "GetState s' 7 1 = Some (w, s'')"
    using s' by (auto simp: state_eval SetState_def so_SetState_def so_GetState_def so_GetCommittedState_def
        reload_def so_setState_def GetState_def)
  ultimately show ?thesis using GetState_SetState [OF wf ov s' w] by auto
qed

section \<open>Totality\<close>

definition no_readable :: "IntraBlockState \<Rightarrow> bool" where
  "no_readable s \<longleftrightarrow> (case sdb_snap s of None \<Rightarrow> True | Some sn \<Rightarrow> CanWrite sn)"

lemma no_readable_source: "source_of t = source_of s \<Longrightarrow> no_readable t = no_readable s"
  by (auto simp: no_readable_def source_of_def split: option.splits if_splits)

lemma so_GetCommittedState_total: "no_readable s \<Longrightarrow> so_GetCommittedState s so k \<noteq> None"
proof (cases "so_fakeStorage so = None \<and> so_originStorage so k = None \<and> \<not> so_created so")
  case True
  assume "no_readable s"
  then have "slot_result (source_of s) x y z \<noteq> None" for x y z
    by (auto simp: no_readable_def source_of_def split: option.splits)
  then show ?thesis using True by (auto simp: so_GetCommittedState_load Let_def split: option.splits)
qed (auto simp: so_GetCommittedState_def split: option.splits)

lemma so_GetState_total: "no_readable s \<Longrightarrow> so_GetState s so k \<noteq> None"
  using so_GetCommittedState_total by (auto simp: so_GetState_def split: option.splits)

lemma so_SetState_total: "no_readable s \<Longrightarrow> so_SetState s so k v \<noteq> None"
  using so_GetState_total [of s so k] by (auto simp: so_SetState_def split: option.splits if_splits)

lemma AddSlotToAccessList_total: "wf_state s \<Longrightarrow> AddSlotToAccessList s a k \<noteq> None"
  using AddSlot_total [of "sdb_accessList s" a k]
  by (auto simp: AddSlotToAccessList_def Let_def wf_state_def wf_pending_def)

lemma add_slots_total: "wf_state s \<Longrightarrow> add_slots s a ks \<noteq> None"
proof (induction ks arbitrary: s)
  case (Cons k ks)
  obtain s1 where s1: "AddSlotToAccessList s a k = Some s1"
    using AddSlotToAccessList_total [OF Cons.prems] by blast
  then show ?case using Cons.IH [OF ustep_wf [OF AddSlotToAccessList_step [OF Cons.prems s1]]] by simp
qed simp

lemma add_access_list_total: "wf_state s \<Longrightarrow> add_access_list s l \<noteq> None"
proof (induction s l rule: add_access_list.induct)
  case (2 s a ks els)
  have w: "wf_state (AddAddressToAccessList s a)" by (rule ustep_wf [OF AddAddressToAccessList_step [OF 2(2)]])
  obtain s2 where s2: "add_slots (AddAddressToAccessList s a) a ks = Some s2" using add_slots_total [OF w] by blast
  then show ?case using 2(1) [OF s2 ustep_wf [OF add_slots_step [OF w s2]]] by simp
qed simp

lemma PrepareAccessList_total: "wf_state s \<Longrightarrow> PrepareAccessList s sender dst pre l \<noteq> None"
proof -
  assume wf: "wf_state s"
  let ?as = "sender # (case dst of None \<Rightarrow> [] | Some d \<Rightarrow> [d]) @ pre"
  have "PrepareAccessList s sender dst pre l = add_access_list (foldl AddAddressToAccessList s ?as) l"
    by (cases dst) (simp_all add: PrepareAccessList_def Let_def)
  then show ?thesis by (simp only: add_access_list_total [OF ustep_wf [OF add_addresses_step [OF wf]]] not_False_eq_True)
qed

lemma reached:
  assumes "wf_state s0" "sdb_validRevisions s0 = []" "ops_ok xs s0" "run_ops xs s0 = Some s"
  shows "\<exists>gs. run_inv s gs"
proof -
  have "run_inv s0 []" using assms(1,2) by (simp add: run_inv_def)
  then show ?thesis using run_ops_inv0 [OF _ assms(3,4)] by blast
qed

text \<open>
  C4: after any run of operations (nested snapshots and reverts included) from a well-formed state
  without valid revisions, such as a new one, and reading from no witness, no operation but a revert
  can panic, and a revert panics exactly when its revision is not valid. As in the theorem on
  reverting, \<open>ops_ok\<close> excludes runs that credit an account of the database that is not loaded or
  self-destruct one that the transaction created.
\<close>

theorem exec_op_panics_iff:
  assumes "wf_state s0" "sdb_validRevisions s0 = []" "ops_ok xs s0" "run_ops xs s0 = Some s" "no_readable s"
  shows "exec_op x s = None \<longleftrightarrow> (\<exists>i. x = OpRevert i \<and> i \<notin> rv_id ` set (sdb_validRevisions s))"
proof -
  obtain gs where inv: "run_inv s gs" using reached [OF assms(1-4)] by blast
  then have wf: "wf_state s" by (simp add: run_inv_def)
  have nr: "no_readable s'" if "getStateObject s a = (r, s')" for a r s'
    using getStateObject_view(3) [OF wf that] no_readable_source assms(5) by blast
  have nr': "no_readable s'" if "GetOrNewStateObject s a = (r, s')" for a r s'
    using GetOrNewStateObject_step [OF wf that] no_readable_source ustep_source assms(5) by blast
  have rv: "RevertToSnapshot s i = None \<longleftrightarrow> i \<notin> rv_id ` set (sdb_validRevisions s)" for i
  proof (cases "i \<in> rv_id ` set (sdb_validRevisions s)")
    case True
    then obtain r where r: "r \<in> set (sdb_validRevisions s)" "i = rv_id r" by auto
    obtain new g old where "gs = new @ (r, g) # old" by (rule split_revision [OF inv r(1)])
    then show ?thesis using run_inv_revert [of s new r g old] inv r by auto
  qed (use RevertToSnapshot_valid [of s i] in \<open>cases "RevertToSnapshot s i"; force simp: image_iff\<close>)
  have "SetState s a k v \<noteq> None" for a k v
    using so_SetState_total nr' by (auto simp: SetState_def split: prod.splits)
  moreover have "GetState s a k \<noteq> None" "GetCommittedState s a k \<noteq> None" for a k
    using so_GetState_total so_GetCommittedState_total nr
    by (auto simp: GetState_def GetCommittedState_def split: prod.splits option.splits)
  ultimately show ?thesis using AddSlotToAccessList_total [OF wf] PrepareAccessList_total [OF wf] rv
    by (cases x) auto
qed

theorem exec_op_panics_iff_witness:
  "\<exists>s. run_ops [OpSetNonce 7 3, OpSnapshot, OpSubBalance 7 1] (New demo_ext demo_reader) = Some s \<and>
     exec_op (OpRevert 0) s \<noteq> None \<and> exec_op (OpRevert 1) s = None \<and> exec_op (OpSetState 7 1 8) s \<noteq> None"
proof -
  let ?s0 = "New demo_ext demo_reader" and ?xs = "[OpSetNonce 7 3, OpSnapshot, OpSubBalance 7 1]"
  have w: "wf_state ?s0" "sdb_validRevisions ?s0 = []" by (simp add: wf_state_def wf_New) (simp add: New_def)
  have ok: "ops_ok ?xs ?s0" by simp
  obtain s where s: "run_ops ?xs ?s0 = Some s" by simp
  have "sdb_validRevisions s = [\<lparr>rv_id = 0, rv_journalIndex = 1\<rparr>]" "no_readable s"
    using s by (auto simp: state_eval no_readable_def)
  then show ?thesis
    using exec_op_panics_iff [OF w ok s, of "OpRevert 0"] exec_op_panics_iff [OF w ok s, of "OpRevert 1"]
      exec_op_panics_iff [OF w ok s, of "OpSetState 7 1 8"] s by simp
qed

section \<open>What the journal does not undo\<close>

text \<open>Reverting to the last snapshot undoes the entries since then and drops its revision.\<close>

lemma revert_last:
  assumes inv: "run_inv s gs" and sn: "Snapshot_take s = (i, s1)" and v: "sdb_validRevisions s2 = sdb_validRevisions s1"
    and e: "entries s2 = entries s @ es" and u: "revert_entries (rev es) s2 = Some u" "sdb_validRevisions u = sdb_validRevisions s2"
  shows "RevertToSnapshot s2 i = Some (u\<lparr>sdb_journal := (sdb_journal u)\<lparr>jn_entries := take (length (entries s)) (entries u)\<rparr>,
    sdb_validRevisions := sdb_validRevisions s\<rparr>)"
proof -
  let ?r = "\<lparr>rv_id = i, rv_journalIndex = length (entries s)\<rparr>" and ?n = "length (sdb_validRevisions s)"
  have r: "sdb_validRevisions s2 = sdb_validRevisions s @ [?r]" "i = sdb_nextRevisionID s"
    using sn v by (auto simp: Snapshot_take_def Let_def jn_length_def)
  have "sorted_wrt (<) (map rv_id (sdb_validRevisions s2))" using inv r by (auto simp: run_inv_def sorted_wrt_append)
  from search_revision [OF this, of ?n] have "sort_Search (length (sdb_validRevisions s2))
      (\<lambda>k. rv_id (sdb_validRevisions s2 ! k) \<ge> i) = ?n" by (simp add: r(1))
  then show ?thesis using e u by (simp add: RevertToSnapshot_def Let_def journal_revert_def r(1))
qed

text \<open>An account of the database that is not loaded: without an increase, and with one that waits.\<close>

definition initial_balance :: "StateAccount \<Rightarrow> u256" where
  "initial_balance acc = (if acc_Initialised acc then acc_Balance acc else 0)"

lemma newObject_balance:
  "acc_Balance (so_data (newObject s a acc orig)) = initial_balance acc" "\<not> so_deleted (newObject s a acc orig)"
  by (simp_all add: newObject_def initial_balance_def Let_def)

lemma GetBalance_db:
  assumes "sdb_stateObjects s a = None" "a \<notin> sdb_nilAccounts s" "ReadAccountData (sdb_stateReader s) a = (Some acc, None)"
    "sdb_balanceInc s a = None"
  shows "fst (GetBalance s a) = initial_balance acc"
  using getStateObject_db [OF assms(1,2) _ assms(3)] assms(4) by (simp add: GetBalance_def pending_def newObject_balance)

lemma GetBalance_loaded:
  "sdb_stateObjects s a = Some so \<Longrightarrow> \<not> so_deleted so \<Longrightarrow> fst (GetBalance s a) = acc_Balance (so_data so)"
  by (simp add: GetBalance_def getStateObject_def)

lemma GetBalance_waiting:
  assumes "sdb_stateObjects s a = None" "a \<notin> sdb_nilAccounts s" "ReadAccountData (sdb_stateReader s) a = (Some acc, None)"
    "sdb_balanceInc s a = Some bi" "\<not> bi_transferred bi" "s' = snd (GetBalance s a)"
  shows "\<exists>so. sdb_stateObjects s' a = Some so \<and> \<not> so_deleted so \<and> acc_Balance (so_data so) = initial_balance acc + bi_increase bi"
    "sdb_balanceInc s' = (sdb_balanceInc s)(a \<mapsto> bi\<lparr>bi_transferred := True\<rparr>)"
    "entries s' = entries s @ [balanceIncreaseTransfer a]" "sdb_validRevisions s' = sdb_validRevisions s"
proof -
  let ?x = "newObject (load_witness s a acc) a acc acc"
  have "getStateObject s a = (let (o', s') = setStateObject (load_witness s a acc) a ?x in (Some o', s'))"
    using assms(1-3) by (simp add: getStateObject_def load_witness_def [symmetric] Let_def)
  moreover have "pending (load_witness s a acc) a" using assms(4,5) by (simp add: pending_def)
  ultimately have "s' = snd (setStateObject (load_witness s a acc) a ?x)"
    using assms(6) by (simp add: GetBalance_def setStateObject_eq)
  then show "\<exists>so. sdb_stateObjects s' a = Some so \<and> \<not> so_deleted so \<and> acc_Balance (so_data so) = initial_balance acc + bi_increase bi"
    "sdb_balanceInc s' = (sdb_balanceInc s)(a \<mapsto> bi\<lparr>bi_transferred := True\<rparr>)"
    "entries s' = entries s @ [balanceIncreaseTransfer a]" "sdb_validRevisions s' = sdb_validRevisions s"
    using assms(4,5) by (simp_all add: setStateObject_def journal_append_def newObject_balance)
qed

text \<open>
  C5: crediting an account that is in the database but not loaded is undone only as long as nobody
  reads it. In any state reached by a run of operations (with the same exclusions), credit such an
  account, for which no increase is recorded
  (the credit of 0 to address 3, which loads the account, aside), after a snapshot. Reverting at once
  restores the balance. But if the balance is read in between, the account is loaded with the credit
  added; the revert then clears the recorded increase and leaves the loaded object, and the balance
  reads the credit more than before.
\<close>

theorem AddBalance_undone_unless_read:
  assumes "wf_state s0" "sdb_validRevisions s0 = []" "ops_ok pre s0" "run_ops pre s0 = Some s"
    and "in_db s a" "\<not> loaded s a" "sdb_balanceInc s a = None" "a \<noteq> 3 \<or> v \<noteq> 0" and sn: "Snapshot_take s = (i, s1)"
  shows "(\<exists>t. RevertToSnapshot (AddBalance s1 a v) i = Some t \<and> fst (GetBalance t a) = fst (GetBalance s a)) \<and>
    (\<exists>t. RevertToSnapshot (snd (GetBalance (AddBalance s1 a v) a)) i = Some t \<and> fst (GetBalance t a) = fst (GetBalance s a) + v)"
proof -
  obtain gs where inv: "run_inv s gs" using reached [OF assms(1-4)] by blast
  obtain acc where rd: "ReadAccountData (sdb_stateReader s) a = (Some acc, None)"
    using assms(5) by (auto simp: in_db_def split: prod.splits option.splits)
  have nil: "a \<notin> sdb_nilAccounts s" using inv rd by (auto simp: run_inv_def wf_state_def wf_objects_def)
  have un: "sdb_stateObjects s a = None" using assms(6) by simp
  define s2 where "s2 = AddBalance s1 a v"
  let ?bi = "\<lparr>bi_increase = v, bi_transferred = False, bi_count = 1\<rparr>"
  have s2: "sdb_stateObjects s2 = sdb_stateObjects s" "sdb_balanceInc s2 = (sdb_balanceInc s)(a \<mapsto> ?bi)"
      "entries s2 = entries s @ [balanceIncrease a v]" "sdb_validRevisions s2 = sdb_validRevisions s1"
      "sdb_nilAccounts s2 = sdb_nilAccounts s" "sdb_stateReader s2 = sdb_stateReader s"
    unfolding s2_def using sn un assms(7,8) by (auto simp: AddBalance_def Snapshot_take_def Let_def)
  have b: "fst (GetBalance s a) = initial_balance acc" by (rule GetBalance_db [OF un nil rd assms(7)])
  obtain u where u: "revert_entries (rev [balanceIncrease a v]) s2 = Some u" "sdb_validRevisions u = sdb_validRevisions s2"
      "sdb_stateObjects u a = None" "a \<notin> sdb_nilAccounts u" "ReadAccountData (sdb_stateReader u) a = (Some acc, None)"
      "sdb_balanceInc u a = None"
    using s2 un nil rd by simp
  have "\<exists>t. RevertToSnapshot s2 i = Some t \<and> fst (GetBalance t a) = fst (GetBalance s a)"
    using revert_last [OF inv sn s2(4,3) u(1,2)] u(3-6) by (auto simp: b intro!: GetBalance_db)
  moreover have "\<exists>t. RevertToSnapshot (snd (GetBalance s2 a)) i = Some t \<and> fst (GetBalance t a) = fst (GetBalance s a) + v"
  proof -
    define s3 where "s3 = snd (GetBalance s2 a)"
    have w: "sdb_stateObjects s2 a = None" "a \<notin> sdb_nilAccounts s2" "ReadAccountData (sdb_stateReader s2) a = (Some acc, None)"
      "sdb_balanceInc s2 a = Some ?bi" using s2 un nil rd by simp_all
    obtain so where so: "sdb_stateObjects s3 a = Some so" "\<not> so_deleted so" "acc_Balance (so_data so) = initial_balance acc + v"
      using GetBalance_waiting(1) [OF w _ s3_def] by auto
    have s3: "sdb_balanceInc s3 = (sdb_balanceInc s2)(a \<mapsto> ?bi\<lparr>bi_transferred := True\<rparr>)"
        "entries s3 = entries s @ [balanceIncrease a v, balanceIncreaseTransfer a]" "sdb_validRevisions s3 = sdb_validRevisions s1"
      using GetBalance_waiting(2-4) [OF w _ s3_def] s2(3,4) by simp_all
    obtain u where u: "revert_entries (rev [balanceIncrease a v, balanceIncreaseTransfer a]) s3 = Some u"
        "sdb_validRevisions u = sdb_validRevisions s3" "sdb_stateObjects u a = Some so"
      using s3 so by simp
    show ?thesis
      using revert_last [OF inv sn s3(3,2) u(1,2)] u(3) so(2,3) by (auto simp: b s3_def [symmetric] GetBalance_loaded)
  qed
  ultimately show ?thesis by (simp add: s2_def)
qed

theorem AddBalance_undone_unless_read_witness:
  "\<exists>s s1 t. run_ops [OpSetNonce 9 3] (New demo_ext demo_reader) = Some s \<and> Snapshot_take s = (0, s1) \<and>
     RevertToSnapshot (snd (GetBalance (AddBalance s1 7 5) 7)) 0 = Some t \<and>
     fst (GetBalance s 7) = 100 \<and> fst (GetBalance t 7) = 105"
proof -
  let ?s0 = "New demo_ext demo_reader" and ?xs = "[OpSetNonce 9 3]"
  have w: "wf_state ?s0" "sdb_validRevisions ?s0 = []" by (simp add: wf_state_def wf_New) (simp add: New_def)
  have ok: "ops_ok ?xs ?s0" by simp
  obtain s where s: "run_ops ?xs ?s0 = Some s" by simp
  have f: "in_db s 7" "\<not> loaded s 7" "sdb_balanceInc s 7 = None" "(7 :: address) \<noteq> 3 \<or> (5 :: u256) \<noteq> 0"
      "fst (GetBalance s 7) = 100" using s by (auto simp: state_eval)
  obtain s1 where sn: "Snapshot_take s = (0, s1)" using s by (auto simp: state_eval)
  show ?thesis using AddBalance_undone_unless_read [OF w ok s f(1-4) sn] s sn f(5) by auto
qed

lemma revert_selfdestruct:
  assumes inv: "run_inv s gs" and so: "sdb_stateObjects s a = Some so" "\<not> so_deleted so" and sn: "Snapshot_take s = (i, s1)"
  shows "\<exists>t. RevertToSnapshot (snd (Selfdestruct s1 a)) i = Some t \<and> source_of t = source_of s \<and>
    sdb_stateObjects t = (sdb_stateObjects s)(a \<mapsto> so\<lparr>so_created := False\<rparr>) \<and> sdb_balanceInc t = sdb_balanceInc s"
proof -
  have ad: "so_address so = a" "acc_Initialised (so_data so)"
    using inv wf_objects_object [OF _ so(1)] by (simp_all add: run_inv_def wf_object_def)
  have d: "(so_data so)\<lparr>acc_Initialised := True\<rparr> = so_data so" using ad(2) by simp
  define s2 where "s2 = snd (Selfdestruct s1 a)"
  let ?x = "so\<lparr>so_selfdestructed := True, so_created := False, so_data := (so_data so)\<lparr>acc_Balance := 0\<rparr>\<rparr>"
    and ?e = "selfdestructChange a (so_selfdestructed so) (acc_Balance (so_data so))"
  have s2: "sdb_stateObjects s2 = (sdb_stateObjects s)(a \<mapsto> ?x)" "entries s2 = entries s @ [?e]"
      "sdb_validRevisions s2 = sdb_validRevisions s1" "source_of s2 = source_of s" "sdb_balanceInc s2 = sdb_balanceInc s"
    unfolding s2_def using sn so ad by (auto simp: Selfdestruct_def getStateObject_def Snapshot_take_def Let_def)
  have g: "getStateObject s2 a = (Some ?x, s2)" using s2(1) by (simp add: getStateObject_def)
  have "\<exists>u. revert_entries (rev [?e]) s2 = Some u \<and> sdb_validRevisions u = sdb_validRevisions s2 \<and>
      sdb_stateObjects u = (sdb_stateObjects s)(a \<mapsto> so\<lparr>so_created := False\<rparr>) \<and> source_of u = source_of s \<and>
      sdb_balanceInc u = sdb_balanceInc s"
    using s2 ad(1) d by (simp add: g so_setBalance_def)
  then obtain u where u: "revert_entries (rev [?e]) s2 = Some u" "sdb_validRevisions u = sdb_validRevisions s2"
      "sdb_stateObjects u = (sdb_stateObjects s)(a \<mapsto> so\<lparr>so_created := False\<rparr>)" "source_of u = source_of s"
      "sdb_balanceInc u = sdb_balanceInc s" by blast
  define t where "t = u\<lparr>sdb_journal := (sdb_journal u)\<lparr>jn_entries := take (length (entries s)) (entries u)\<rparr>,
    sdb_validRevisions := sdb_validRevisions s\<rparr>"
  have t: "RevertToSnapshot s2 i = Some t" unfolding t_def by (rule revert_last [OF inv sn s2(3,2) u(1,2)])
  then show ?thesis using u(3-5) by (simp add: t_def s2_def)
qed

text \<open>
  C6: reverting a self-destruct restores everything of the account but the mark that the transaction
  created it. In any state reached by a run of operations (with the same exclusions as for reverting,
  so the run itself does not self-destruct what it created), take a snapshot, self-destruct an account that is loaded
  and not deleted, and revert: the objects are those of before, except that the account is no longer
  marked as created. So the revert shows what was there before exactly when the account was not
  created in the transaction. If it was, a slot that was neither written nor cached (and no storage is
  overridden) read 0 before, and reads what the database, or the witness in its place, has for the
  address and incarnation after the revert.
\<close>

theorem Selfdestruct_undone_but_created:
  assumes "wf_state s0" "sdb_validRevisions s0 = []" "ops_ok pre s0" "run_ops pre s0 = Some s"
    and so: "sdb_stateObjects s a = Some so" "\<not> so_deleted so" and sn: "Snapshot_take s = (i, s1)"
  shows "\<exists>t. RevertToSnapshot (snd (Selfdestruct s1 a)) i = Some t \<and>
    sdb_stateObjects t = (sdb_stateObjects s)(a \<mapsto> so\<lparr>so_created := False\<rparr>) \<and> source_of t = source_of s \<and>
    (view t = view s \<longleftrightarrow> \<not> so_created so) \<and>
    (\<forall>k. so_created so \<and> so_fakeStorage so = None \<and> so_dirtyStorage so k = None \<and> so_originStorage so k = None \<longrightarrow>
       GetState s a k = Some (0, s) \<and>
       (\<forall>w t'. GetState t a k = Some (w, t') \<longrightarrow> w = slot_value (source_of s) a (acc_Incarnation (so_data so)) k))"
proof -
  obtain gs where inv: "run_inv s gs" using reached [OF assms(1-4)] by blast
  then have ad: "so_address so = a" using wf_objects_address [OF _ so(1)] by (simp add: run_inv_def)
  obtain t where t: "RevertToSnapshot (snd (Selfdestruct s1 a)) i = Some t"
    and f: "sdb_stateObjects t = (sdb_stateObjects s)(a \<mapsto> so\<lparr>so_created := False\<rparr>)" "source_of t = source_of s"
      "sdb_balanceInc t = sdb_balanceInc s"
    using revert_selfdestruct [OF inv so sn] by blast
  have va: "view t a = Some (obj_view (source_of s) (so\<lparr>so_created := False\<rparr>))" "view s a = Some (obj_view (source_of s) so)"
    using view_loaded [of t a "so\<lparr>so_created := False\<rparr>"] view_loaded [OF so(1)] f by simp_all
  have "view t b = view s b" if "b \<noteq> a" for b using f that by (intro view_cong) auto
  moreover have "view t a = view s a \<longleftrightarrow> \<not> so_created so"
  proof (cases "so_created so")
    case True
    then show ?thesis using va by (simp add: obj_view_def)
  next
    case False
    then have e: "so\<lparr>so_created := False\<rparr> = so" by simp
    show ?thesis unfolding va e using False by simp
  qed
  ultimately have v: "view t = view s \<longleftrightarrow> \<not> so_created so" by (metis ext)
  have r: "GetState s a k = Some (0, s)" "GetState t a k = Some (w, t') \<Longrightarrow> w = slot_value (source_of s) a (acc_Incarnation (so_data so)) k"
    if "so_created so" "so_fakeStorage so = None" "so_dirtyStorage so k = None" "so_originStorage so k = None" for k w t'
    using that so ad f so_GetCommittedState_load [of "so\<lparr>so_created := False\<rparr>" k t]
    by (auto simp: GetState_def getStateObject_def so_GetState_def so_GetCommittedState_def slot_value_def Let_def
        split: option.splits prod.splits)
  show ?thesis using t f(1,2) v r by blast
qed

text \<open>A database with the value 5 in every slot.\<close>

definition full_reader :: StateReader where
  "full_reader = demo_reader\<lparr>ReadAccountStorage := (\<lambda>_ _ _. (Some [5], None))\<rparr>"

theorem Selfdestruct_undone_but_created_witness:
  "\<exists>s s1 t t'. run_ops [OpCreateAccount 9 True] (New demo_ext full_reader) = Some s \<and> Snapshot_take s = (0, s1) \<and>
     RevertToSnapshot (snd (Selfdestruct s1 9)) 0 = Some t \<and> view t \<noteq> view s \<and>
     GetState s 9 1 = Some (0, s) \<and> GetState t 9 1 = Some (5, t')"
proof -
  let ?s0 = "New demo_ext full_reader" and ?xs = "[OpCreateAccount 9 True]"
  have w: "wf_state ?s0" "sdb_validRevisions ?s0 = []" by (simp add: wf_state_def wf_New) (simp add: New_def)
  have ok: "ops_ok ?xs ?s0" by simp
  obtain s where s: "run_ops ?xs ?s0 = Some s" by simp
  have src: "source_of s = (demo_ext, full_reader, None)" "no_readable s"
    using s by (auto simp: state_eval full_reader_def source_of_def no_readable_def)
  obtain so where so: "sdb_stateObjects s 9 = Some so" "\<not> so_deleted so" "so_created so" "so_fakeStorage so = None"
      "so_dirtyStorage so 1 = None" "so_originStorage so 1 = None"
    using s by (auto simp: state_eval full_reader_def)
  obtain s1 where sn: "Snapshot_take s = (0, s1)" using s by (auto simp: state_eval full_reader_def)
  obtain t where t: "RevertToSnapshot (snd (Selfdestruct s1 9)) 0 = Some t" "source_of t = source_of s" "view t \<noteq> view s"
      "GetState s 9 1 = Some (0, s)" "sdb_stateObjects t 9 = Some (so\<lparr>so_created := False\<rparr>)"
      "\<And>w t'. GetState t 9 1 = Some (w, t') \<Longrightarrow> w = slot_value (source_of s) 9 (acc_Incarnation (so_data so)) 1"
    using Selfdestruct_undone_but_created [OF w ok s so(1,2) sn] so by auto
  have "no_readable t" using no_readable_source [OF t(2)] src(2) by simp
  then obtain w t' where w: "GetState t 9 1 = Some (w, t')"
    using t(5) so(2) so_GetState_total [of t "so\<lparr>so_created := False\<rparr>" 1] by (auto simp: GetState_def getStateObject_def)
  have "w = 5" using t(6) [OF w] src(1) by (simp add: slot_value_def full_reader_def bytes_to_u256_def)
  then show ?thesis using s sn t w by blast
qed

end
