(* ===== verification/Evm_Base.thy ===== *)
theory Evm_Base
  imports Amc_Prelude "HOL-Library.Monad_Syntax"
begin

text \<open>
  What the virtual machine is built on: overflow-checked arithmetic (\<^verbatim>\<open>common/math/integer.go\<close>),
  padding (\<^verbatim>\<open>common/types/bytes.go\<close>), the operand stack (\<^verbatim>\<open>internal/vm/stack/stack.go\<close>), the
  byte memory (\<^verbatim>\<open>memory.go\<close>), and the size computations (\<^verbatim>\<open>common.go\<close>, \<^verbatim>\<open>memory_table.go\<close>).
  A panic is \<open>None\<close>; a nil slice is an inner \<open>None\<close>.
\<close>

unbundle bit_operations_syntax

section \<open>Checked arithmetic\<close>

definition SafeAdd :: "u64 \<Rightarrow> u64 \<Rightarrow> u64 \<times> bool" where
  "SafeAdd x y = (x + y, 2 ^ 64 \<le> unat x + unat y)"

definition SafeSub :: "u64 \<Rightarrow> u64 \<Rightarrow> u64 \<times> bool" where
  "SafeSub x y = (x - y, unat x < unat y)"

definition SafeMul :: "u64 \<Rightarrow> u64 \<Rightarrow> u64 \<times> bool" where
  "SafeMul x y = (x * y, 2 ^ 64 \<le> unat x * unat y)"

definition AbsoluteDifference :: "u64 \<Rightarrow> u64 \<Rightarrow> u64" where
  "AbsoluteDifference x y = (if x > y then x - y else y - x)"

lemma unat_u64_less: "unat (x :: u64) < 2 ^ 64"
  using unsigned_less [of x, where 'a = nat] by simp

lemma SafeAdd_exact: "SafeAdd x y = (z, False) \<Longrightarrow> unat z = unat x + unat y"
  by (auto simp: SafeAdd_def unat_word_ariths)

lemma SafeMul_exact: "SafeMul x y = (z, False) \<Longrightarrow> unat z = unat x * unat y"
  by (auto simp: SafeMul_def unat_word_ariths)

lemma SafeSub_exact: "SafeSub x y = (z, False) \<Longrightarrow> unat z = unat x - unat y"
  by (auto simp: SafeSub_def unat_sub_if_size word_le_nat_alt)

section \<open>Words as machine integers\<close>

text \<open>\<^verbatim>\<open>uint256.Int\<close>: whether the value fits 64 bits, its low limb, and both at once.\<close>

definition IsUint64 :: "u256 \<Rightarrow> bool" where
  "IsUint64 z \<longleftrightarrow> drop_bit 64 z = 0"

definition Uint64 :: "u256 \<Rightarrow> u64" where
  "Uint64 z = ucast z"

definition Uint64WithOverflow :: "u256 \<Rightarrow> u64 \<times> bool" where
  "Uint64WithOverflow z = (Uint64 z, \<not> IsUint64 z)"

definition Bytes20 :: "u256 \<Rightarrow> address" where
  "Bytes20 z = ucast z"

lemma IsUint64_iff: "IsUint64 z \<longleftrightarrow> unat z < 2 ^ 64"
proof -
  have "drop_bit 64 z = 0 \<longleftrightarrow> unat (drop_bit 64 z) = 0" by (simp add: unat_eq_0)
  also have "\<dots> \<longleftrightarrow> unat z div 2 ^ 64 = 0" unfolding unat_drop_bit_eq by (simp add: drop_bit_eq_div)
  also have "\<dots> \<longleftrightarrow> unat z < 2 ^ 64" by (simp add: div_eq_0_iff)
  finally show ?thesis by (simp add: IsUint64_def)
qed

lemma unat_Uint64: "IsUint64 z \<Longrightarrow> unat (Uint64 z) = unat z"
  by (simp add: IsUint64_iff Uint64_def unsigned_ucast_eq take_bit_eq_mod)

section \<open>Padding\<close>

definition RightPadBytes :: "byte list \<Rightarrow> int \<Rightarrow> byte list" where
  "RightPadBytes bs l = (if l \<le> int (length bs) then bs
     else bs @ replicate (nat l - length bs) 0)"

definition LeftPadBytes :: "byte list \<Rightarrow> int \<Rightarrow> byte list" where
  "LeftPadBytes bs l = (if l \<le> int (length bs) then bs
     else replicate (nat l - length bs) 0 @ bs)"

lemma length_RightPadBytes: "int (length (RightPadBytes s l)) = max l (int (length s))"
  by (auto simp: RightPadBytes_def)

lemma length_LeftPadBytes: "int (length (LeftPadBytes s l)) = max l (int (length s))"
  by (auto simp: LeftPadBytes_def)

section \<open>The operand stack\<close>

text \<open>
  \<^verbatim>\<open>Stack.Data\<close> from its last element, the top of the stack, to its first. Indexing outside the
  slice panics.
\<close>

type_synonym stack = "u256 list"

definition st_Push :: "stack \<Rightarrow> u256 \<Rightarrow> stack" where
  "st_Push st d = d # st"

definition st_PushN :: "stack \<Rightarrow> u256 list \<Rightarrow> stack" where
  "st_PushN st ds = rev ds @ st"

definition st_Pop :: "stack \<Rightarrow> (u256 \<times> stack) option" where
  "st_Pop st = (case st of [] \<Rightarrow> None | x # st' \<Rightarrow> Some (x, st'))"

definition st_Peek :: "stack \<Rightarrow> u256 option" where
  "st_Peek st = (case st of [] \<Rightarrow> None | x # _ \<Rightarrow> Some x)"

definition st_Back :: "stack \<Rightarrow> nat \<Rightarrow> u256 option" where
  "st_Back st n = (if n < length st then Some (st ! n) else None)"

definition st_Swap :: "stack \<Rightarrow> nat \<Rightarrow> stack option" where
  "st_Swap st n = (if 1 \<le> n \<and> n \<le> length st
     then Some (st[n - 1 := st ! 0, 0 := st ! (n - 1)]) else None)"

definition st_Dup :: "stack \<Rightarrow> nat \<Rightarrow> stack option" where
  "st_Dup st n = (if 1 \<le> n \<and> n \<le> length st then Some (st ! (n - 1) # st) else None)"

definition st_Len :: "stack \<Rightarrow> nat" where
  "st_Len st = length st"

definition st_Reset :: "stack \<Rightarrow> stack" where
  "st_Reset st = []"

lemma st_Swap_nth:
  assumes "st_Swap st n = Some st'" "i < length st"
  shows "length st' = length st"
    "st' ! i = (if i = 0 then st ! (n - 1) else if i = n - 1 then st ! 0 else st ! i)"
proof -
  have "0 < length st" using assms(2) by linarith
  then show "length st' = length st"
    "st' ! i = (if i = 0 then st ! (n - 1) else if i = n - 1 then st ! 0 else st ! i)"
    using assms by (auto simp: st_Swap_def nth_list_update split: if_splits)
qed

lemma st_Swap_involutive:
  assumes "st_Swap st n = Some st'" shows "st_Swap st' n = Some st"
proof -
  have n: "1 \<le> n" "n \<le> length st" using assms by (auto simp: st_Swap_def split: if_splits)
  then have ne: "0 < length st" by linarith
  have l: "length st' = length st" by (rule st_Swap_nth(1) [OF assms ne])
  obtain st'' where s: "st_Swap st' n = Some st''" using n l by (simp add: st_Swap_def)
  have "st'' = st"
  proof (rule nth_equalityI)
    show len: "length st'' = length st" using st_Swap_nth(1) [OF s, of 0] ne l by simp
    fix i assume "i < length st''"
    then show "st'' ! i = st ! i"
      using n l len st_Swap_nth(2) [OF s, of i] st_Swap_nth(2) [OF assms, of i]
        st_Swap_nth(2) [OF assms ne] st_Swap_nth(2) [OF assms, of "n - 1"]
      by (auto split: if_splits)
  qed
  then show ?thesis using s by simp
qed

section \<open>Memory\<close>

record Memory =
  m_store :: "byte list"
  m_lastGasCost :: u64

definition NewMemory :: Memory where
  "NewMemory = \<lparr>m_store = [], m_lastGasCost = 0\<rparr>"

abbreviation mem_Len :: "Memory \<Rightarrow> nat" where
  "mem_Len m \<equiv> length (m_store m)"

text \<open>\<^verbatim>\<open>copy(dst[off:off+n], src)\<close>: as many bytes as both sides have.\<close>

definition copy_at :: "byte list \<Rightarrow> nat \<Rightarrow> nat \<Rightarrow> byte list \<Rightarrow> byte list" where
  "copy_at dst off n src = take off dst @ take n src @ drop (off + min n (length src)) dst"

lemma length_copy_at: "off + n \<le> length dst \<Longrightarrow> length (copy_at dst off n src) = length dst"
  by (auto simp: copy_at_def min_def)

definition mem_Set :: "Memory \<Rightarrow> u64 \<Rightarrow> u64 \<Rightarrow> byte list \<Rightarrow> Memory option" where
  "mem_Set m offset sz v =
     (if sz > 0 then
        (if unat (offset + sz) > mem_Len m then None
         else if offset + sz < offset then None
         else Some (m\<lparr>m_store := copy_at (m_store m) (unat offset) (unat sz) v\<rparr>))
      else Some m)"

definition mem_Set32 :: "Memory \<Rightarrow> u64 \<Rightarrow> u256 \<Rightarrow> Memory option" where
  "mem_Set32 m offset val =
     (if unat (offset + 32) > mem_Len m then None
      else if offset + 32 < offset then None
      else Some (m\<lparr>m_store := copy_at (copy_at (m_store m) (unat offset) 32 (replicate 32 0))
                               (unat offset) 32 (word_to_bytes 32 val)\<rparr>))"

definition mem_Resize :: "Memory \<Rightarrow> u64 \<Rightarrow> Memory" where
  "mem_Resize m sz =
     (let l = sint sz - int (mem_Len m) in
      if l \<le> 0 then m else m\<lparr>m_store := m_store m @ replicate (nat l) 0\<rparr>)"

definition mem_Reset :: "Memory \<Rightarrow> Memory" where
  "mem_Reset m = m\<lparr>m_lastGasCost := 0, m_store := []\<rparr>"

definition GetCopy :: "Memory \<Rightarrow> int \<Rightarrow> int \<Rightarrow> byte list option option" where
  "GetCopy m offset sz =
     (if sz = 0 then Some None
      else if int (mem_Len m) > offset then
        (if sz < 0 \<or> offset < 0 then None
         else (let avail = take (nat sz) (drop (nat offset) (m_store m))
               in Some (Some (avail @ replicate (nat sz - length avail) 0))))
      else Some None)"

text \<open>
  Slicing past the length panics here; the source could reslice up to the capacity of the store.
  The interpreter never does: it grows the memory before every access (shown with the
  instructions).
\<close>

definition GetPtr :: "Memory \<Rightarrow> int \<Rightarrow> int \<Rightarrow> byte list option option" where
  "GetPtr m offset sz =
     (if sz = 0 then Some None
      else if int (mem_Len m) > offset then
        (if offset < 0 \<or> sz < 0 \<or> offset + sz > int (mem_Len m) then None
         else Some (Some (take (nat sz) (drop (nat offset) (m_store m)))))
      else Some None)"

lemma mem_Resize_fields [simp]: "m_lastGasCost (mem_Resize m n) = m_lastGasCost m"
  by (simp add: mem_Resize_def Let_def)

lemma sint_u64_small:
  assumes "unat (w :: u64) < 2 ^ 63" shows "sint w = int (unat w)"
proof -
  have "bit (unat w) 63 = bit w 63" by (simp add: bit_unsigned_iff)
  moreover have "\<not> bit (unat w) 63" using assms by (simp add: bit_iff_odd)
  ultimately have nb: "\<not> bit (uint w) 63" by (simp add: bit_unsigned_iff)
  have lt: "uint w < 2 ^ 63" using assms by (simp only: unat_eq_nat_uint nat_less_iff uint_ge_0) simp
  have "sint w = signed_take_bit 63 (uint w)" by (simp add: sint_uint)
  also have "\<dots> = take_bit 63 (uint w)" by (rule signed_take_bit_eq_if_positive [OF nb])
  also have "\<dots> = uint w" using lt by (intro take_bit_int_eq_self) simp_all
  finally show ?thesis by simp
qed

lemma mem_Resize_eq:
  assumes "unat n < 2 ^ 63"
  shows "mem_Resize m n = (if unat n \<le> mem_Len m then m
     else m\<lparr>m_store := m_store m @ replicate (unat n - mem_Len m) 0\<rparr>)"
proof -
  have e: "sint n = int (unat n)" by (rule sint_u64_small [OF assms])
  have "sint n - int (mem_Len m) \<le> 0 \<longleftrightarrow> unat n \<le> mem_Len m"
      "nat (sint n - int (mem_Len m)) = unat n - mem_Len m"
    using e by linarith+
  then show ?thesis by (simp add: mem_Resize_def Let_def)
qed

lemma mem_Resize_len: "unat n < 2 ^ 63 \<Longrightarrow> mem_Len (mem_Resize m n) = max (unat n) (mem_Len m)"
  by (simp add: mem_Resize_eq)

lemma mem_Resize_prefix: "take (mem_Len m) (m_store (mem_Resize m n)) = m_store m"
  by (simp add: mem_Resize_def Let_def)

section \<open>Sizes\<close>

definition calcMemSize64WithUint :: "u256 \<Rightarrow> u64 \<Rightarrow> u64 \<times> bool" where
  "calcMemSize64WithUint off length64 =
     (if length64 = 0 then (0, False)
      else (let (offset64, overflow) = Uint64WithOverflow off in
            if overflow then (0, True)
            else (let v = offset64 + length64 in (v, v < offset64))))"

definition calcMemSize64 :: "u256 \<Rightarrow> u256 \<Rightarrow> u64 \<times> bool" where
  "calcMemSize64 off l = (if \<not> IsUint64 l then (0, True) else calcMemSize64WithUint off (Uint64 l))"

definition getData :: "byte list \<Rightarrow> u64 \<Rightarrow> u64 \<Rightarrow> byte list option" where
  "getData data start sz =
     (let len = of_nat (length data) :: u64;
          start' = (if start > len then len else start);
          e = start' + sz;
          e' = (if e > len then len else e)
      in if e' < start' then None
         else Some (RightPadBytes (take (unat e' - unat start') (drop (unat start') data)) (sint sz)))"

definition getDataBig :: "byte list \<Rightarrow> u256 \<Rightarrow> u64 \<Rightarrow> byte list option" where
  "getDataBig data start sz =
     (let (start64, overflow) = Uint64WithOverflow start
      in getData data (if overflow then - 1 else start64) sz)"

definition ToWordSize :: "u64 \<Rightarrow> u64" where
  "ToWordSize sz = (if sz > - 1 - 31 then (- 1) div 32 + 1 else (sz + 31) div 32)"

definition allZero :: "byte list \<Rightarrow> bool" where
  "allZero b = list_all (\<lambda>x. x = 0) b"

text \<open>The memory an instruction touches, from its operands (\<^verbatim>\<open>memory_table.go\<close>).\<close>

definition mem_size_of :: "nat \<Rightarrow> nat \<Rightarrow> stack \<Rightarrow> (u64 \<times> bool) option" where
  "mem_size_of i j st = do { off \<leftarrow> st_Back st i; l \<leftarrow> st_Back st j; Some (calcMemSize64 off l) }"

definition memoryKeccak256 :: "stack \<Rightarrow> (u64 \<times> bool) option" where
  "memoryKeccak256 = mem_size_of 0 1"

definition memoryCallDataCopy :: "stack \<Rightarrow> (u64 \<times> bool) option" where
  "memoryCallDataCopy = mem_size_of 0 2"

definition memoryReturnDataCopy :: "stack \<Rightarrow> (u64 \<times> bool) option" where
  "memoryReturnDataCopy = mem_size_of 0 2"

definition memoryCodeCopy :: "stack \<Rightarrow> (u64 \<times> bool) option" where
  "memoryCodeCopy = mem_size_of 0 2"

definition memoryExtCodeCopy :: "stack \<Rightarrow> (u64 \<times> bool) option" where
  "memoryExtCodeCopy = mem_size_of 1 3"

definition memoryMLoad :: "stack \<Rightarrow> (u64 \<times> bool) option" where
  "memoryMLoad st = do { off \<leftarrow> st_Back st 0; Some (calcMemSize64WithUint off 32) }"

definition memoryMStore8 :: "stack \<Rightarrow> (u64 \<times> bool) option" where
  "memoryMStore8 st = do { off \<leftarrow> st_Back st 0; Some (calcMemSize64WithUint off 1) }"

definition memoryMStore :: "stack \<Rightarrow> (u64 \<times> bool) option" where
  "memoryMStore st = do { off \<leftarrow> st_Back st 0; Some (calcMemSize64WithUint off 32) }"

definition memoryCreate :: "stack \<Rightarrow> (u64 \<times> bool) option" where
  "memoryCreate = mem_size_of 1 2"

definition memoryCreate2 :: "stack \<Rightarrow> (u64 \<times> bool) option" where
  "memoryCreate2 = mem_size_of 1 2"

definition mem_size_max :: "nat \<Rightarrow> nat \<Rightarrow> nat \<Rightarrow> nat \<Rightarrow> stack \<Rightarrow> (u64 \<times> bool) option" where
  "mem_size_max i j k l st = do {
     (x, overflow) \<leftarrow> mem_size_of i j st;
     if overflow then Some (0, True) else do {
       (y, overflow) \<leftarrow> mem_size_of k l st;
       if overflow then Some (0, True)
       else if x > y then Some (x, False) else Some (y, False) } }"

definition memoryCall :: "stack \<Rightarrow> (u64 \<times> bool) option" where
  "memoryCall = mem_size_max 5 6 3 4"

definition memoryDelegateCall :: "stack \<Rightarrow> (u64 \<times> bool) option" where
  "memoryDelegateCall = mem_size_max 4 5 2 3"

definition memoryStaticCall :: "stack \<Rightarrow> (u64 \<times> bool) option" where
  "memoryStaticCall = mem_size_max 4 5 2 3"

definition memoryReturn :: "stack \<Rightarrow> (u64 \<times> bool) option" where
  "memoryReturn = mem_size_of 0 1"

definition memoryRevert :: "stack \<Rightarrow> (u64 \<times> bool) option" where
  "memoryRevert = mem_size_of 0 1"

definition memoryLog :: "stack \<Rightarrow> (u64 \<times> bool) option" where
  "memoryLog = mem_size_of 0 1"

section \<open>What the size computations guarantee\<close>

lemma calcMemSize64WithUint_exact:
  assumes "calcMemSize64WithUint off l = (n, False)"
  shows "l = 0 \<and> n = 0 \<or> IsUint64 off \<and> unat n = unat off + unat l \<and> l \<noteq> 0"
proof (cases "l = 0")
  case False
  then have o: "IsUint64 off" and n: "n = Uint64 off + l" "\<not> n < Uint64 off"
    using assms by (auto simp: calcMemSize64WithUint_def Uint64WithOverflow_def Let_def split: if_splits)
  then have "Uint64 off \<le> Uint64 off + l" by simp
  then have "unat n = unat (Uint64 off) + unat l" using n(1) unat_plus_simple by blast
  then show ?thesis using o False by (simp add: unat_Uint64)
qed (use assms in \<open>simp add: calcMemSize64WithUint_def\<close>)

lemma calcMemSize64_exact:
  assumes "calcMemSize64 off l = (n, False)"
  shows "l = 0 \<and> n = 0 \<or> IsUint64 off \<and> IsUint64 l \<and> unat n = unat off + unat l \<and> l \<noteq> 0"
proof -
  have l: "IsUint64 l" and c: "calcMemSize64WithUint off (Uint64 l) = (n, False)"
    using assms by (auto simp: calcMemSize64_def split: if_splits)
  have "Uint64 l = 0 \<longleftrightarrow> l = 0" using unat_Uint64 [OF l] by (metis unat_eq_0)
  then show ?thesis using calcMemSize64WithUint_exact [OF c] unat_Uint64 [OF l] l by auto
qed

lemma ToWordSize_ceil:
  "unat (ToWordSize sz) * 32 \<ge> unat sz \<and> unat (ToWordSize sz) * 32 < unat sz + 32"
proof (cases "sz > - 1 - 31")
  case True
  have m: "unat (- 1 - 31 :: u64) = 2 ^ 64 - 32" by simp
  have w: "unat ((- 1) div 32 + 1 :: u64) = 2 ^ 59" by simp
  have "2 ^ 64 - 32 < unat sz" using True m by (simp only: word_less_nat_alt)
  then show ?thesis using True w unat_u64_less [of sz] by (simp add: ToWordSize_def)
next
  case False
  have m: "unat (- 1 - 31 :: u64) = 2 ^ 64 - 32" by simp
  have le: "unat sz \<le> 2 ^ 64 - 32" using False m by (simp only: word_less_nat_alt not_less)
  then have "unat (sz + 31) = unat sz + 31" by (simp add: unat_word_ariths)
  then have "unat (ToWordSize sz) = (unat sz + 31) div 32"
    using False by (simp add: ToWordSize_def unat_div)
  then show ?thesis by presburger
qed

text \<open>Reading back what was written.\<close>

lemma copy_at_read:
  assumes "off + n \<le> length dst" "length src = n"
  shows "take n (drop off (copy_at dst off n src)) = src"
  using assms by (simp add: copy_at_def)

lemma copy_at_elsewhere:
  assumes "off + n \<le> length dst" "i < off \<or> off + n \<le> i"
  shows "copy_at dst off n src ! i = dst ! i"
proof -
  have "off \<le> length dst" using assms(1) by simp
  then have l: "length (take off dst) = off" by simp
  show ?thesis unfolding copy_at_def nth_append l using assms
    by (cases "n \<le> length src") auto
qed

lemma no_wrap: "unat (x :: u64) + unat y < 2 ^ 64 \<Longrightarrow> unat (x + y) = unat x + unat y \<and> \<not> x + y < x"
  by (simp add: unat_word_ariths word_less_nat_alt)

lemma mem_Set_eq:
  assumes "unat off + unat sz \<le> mem_Len m" "mem_Len m < 2 ^ 64"
  shows "mem_Set m off sz v = Some (if sz = 0 then m
           else m\<lparr>m_store := copy_at (m_store m) (unat off) (unat sz) v\<rparr>)"
  using assms no_wrap [of off sz] by (auto simp: mem_Set_def word_gt_0)

lemma mem_Set32_eq:
  assumes "unat off + 32 \<le> mem_Len m" "mem_Len m < 2 ^ 64"
  shows "mem_Set32 m off v = Some (m\<lparr>m_store := copy_at (m_store m) (unat off) 32 (word_to_bytes 32 v)\<rparr>)"
proof -
  have "copy_at (copy_at st o' 32 (replicate 32 0)) o' 32 (word_to_bytes 32 v) = copy_at st o' 32 (word_to_bytes 32 v)"
    if "o' + 32 \<le> length st" for st :: "byte list" and o'
    using that by (simp add: copy_at_def)
  then show ?thesis using assms no_wrap [of off 32] by (auto simp: mem_Set32_def)
qed

lemma GetPtr_eq:
  assumes "0 < n" "off + n \<le> mem_Len m"
  shows "GetPtr m (int off) (int n) = Some (Some (take n (drop off (m_store m))))"
  using assms by (simp add: GetPtr_def)

end
