(* ===== verification/Evm_Code.thy ===== *)
theory Evm_Code
  imports Evm_Base
begin

text \<open>
  Contract code and its jump destinations (\<^verbatim>\<open>internal/vm/analysis.go\<close>, \<^verbatim>\<open>contract.go\<close>): the
  bitmap that marks the bytes of push data, computed a word of 64 bits at a time, marks exactly
  the positions a left-to-right scan of the code finds to be push data, so a jump is accepted
  exactly at a \<^verbatim>\<open>JUMPDEST\<close> that is an instruction.
\<close>

section \<open>The code bitmap\<close>

definition OP_JUMPDEST :: byte where "OP_JUMPDEST = 0x5b"
definition OP_PUSH1 :: byte where "OP_PUSH1 = 0x60"
definition OP_PUSH32 :: byte where "OP_PUSH32 = 0x7f"

text \<open>One round of the loop of \<^verbatim>\<open>codeBitmap\<close> on a push of \<open>n\<close> bytes whose data starts at \<open>pc\<close>.\<close>

definition set_data_bits :: "u64 list \<Rightarrow> nat \<Rightarrow> nat \<Rightarrow> u64 list option" where
  "set_data_bits bits pc n =
     (let x0 = push_bit (n - 1) 1 :: u64;
          x = x0 OR (x0 - 1);
          idx = pc div 64;
          shift = pc mod 64
      in do {
        w \<leftarrow> go_index bits (int idx);
        let bits1 = bits[idx := w OR push_bit shift x];
        if shift + shift > 64 then do {
          w' \<leftarrow> go_index bits1 (int (idx + 1));
          Some (bits1[idx + 1 := w' OR drop_bit (64 - shift) x])
        } else Some bits1
      })"

function bitmap_loop :: "byte list \<Rightarrow> nat \<Rightarrow> u64 list \<Rightarrow> u64 list option" where
  "bitmap_loop code pc bits =
     (if pc < length code then
        (let opc = code ! pc; pc' = pc + 1 in
         if opc \<ge> OP_PUSH1 \<and> opc \<le> OP_PUSH32 then
           (let numbits = unat (opc - OP_PUSH1) + 1 in
            case set_data_bits bits pc' numbits of
              None \<Rightarrow> None
            | Some bits' \<Rightarrow> bitmap_loop code (pc' + numbits) bits')
         else bitmap_loop code pc' bits)
      else Some bits)"
  by pat_completeness auto
termination
  by (relation "measure (\<lambda>(code, pc, bits). length code - pc)") auto

declare bitmap_loop.simps [simp del]

definition codeBitmap :: "byte list \<Rightarrow> u64 list option" where
  "codeBitmap code = bitmap_loop code 0 (replicate ((length code + 32 + 63) div 64) 0)"

section \<open>The reference: scanning the code\<close>

definition push_size :: "byte \<Rightarrow> nat" where
  "push_size opc = (if opc \<ge> OP_PUSH1 \<and> opc \<le> OP_PUSH32 then unat (opc - OP_PUSH1) + 1 else 0)"

function push_data :: "byte list \<Rightarrow> nat \<Rightarrow> nat set" where
  "push_data code pc =
     (if pc < length code
      then {pc + 1 ..< pc + 1 + push_size (code ! pc)} \<union> push_data code (pc + 1 + push_size (code ! pc))
      else {})"
  by pat_completeness auto
termination
  by (relation "measure (\<lambda>(code, pc). length code - pc)") auto

declare push_data.simps [simp del]

definition bitset :: "u64 list \<Rightarrow> nat set" where
  "bitset bits = {i. i < 64 * length bits \<and> bit (bits ! (i div 64)) (i mod 64)}"

lemma push_size_le: "push_size opc \<le> 32"
proof (cases "opc \<ge> OP_PUSH1 \<and> opc \<le> OP_PUSH32")
  case True
  then have "unat (opc - OP_PUSH1) = unat opc - unat OP_PUSH1" by (simp add: unat_sub)
  also have "\<dots> \<le> 31" using True by (auto simp: word_le_nat_alt OP_PUSH1_def OP_PUSH32_def)
  finally show ?thesis using True by (simp add: push_size_def)
qed (auto simp: push_size_def)

lemma smear_bits:
  assumes "0 < n" "n \<le> 32"
  shows "push_bit (n - 1) 1 OR (push_bit (n - 1) 1 - 1) = (mask n :: u64)"
proof -
  obtain k where n: "n = Suc k" using assms(1) by (cases n) auto
  have "push_bit k 1 - 1 = (mask k :: u64)" by (simp add: mask_eq_exp_minus_1 push_bit_eq_mult)
  then show ?thesis by (simp add: n mask_Suc_exp push_bit_eq_mult)
qed

lemma in_range_split:
  fixes i pc n :: nat
  assumes "n \<le> 32"
  shows "i \<in> {pc ..< pc + n} \<longleftrightarrow>
    i div 64 = pc div 64 \<and> pc mod 64 \<le> i mod 64 \<and> i mod 64 - pc mod 64 < n \<or>
    i div 64 = pc div 64 + 1 \<and> i mod 64 + 64 - pc mod 64 < n"
proof -
  define q r q' r' where d: "q = i div 64" "r = i mod 64" "q' = pc div 64" "r' = pc mod 64"
  have e: "i = 64 * q + r" "pc = 64 * q' + r'" "r < 64" "r' < 64" by (simp_all add: d)
  consider "q = q'" | "q = q' + 1" | "q < q'" | "q' + 2 \<le> q" by linarith
  then show ?thesis unfolding d [symmetric] atLeastLessThan_iff
  proof cases
    case 3
    then have "i < pc" using e by linarith
    then show "(pc \<le> i \<and> i < pc + n) = (q = q' \<and> r' \<le> r \<and> r - r' < n \<or> q = q' + 1 \<and> r + 64 - r' < n)"
      using 3 by simp
  next
    case 4
    then have "pc + n \<le> i" using e assms by linarith
    then show "(pc \<le> i \<and> i < pc + n) = (q = q' \<and> r' \<le> r \<and> r - r' < n \<or> q = q' + 1 \<and> r + 64 - r' < n)"
      using 4 by simp
  qed (use e assms in auto)
qed

lemma mask_bits:
  assumes "n \<le> 32" "sh < 64" "r < 64"
  shows "bit (push_bit sh (mask n :: u64)) r \<longleftrightarrow> sh \<le> r \<and> r - sh < n"
    "bit (drop_bit (64 - sh) (mask n :: u64)) r \<longleftrightarrow> r + 64 - sh < n"
  using assms by (auto simp: bit_simps)

lemma set_data_bits_ok:
  assumes n: "0 < n" "n \<le> 32" and idx: "pc div 64 < length bits"
    and spill: "pc mod 64 > 32 \<Longrightarrow> pc div 64 + 1 < length bits"
  shows "\<exists>bits'. set_data_bits bits pc n = Some bits' \<and> length bits' = length bits \<and>
    bitset bits' = bitset bits \<union> {pc ..< pc + n}"
proof -
  let ?idx = "pc div 64" and ?sh = "pc mod 64"
  define bits1 where "bits1 = bits[?idx := bits ! ?idx OR push_bit ?sh (mask n)]"
  define bits2 where "bits2 = (if ?sh + ?sh > 64
    then bits1[?idx + 1 := bits1 ! (?idx + 1) OR drop_bit (64 - ?sh) (mask n)] else bits1)"
  have l: "length bits1 = length bits" "length bits2 = length bits" by (simp_all add: bits1_def bits2_def)
  have g1: "go_index bits (int ?idx) = Some (bits ! ?idx)" using idx by (rule go_index_of_nat)
  have g2: "go_index bits1 (int (?idx + 1)) = Some (bits1 ! (?idx + 1))" if "?sh + ?sh > 64"
    using spill l that by (intro go_index_of_nat) simp
  have "set_data_bits bits pc n = (if ?sh + ?sh > 64
      then do { w' \<leftarrow> go_index bits1 (int (?idx + 1));
                Some (bits1[?idx + 1 := w' OR drop_bit (64 - ?sh) (mask n)]) }
      else Some bits1)"
    unfolding set_data_bits_def Let_def smear_bits [OF n] g1 bits1_def by simp
  then have set: "set_data_bits bits pc n = Some bits2"
    using g2 by (simp add: bits2_def)
  have b: "bit (bits2 ! q) r \<longleftrightarrow> bit (bits ! q) r \<or> q = ?idx \<and> ?sh \<le> r \<and> r - ?sh < n \<or>
      q = ?idx + 1 \<and> r + 64 - ?sh < n" if q: "q < length bits" "r < 64" for q r
  proof -
    have sh: "?sh < 64" by simp
    note m = mask_bits [OF n(2) sh q(2)]
    have b1: "bit (bits1 ! q) r \<longleftrightarrow> bit (bits ! q) r \<or> q = ?idx \<and> ?sh \<le> r \<and> r - ?sh < n"
      using idx m(1) by (cases "q = ?idx") (simp_all add: bits1_def bit_or_iff)
    show ?thesis
    proof (cases "?sh + ?sh > 64 \<and> q = ?idx + 1")
      case True
      then have "bits2 ! q = bits1 ! q OR drop_bit (64 - ?sh) (mask n)"
        using q(1) l by (simp add: bits2_def)
      then show ?thesis using b1 m(2) True by (simp add: bit_or_iff)
    next
      case False
      then have "bits2 ! q = bits1 ! q" by (auto simp: bits2_def)
      moreover have "\<not> (q = ?idx + 1 \<and> r + 64 - ?sh < n)" using False n(2) by linarith
      ultimately show ?thesis using b1 by metis
    qed
  qed
  have "bitset bits2 = bitset bits \<union> {pc ..< pc + n}"
  proof (rule set_eqI)
    fix i
    have inr: "i < 64 * length bits" if "i \<in> {pc ..< pc + n}"
    proof -
      have "i div 64 < length bits"
        using in_range_split [OF n(2), of i pc] that idx spill n(2) by auto
      then show ?thesis by (simp add: div_less_iff_less_mult mult.commute)
    qed
    have q: "i div 64 < length bits" if "i < 64 * length bits"
      using that by (simp add: div_less_iff_less_mult mult.commute)
    show "i \<in> bitset bits2 \<longleftrightarrow> i \<in> bitset bits \<union> {pc ..< pc + n}"
    proof (cases "i < 64 * length bits")
      case True
      show ?thesis
        using b [OF q [OF True], of "i mod 64"] in_range_split [OF n(2), of i pc] True l
        by (simp add: bitset_def)
    next
      case False
      then show ?thesis using inr l by (auto simp: bitset_def)
    qed
  qed
  then show ?thesis using set l by blast
qed

lemma bitmap_index:
  assumes "p \<le> len"
  shows "p div 64 < (len + 95) div 64" "p mod 64 > 32 \<Longrightarrow> p div 64 + 1 < (len + 95) div (64 :: nat)"
proof -
  have "p div 64 + 1 = (p + 64) div 64" by simp
  also have "\<dots> \<le> (len + 95) div 64" using assms by (intro div_le_mono) simp
  finally show "p div 64 < (len + 95) div 64" by simp
  assume m: "p mod 64 > 32"
  define q r where "q = p div 64" and "r = p mod 64"
  then have "p = 64 * q + r" "32 < r" using m by simp_all
  then have "64 * (q + 2) \<le> len + 95" using assms by simp
  then have "64 * (p div 64 + 2) \<le> len + 95" by (simp add: q_def)
  then have "p div 64 + 2 \<le> (len + 95) div 64" by (simp add: less_eq_div_iff_mult_less_eq mult.commute)
  then show "p div 64 + 1 < (len + 95) div 64" by simp
qed

text \<open>The loop marks the push data from \<open>pc\<close> on, and never indexes outside the bitmap.\<close>

lemma bitmap_loop_ok:
  "length bits = (length code + 95) div 64 \<Longrightarrow>
     \<exists>bits'. bitmap_loop code pc bits = Some bits' \<and> length bits' = length bits \<and>
       bitset bits' = bitset bits \<union> push_data code pc"
proof (induction code pc bits rule: bitmap_loop.induct)
  case (1 code pc bits)
  let ?op = "code ! pc" and ?n = "push_size (code ! pc)"
  show ?case
  proof (cases "pc < length code")
    case False
    then show ?thesis by (simp add: bitmap_loop.simps [of code] push_data.simps [of code])
  next
    case pc: True
    have pd: "push_data code pc = {pc + 1 ..< pc + 1 + ?n} \<union> push_data code (pc + 1 + ?n)"
      using pc by (subst push_data.simps) simp
    show ?thesis
    proof (cases "?op \<ge> OP_PUSH1 \<and> ?op \<le> OP_PUSH32")
      case False
      have eq: "bitmap_loop code pc bits = bitmap_loop code (pc + 1) bits"
        using pc False by (subst bitmap_loop.simps) (auto simp: Let_def)
      have "?n = 0" using False by (auto simp: push_size_def)
      then have "push_data code pc = push_data code (pc + 1)" using pd by simp
      then show ?thesis unfolding eq using 1(2) [OF pc refl refl False 1(3)] by metis
    next
      case True
      have n: "?n = unat (?op - OP_PUSH1) + 1" "0 < ?n" using True by (simp_all add: push_size_def)
      have le: "pc + 1 \<le> length code" using pc by simp
      have idx: "(pc + 1) div 64 < length bits"
          "(pc + 1) mod 64 > 32 \<Longrightarrow> (pc + 1) div 64 + 1 < length bits"
        unfolding 1(3) using bitmap_index [OF le] by simp_all
      obtain bits1 where b1: "set_data_bits bits (pc + 1) ?n = Some bits1" "length bits1 = length bits"
          "bitset bits1 = bitset bits \<union> {pc + 1 ..< pc + 1 + ?n}"
        using set_data_bits_ok [OF n(2) push_size_le idx] by blast
      have "\<exists>bits'. bitmap_loop code (pc + 1 + ?n) bits1 = Some bits' \<and> length bits' = length bits1 \<and>
          bitset bits' = bitset bits1 \<union> push_data code (pc + 1 + ?n)"
        using 1(1) [OF pc refl refl True refl] b1(1,2) 1(3) unfolding n(1) by simp
      moreover have "bitmap_loop code pc bits = bitmap_loop code (pc + 1 + ?n) bits1"
        using pc True b1(1) unfolding n(1) by (subst bitmap_loop.simps) (simp add: Let_def)
      ultimately show ?thesis using b1(2,3) pd by auto
    qed
  qed
qed

lemma bitset_zero: "bitset (replicate k 0) = {}"
  by (auto simp: bitset_def div_less_iff_less_mult mult.commute)

lemma codeBitmap_ok:
  "\<exists>bits. codeBitmap code = Some bits \<and> length bits = (length code + 95) div 64 \<and>
     bitset bits = push_data code 0"
  using bitmap_loop_ok [of "replicate ((length code + 95) div 64) 0" code 0]
  by (simp add: codeBitmap_def bitset_zero add.assoc)

section \<open>Contracts\<close>

text \<open>
  What a contract reads of the reference that called it: the address, and for a calling contract
  also its own caller and value (\<^verbatim>\<open>AsDelegate\<close>).
\<close>

datatype ContractRef =
    AccountRef address
  | CallerContract address address "u256 option"

fun ref_Address :: "ContractRef \<Rightarrow> address" where
  "ref_Address (AccountRef a) = a"
| "ref_Address (CallerContract self callerAddr v) = self"

text \<open>
  The table of analyses by code hash is shared by all contracts of a call tree (Go copies the map
  reference), so it is passed along beside the contract.
\<close>

type_synonym jumpdests = "hash \<rightharpoonup> u64 list"

record Contract =
  ct_CallerAddress :: address
  ct_caller :: ContractRef
  ct_self :: address
  ct_analysis :: "u64 list option"
  ct_skipAnalysis :: bool
  ct_Code :: "byte list"
  ct_CodeHash :: hash
  ct_CodeAddr :: "address option"
  ct_Input :: "byte list"
  ct_Gas :: u64
  ct_value :: "u256 option"

definition as_ref :: "Contract \<Rightarrow> ContractRef" where
  "as_ref c = CallerContract (ct_self c) (ct_CallerAddress c) (ct_value c)"

definition NewContract ::
  "ContractRef \<Rightarrow> address \<Rightarrow> u256 option \<Rightarrow> u64 \<Rightarrow> bool \<Rightarrow> jumpdests \<Rightarrow> Contract \<times> jumpdests" where
  "NewContract caller object v gas skipAnalysis jd =
     (\<lparr>ct_CallerAddress = ref_Address caller, ct_caller = caller, ct_self = object, ct_analysis = None,
       ct_skipAnalysis = skipAnalysis, ct_Code = [], ct_CodeHash = 0, ct_CodeAddr = None, ct_Input = [],
       ct_Gas = gas, ct_value = v\<rparr>,
      case caller of CallerContract _ _ _ \<Rightarrow> jd | AccountRef _ \<Rightarrow> Map.empty)"

text \<open>The type assertion on the caller panics when it is not a contract.\<close>

definition AsDelegate :: "Contract \<Rightarrow> Contract option" where
  "AsDelegate c =
     (case ct_caller c of
        CallerContract self callerAddr v \<Rightarrow> Some (c\<lparr>ct_CallerAddress := callerAddr, ct_value := v\<rparr>)
      | AccountRef _ \<Rightarrow> None)"

definition GetOp :: "Contract \<Rightarrow> u64 \<Rightarrow> byte" where
  "GetOp c n = (if unat n < length (ct_Code c) then ct_Code c ! unat n else 0)"

definition UseGas :: "Contract \<Rightarrow> u64 \<Rightarrow> bool \<times> Contract" where
  "UseGas c gas = (if ct_Gas c < gas then (False, c) else (True, c\<lparr>ct_Gas := ct_Gas c - gas\<rparr>))"

definition SetCallCode :: "Contract \<Rightarrow> address \<Rightarrow> hash \<Rightarrow> byte list \<Rightarrow> Contract" where
  "SetCallCode c addr h code = c\<lparr>ct_Code := code, ct_CodeHash := h, ct_CodeAddr := Some addr\<rparr>"

definition isCodeFromAnalysis :: "u64 list \<Rightarrow> u64 \<Rightarrow> bool option" where
  "isCodeFromAnalysis analysis udest =
     map_option (\<lambda>w. w AND push_bit (unat (udest AND 63)) 1 = 0)
       (go_index analysis (int (unat (udest div 64))))"

definition isCode :: "Contract \<Rightarrow> jumpdests \<Rightarrow> u64 \<Rightarrow> (bool \<times> Contract \<times> jumpdests) option" where
  "isCode c jd udest =
     (if ct_CodeHash c \<noteq> 0 then do {
        (analysis, jd') \<leftarrow> (case jd (ct_CodeHash c) of
            Some analysis \<Rightarrow> Some (analysis, jd)
          | None \<Rightarrow> do { analysis \<leftarrow> codeBitmap (ct_Code c);
                          Some (analysis, jd(ct_CodeHash c \<mapsto> analysis)) });
        b \<leftarrow> isCodeFromAnalysis analysis udest;
        Some (b, c\<lparr>ct_analysis := Some analysis\<rparr>, jd')
      } else do {
        analysis \<leftarrow> (case ct_analysis c of Some a \<Rightarrow> Some a | None \<Rightarrow> codeBitmap (ct_Code c));
        b \<leftarrow> isCodeFromAnalysis analysis udest;
        Some (b, c\<lparr>ct_analysis := Some analysis\<rparr>, jd)
      })"

definition validJumpdest ::
  "Contract \<Rightarrow> jumpdests \<Rightarrow> u256 \<Rightarrow> ((bool \<times> bool) \<times> Contract \<times> jumpdests) option" where
  "validJumpdest c jd dest =
     (let (udest, overflow) = Uint64WithOverflow dest in
      if overflow \<or> udest \<ge> of_nat (length (ct_Code c)) then Some ((False, False), c, jd)
      else if ct_Code c ! unat udest \<noteq> OP_JUMPDEST then Some ((False, False), c, jd)
      else if ct_skipAnalysis c then Some ((True, False), c, jd)
      else do { (b, c', jd') \<leftarrow> isCode c jd udest; Some ((b, True), c', jd') })"

section \<open>Jumps go to instructions\<close>

text \<open>A cached analysis is the bitmap of the code it belongs to.\<close>

definition analysis_ok :: "Contract \<Rightarrow> jumpdests \<Rightarrow> bool" where
  "analysis_ok c jd \<longleftrightarrow> length (ct_Code c) < 2 ^ 64 \<and>
     (\<forall>b. ct_analysis c = Some b \<longrightarrow> codeBitmap (ct_Code c) = Some b) \<and>
     (\<forall>b. jd (ct_CodeHash c) = Some b \<longrightarrow> codeBitmap (ct_Code c) = Some b)"

lemma isCodeFromAnalysis_bitmap:
  assumes "codeBitmap code = Some bits" "unat u < length code"
  shows "isCodeFromAnalysis bits u = Some (unat u \<notin> push_data code 0)"
proof -
  have b: "length bits = (length code + 95) div 64" "bitset bits = push_data code 0"
    using codeBitmap_ok [of code] assms(1) by auto
  have idx: "unat (u div 64) = unat u div 64" by (simp add: unat_div)
  have sh: "unat (u AND 63) = unat u mod 64"
  proof -
    have "u AND 63 = take_bit 6 u" by (simp add: take_bit_eq_mask mask_eq_exp_minus_1)
    then show ?thesis by (simp add: take_bit_eq_mod unat_mod)
  qed
  have lt: "unat u div 64 < length bits" using bitmap_index(1) [of "unat u" "length code"] assms(2) b(1) by simp
  then have "unat u < 64 * length bits" by (simp add: div_less_iff_less_mult mult.commute)
  then have "bit (bits ! (unat u div 64)) (unat u mod 64) \<longleftrightarrow> unat u \<in> push_data code 0"
    using b(2) by (auto simp: bitset_def)
  then show ?thesis
    using lt by (simp add: isCodeFromAnalysis_def idx sh go_index_of_nat and_exp_eq_0_iff_not_bit)
qed

lemma isCode_correct:
  assumes "analysis_ok c jd" "unat u < length (ct_Code c)"
  shows "\<exists>c' jd'. isCode c jd u = Some (unat u \<notin> push_data (ct_Code c) 0, c', jd') \<and>
    analysis_ok c' jd' \<and> (\<exists>a. c' = c\<lparr>ct_analysis := a\<rparr>)"
proof -
  obtain bits where b: "codeBitmap (ct_Code c) = Some bits" using codeBitmap_ok by blast
  have ic: "isCodeFromAnalysis bits u = Some (unat u \<notin> push_data (ct_Code c) 0)"
    by (rule isCodeFromAnalysis_bitmap [OF b assms(2)])
  have "isCode c jd u = Some (unat u \<notin> push_data (ct_Code c) 0, c\<lparr>ct_analysis := Some bits\<rparr>,
      if ct_CodeHash c = 0 then jd else jd(ct_CodeHash c \<mapsto> bits))"
    using assms(1) b ic
    by (auto simp: isCode_def analysis_ok_def fun_upd_idem split: option.split)
  then show ?thesis using assms(1) b by (auto simp: analysis_ok_def)
qed

lemma udest_in_code:
  assumes "length code < 2 ^ 64" "IsUint64 dest"
  shows "Uint64 dest \<ge> of_nat (length code) \<longleftrightarrow> \<not> unat dest < length code"
proof -
  have "unat (of_nat (length code) :: u64) = length code" using assms(1) by (simp add: unat_of_nat)
  then show ?thesis using unat_Uint64 [OF assms(2)] by (simp add: word_le_nat_alt not_less)
qed

definition is_jumpdest :: "byte list \<Rightarrow> nat \<Rightarrow> bool" where
  "is_jumpdest code i \<longleftrightarrow> i < length code \<and> code ! i = OP_JUMPDEST \<and> i \<notin> push_data code 0"

lemma validJumpdest_ok:
  assumes "analysis_ok c jd" "\<not> ct_skipAnalysis c"
  shows "\<exists>used c' jd'. validJumpdest c jd dest = Some ((is_jumpdest (ct_Code c) (unat dest), used), c', jd') \<and>
    analysis_ok c' jd' \<and> (\<exists>a. c' = c\<lparr>ct_analysis := a\<rparr>)"
proof (cases "IsUint64 dest \<and> unat dest < length (ct_Code c) \<and> ct_Code c ! unat dest = OP_JUMPDEST")
  case True
  have u: "unat (Uint64 dest) = unat dest" using True by (simp add: unat_Uint64)
  obtain c' jd' where "isCode c jd (Uint64 dest) = Some (unat dest \<notin> push_data (ct_Code c) 0, c', jd')"
      "analysis_ok c' jd'" "\<exists>a. c' = c\<lparr>ct_analysis := a\<rparr>"
    using isCode_correct [OF assms(1), of "Uint64 dest"] True u by auto
  moreover have "\<not> Uint64 dest \<ge> of_nat (length (ct_Code c))"
    using udest_in_code [of "ct_Code c" dest] assms(1) True by (simp add: analysis_ok_def)
  ultimately show ?thesis using True assms(2) u
    by (auto simp: validJumpdest_def Uint64WithOverflow_def is_jumpdest_def)
next
  case False
  then have "\<not> is_jumpdest (ct_Code c) (unat dest)"
    using assms(1) by (auto simp: is_jumpdest_def analysis_ok_def IsUint64_iff)
  moreover have "validJumpdest c jd dest = Some ((False, False), c, jd)"
    using False udest_in_code [of "ct_Code c" dest] assms(1)
    by (auto simp: validJumpdest_def Uint64WithOverflow_def analysis_ok_def unat_Uint64)
  ultimately show ?thesis using assms(1) by (auto intro: exI [of _ "ct_analysis c"])
qed

section \<open>Properties\<close>

text \<open>
  C7: \<^verbatim>\<open>codeBitmap\<close> never indexes out of its bit vector, and the bits it sets are exactly the
  positions of push data that a byte-by-byte scan of the code finds.
\<close>

theorem codeBitmap_marks_push_data:
  "map_option bitset (codeBitmap code) = Some (push_data code 0)"
  using codeBitmap_ok [of code] by auto

text \<open>
  C8: \<^verbatim>\<open>Contract.validJumpdest\<close> with analysis switched on never panics and accepts a destination
  exactly when it is the position of a \<^verbatim>\<open>JUMPDEST\<close> byte of the code that is an instruction, not
  push data; whatever analysis it caches in the contract or in the shared table stays the bitmap of
  that code, so later answers are right too.
\<close>

theorem validJumpdest_correct:
  assumes "analysis_ok c jd" "\<not> ct_skipAnalysis c"
  shows "\<exists>used c' jd'. validJumpdest c jd dest = Some ((is_jumpdest (ct_Code c) (unat dest), used), c', jd') \<and>
    analysis_ok c' jd' \<and> (\<exists>a. c' = c\<lparr>ct_analysis := a\<rparr>)"
  by (rule validJumpdest_ok [OF assms])

theorem validJumpdest_correct_witness:
  "\<exists>used c' jd'. validJumpdest (fst (NewContract (AccountRef 1) 2 None 7 False Map.empty)
      \<lparr>ct_Code := [0x60, 0x5b, 0x5b]\<rparr>) Map.empty 2 = Some ((True, used), c', jd')"
proof -
  let ?c = "fst (NewContract (AccountRef 1) 2 None 7 False Map.empty) \<lparr>ct_Code := [0x60, 0x5b, 0x5b]\<rparr>"
  have "analysis_ok ?c Map.empty" "\<not> ct_skipAnalysis ?c"
    by (simp_all add: analysis_ok_def NewContract_def)
  then obtain used c' jd' where
    "validJumpdest ?c Map.empty 2 = Some ((is_jumpdest (ct_Code ?c) (unat (2::u256)), used), c', jd')"
    using validJumpdest_correct [of ?c Map.empty 2] by blast
  moreover have "is_jumpdest (ct_Code ?c) (unat (2::u256))"
    by (simp add: is_jumpdest_def push_data.simps push_size_def OP_JUMPDEST_def OP_PUSH1_def OP_PUSH32_def
        word_le_nat_alt)
  ultimately show ?thesis by auto
qed

end
