(* ===== verification/Evm_Machine.thy ===== *)
theory Evm_Machine
  imports State_DB Evm_Code
begin

text \<open>
  The state the interpreter runs on: the chain rules, the block and transaction contexts
  (\<^verbatim>\<open>internal/vm/evmtypes\<close>, \<^verbatim>\<open>params.Rules\<close>), the errors (\<^verbatim>\<open>internal/vm/errors.go\<close>), the mutable part
  of \<^verbatim>\<open>EVM\<close> and \<^verbatim>\<open>EVMInterpreter\<close>, and the scope of one call. A computation ends in one of three
  ways: it returns, it panics, or the fuel that bounds the nesting and the length of a run is used
  up. Tracing has no effect on the state and is left out.
\<close>

section \<open>Outcomes\<close>

datatype 'a res = NoFuel | Panic | Ret 'a

fun res_bind :: "'a res \<Rightarrow> ('a \<Rightarrow> 'b res) \<Rightarrow> 'b res" where
  "res_bind NoFuel f = NoFuel"
| "res_bind Panic f = Panic"
| "res_bind (Ret x) f = f x"

fun or_panic :: "'a option \<Rightarrow> 'a res" where
  "or_panic None = Panic"
| "or_panic (Some x) = Ret x"

lemma res_bind_Ret: "res_bind m f = Ret y \<longleftrightarrow> (\<exists>x. m = Ret x \<and> f x = Ret y)"
  by (cases m) auto

lemma res_bind_NoFuel: "res_bind m f = NoFuel \<longleftrightarrow> m = NoFuel \<or> (\<exists>x. m = Ret x \<and> f x = NoFuel)"
  by (cases m) auto

lemma or_panic_Ret [simp]: "or_panic m = Ret x \<longleftrightarrow> m = Some x"
  by (cases m) auto

lemma or_panic_NoFuel [simp]: "or_panic m \<noteq> NoFuel"
  by (cases m) auto

section \<open>Errors\<close>

datatype evm_error =
    ErrOutOfGas
  | ErrCodeStoreOutOfGas
  | ErrDepth
  | ErrInsufficientBalance
  | ErrContractAddressCollision
  | ErrExecutionReverted
  | ErrMaxCodeSizeExceeded
  | ErrInvalidJump
  | ErrWriteProtection
  | ErrReturnDataOutOfBounds
  | ErrGasUintOverflow
  | ErrInvalidCode
  | ErrNonceUintOverflow
  | ErrStackUnderflow nat nat
  | ErrStackOverflow nat nat
  | ErrInvalidOpCode byte
  | ErrSentry
  | ErrDifficulty
  | ErrPrecompile string
  | errStopToken

section \<open>Environment\<close>

record Rules =
  rl_ChainID :: int
  rl_IsHomestead :: bool
  rl_IsTangerineWhistle :: bool
  rl_IsSpuriousDragon :: bool
  rl_IsByzantium :: bool
  rl_IsConstantinople :: bool
  rl_IsPetersburg :: bool
  rl_IsIstanbul :: bool
  rl_IsBerlin :: bool
  rl_IsLondon :: bool
  rl_IsShanghai :: bool
  rl_IsCancun :: bool
  rl_IsPrague :: bool
  rl_IsNano :: bool
  rl_IsMoran :: bool
  rl_IsEip1559FeeCollector :: bool
  rl_IsParlia :: bool
  rl_IsStarknet :: bool
  rl_IsAura :: bool
  rl_IsBeijing :: bool

record BlockContext =
  bc_CanTransfer :: "IntraBlockState \<Rightarrow> address \<Rightarrow> u256 \<Rightarrow> bool \<times> IntraBlockState"
  bc_Transfer :: "IntraBlockState \<Rightarrow> address \<Rightarrow> address \<Rightarrow> u256 \<Rightarrow> bool \<Rightarrow> IntraBlockState"
  bc_GetHash :: "u64 \<Rightarrow> hash"
  bc_Coinbase :: address
  bc_GasLimit :: u64
  bc_MaxGasLimit :: bool
  bc_BlockNumber :: u64
  bc_Time :: u64
  bc_Difficulty :: "int option"
  bc_BaseFee :: "u256 option"
  bc_PrevRanDao :: "hash option"

record TxContext =
  tx_TxHash :: hash
  tx_Origin :: address
  tx_GasPrice :: "u256 option"

text \<open>The options of \<^verbatim>\<open>vm.Config\<close> that change what is executed.\<close>

record Config =
  cfg_NoRecursion :: bool
  cfg_NoBaseFee :: bool
  cfg_SkipAnalysis :: bool
  cfg_RestoreState :: bool
  cfg_ExtraEips :: "int list"

definition HasEip3860 :: "Config \<Rightarrow> Rules \<Rightarrow> bool" where
  "HasEip3860 cfg rules \<longleftrightarrow> 3860 \<in> set (cfg_ExtraEips cfg) \<or> rl_IsShanghai rules"

record PrecompiledContract =
  pre_RequiredGas :: "byte list \<Rightarrow> u64"
  pre_Run :: "byte list \<Rightarrow> byte list \<times> evm_error option"

definition RunPrecompiledContract ::
  "PrecompiledContract \<Rightarrow> byte list \<Rightarrow> u64 \<Rightarrow> byte list \<times> u64 \<times> evm_error option" where
  "RunPrecompiledContract p input suppliedGas =
     (let gasCost = pre_RequiredGas p input in
      if suppliedGas < gasCost then ([], 0, Some ErrOutOfGas)
      else (let (output, err) = pre_Run p input in (output, suppliedGas - gasCost, err)))"

text \<open>The transfer functions the node installs in the block context (\<^verbatim>\<open>internal/evm.go\<close>).\<close>

definition CanTransfer :: "IntraBlockState \<Rightarrow> address \<Rightarrow> u256 \<Rightarrow> bool \<times> IntraBlockState" where
  "CanTransfer db addr amount = (let (b, db') = GetBalance db addr in (\<not> b < amount, db'))"

definition Transfer :: "IntraBlockState \<Rightarrow> address \<Rightarrow> address \<Rightarrow> u256 \<Rightarrow> bool \<Rightarrow> IntraBlockState" where
  "Transfer db sender recipient amount bailout =
     AddBalance (if \<not> bailout then SubBalance db sender amount else db) recipient amount"

definition BorTransfer :: "IntraBlockState \<Rightarrow> address \<Rightarrow> address \<Rightarrow> u256 \<Rightarrow> bool \<Rightarrow> IntraBlockState" where
  "BorTransfer db sender recipient amount bailout =
     AddBalance (if \<not> bailout then SubBalance db sender amount else db) recipient amount"

section \<open>The machine\<close>

text \<open>
  What does not change while a transaction runs. \<open>env_precompile\<close> is the table \<^verbatim>\<open>EVM.precompile\<close>
  selects.
\<close>

record Env =
  env_context :: BlockContext
  env_txContext :: TxContext
  env_rules :: Rules
  env_config :: Config
  env_precompile :: "address \<Rightarrow> PrecompiledContract option"

text \<open>
  The mutable fields of \<^verbatim>\<open>EVM\<close> (\<^verbatim>\<open>intraBlockState\<close>, \<^verbatim>\<open>callGasTemp\<close>, \<^verbatim>\<open>abort\<close>) and of the interpreter it owns
  (\<^verbatim>\<open>readOnly\<close>, \<^verbatim>\<open>returnData\<close>, \<^verbatim>\<open>depth\<close>), with the jump destination table that the contracts of one
  call tree share. \<open>evm_abort\<close> is read, never written, during a run.
\<close>

record EVM =
  evm_ibs :: IntraBlockState
  evm_callGasTemp :: u64
  evm_abort :: bool
  evm_readOnly :: bool
  evm_returnData :: "byte list"
  evm_depth :: nat
  evm_jumpdests :: jumpdests

record ScopeContext =
  sc_Memory :: Memory
  sc_Stack :: stack
  sc_Contract :: Contract

text \<open>\<^verbatim>\<open>nil\<close> and the empty slice are not told apart by the code that reads these results.\<close>

definition nil_bytes :: "byte list option \<Rightarrow> byte list" where
  "nil_bytes b = (case b of None \<Rightarrow> [] | Some bs \<Rightarrow> bs)"

definition evm_keccak :: "EVM \<Rightarrow> byte list \<Rightarrow> hash" where
  "evm_keccak vm = keccak (sdb_ext (evm_ibs vm))"

end
