(* ===== verification/Evm_Gas.thy ===== *)
theory Evm_Gas
  imports Evm_Machine
begin

text \<open>
  Dynamic gas (\<^verbatim>\<open>internal/vm/gas.go\<close>, \<^verbatim>\<open>gas_table.go\<close>, \<^verbatim>\<open>operations_acl.go\<close>) with the prices of
  \<^verbatim>\<open>params/protocol_params.go\<close>. A gas function returns the price and an error, and may change the
  machine (access list, refund counter, \<^verbatim>\<open>callGasTemp\<close>), the gas of the contract and the fee recorded
  in the memory; \<open>None\<close> is a panic.
\<close>

section \<open>Prices\<close>

abbreviation (input) CallValueTransferGas :: u64 where "CallValueTransferGas \<equiv> 9000"
abbreviation (input) CallNewAccountGas :: u64 where "CallNewAccountGas \<equiv> 25000"
abbreviation (input) QuadCoeffDiv :: u64 where "QuadCoeffDiv \<equiv> 512"
abbreviation (input) LogDataGas :: u64 where "LogDataGas \<equiv> 8"
abbreviation (input) CallStipend :: u64 where "CallStipend \<equiv> 2300"
abbreviation (input) SstoreSetGas :: u64 where "SstoreSetGas \<equiv> 20000"
abbreviation (input) SstoreResetGas :: u64 where "SstoreResetGas \<equiv> 5000"
abbreviation (input) SstoreClearGas :: u64 where "SstoreClearGas \<equiv> 5000"
abbreviation (input) SstoreRefundGas :: u64 where "SstoreRefundGas \<equiv> 15000"
abbreviation (input) NetSstoreNoopGas :: u64 where "NetSstoreNoopGas \<equiv> 200"
abbreviation (input) NetSstoreInitGas :: u64 where "NetSstoreInitGas \<equiv> 20000"
abbreviation (input) NetSstoreCleanGas :: u64 where "NetSstoreCleanGas \<equiv> 5000"
abbreviation (input) NetSstoreDirtyGas :: u64 where "NetSstoreDirtyGas \<equiv> 200"
abbreviation (input) NetSstoreClearRefund :: u64 where "NetSstoreClearRefund \<equiv> 15000"
abbreviation (input) NetSstoreResetRefund :: u64 where "NetSstoreResetRefund \<equiv> 4800"
abbreviation (input) NetSstoreResetClearRefund :: u64 where "NetSstoreResetClearRefund \<equiv> 19800"
abbreviation (input) Keccak256WordGas :: u64 where "Keccak256WordGas \<equiv> 6"
abbreviation (input) InitCodeWordGas :: u64 where "InitCodeWordGas \<equiv> 2"
abbreviation (input) SstoreSentryGasEIP2200 :: u64 where "SstoreSentryGasEIP2200 \<equiv> 2300"
abbreviation (input) SstoreSetGasEIP2200 :: u64 where "SstoreSetGasEIP2200 \<equiv> 20000"
abbreviation (input) SstoreResetGasEIP2200 :: u64 where "SstoreResetGasEIP2200 \<equiv> 5000"
abbreviation (input) SstoreClearsScheduleRefundEIP2200 :: u64 where "SstoreClearsScheduleRefundEIP2200 \<equiv> 15000"
abbreviation (input) ColdAccountAccessCostEIP2929 :: u64 where "ColdAccountAccessCostEIP2929 \<equiv> 2600"
abbreviation (input) ColdSloadCostEIP2929 :: u64 where "ColdSloadCostEIP2929 \<equiv> 2100"
abbreviation (input) WarmStorageReadCostEIP2929 :: u64 where "WarmStorageReadCostEIP2929 \<equiv> 100"
abbreviation (input) TxAccessListStorageKeyGas :: u64 where "TxAccessListStorageKeyGas \<equiv> 1900"
abbreviation (input) SstoreClearsScheduleRefundEIP3529 :: u64 where
  "SstoreClearsScheduleRefundEIP3529 \<equiv> SstoreResetGasEIP2200 - ColdSloadCostEIP2929 + TxAccessListStorageKeyGas"
abbreviation (input) ExpGas :: u64 where "ExpGas \<equiv> 10"
abbreviation (input) ExpByteFrontier :: u64 where "ExpByteFrontier \<equiv> 10"
abbreviation (input) ExpByteEIP160 :: u64 where "ExpByteEIP160 \<equiv> 50"
abbreviation (input) LogGas :: u64 where "LogGas \<equiv> 375"
abbreviation (input) LogTopicGas :: u64 where "LogTopicGas \<equiv> 375"
abbreviation (input) CopyGas :: u64 where "CopyGas \<equiv> 3"
abbreviation (input) MemoryGas :: u64 where "MemoryGas \<equiv> 3"
abbreviation (input) SelfdestructRefundGas :: u64 where "SelfdestructRefundGas \<equiv> 24000"
abbreviation (input) SelfdestructGasEIP150 :: u64 where "SelfdestructGasEIP150 \<equiv> 5000"
abbreviation (input) CreateBySelfdestructGas :: u64 where "CreateBySelfdestructGas \<equiv> 25000"
abbreviation (input) SloadGasEIP2200 :: u64 where "SloadGasEIP2200 \<equiv> 800"
abbreviation (input) MaxCodeSize :: nat where "MaxCodeSize \<equiv> 24576"
abbreviation (input) MaxInitCodeSize :: u64 where "MaxInitCodeSize \<equiv> 49152"

section \<open>Memory expansion\<close>

definition memoryGasCost :: "Memory \<Rightarrow> u64 \<Rightarrow> (u64 \<times> evm_error option) \<times> Memory" where
  "memoryGasCost mem newMemSize =
     (if newMemSize = 0 then ((0, None), mem)
      else if newMemSize > 0x1FFFFFFFE0 then ((0, Some ErrGasUintOverflow), mem)
      else (let newMemSizeWords = ToWordSize newMemSize in
            if newMemSizeWords * 32 > of_nat (mem_Len mem) then
              (let square = newMemSizeWords * newMemSizeWords;
                   linCoef = newMemSizeWords * MemoryGas;
                   quadCoef = square div QuadCoeffDiv;
                   newTotalFee = linCoef + quadCoef
               in ((newTotalFee - m_lastGasCost mem, None), mem\<lparr>m_lastGasCost := newTotalFee\<rparr>))
            else ((0, None), mem)))"

section \<open>Gas functions\<close>

type_synonym gas_result = "((u64 \<times> evm_error option) \<times> EVM \<times> Contract \<times> Memory) option"
type_synonym gasFunc = "Env \<Rightarrow> EVM \<Rightarrow> Contract \<Rightarrow> stack \<Rightarrow> Memory \<Rightarrow> u64 \<Rightarrow> gas_result"

abbreviation gas_ok :: "u64 \<Rightarrow> EVM \<Rightarrow> Contract \<Rightarrow> Memory \<Rightarrow> gas_result" where
  "gas_ok g vm c mem \<equiv> Some ((g, None), vm, c, mem)"

abbreviation gas_err :: "evm_error \<Rightarrow> EVM \<Rightarrow> Contract \<Rightarrow> Memory \<Rightarrow> gas_result" where
  "gas_err e vm c mem \<equiv> Some ((0, Some e), vm, c, mem)"

abbreviation set_ibs :: "EVM \<Rightarrow> IntraBlockState \<Rightarrow> EVM" where
  "set_ibs vm s \<equiv> vm\<lparr>evm_ibs := s\<rparr>"

text \<open>\<^verbatim>\<open>gas, overflow = math.SafeAdd(gas, x)\<close>, \<^verbatim>\<open>return 0, ErrGasUintOverflow\<close> on overflow.\<close>

definition gas_sum :: "u64 \<Rightarrow> u64 \<Rightarrow> EVM \<Rightarrow> Contract \<Rightarrow> Memory \<Rightarrow> gas_result" where
  "gas_sum gas x vm c mem = (let (g, overflow) = SafeAdd gas x in
     if overflow then gas_err ErrGasUintOverflow vm c mem else gas_ok g vm c mem)"

definition memoryCopierGas :: "nat \<Rightarrow> gasFunc" where
  "memoryCopierGas stackpos env vm c st mem memorySize =
     (case memoryGasCost mem memorySize of
        ((_, Some err), mem) \<Rightarrow> gas_err err vm c mem
      | ((gas, None), mem) \<Rightarrow> do {
          x \<leftarrow> st_Back st stackpos;
          let (words, overflow) = Uint64WithOverflow x;
          if overflow then gas_err ErrGasUintOverflow vm c mem
          else (let (words, overflow) = SafeMul (ToWordSize words) CopyGas in
                if overflow then gas_err ErrGasUintOverflow vm c mem
                else gas_sum gas words vm c mem) })"

definition gasCallDataCopy :: gasFunc where "gasCallDataCopy = memoryCopierGas 2"
definition gasCodeCopy :: gasFunc where "gasCodeCopy = memoryCopierGas 2"
definition gasExtCodeCopy :: gasFunc where "gasExtCodeCopy = memoryCopierGas 3"
definition gasReturnDataCopy :: gasFunc where "gasReturnDataCopy = memoryCopierGas 2"

definition gasSStore :: gasFunc where
  "gasSStore env vm c st mem memorySize = do {
     value \<leftarrow> st_Back st 1;
     key \<leftarrow> st_Back st 0;
     (current, s) \<leftarrow> GetState (evm_ibs vm) (ct_self c) key;
     if rl_IsPetersburg (env_rules env) \<or> \<not> rl_IsConstantinople (env_rules env) then
       (if current = 0 \<and> value \<noteq> 0 then gas_ok SstoreSetGas (set_ibs vm s) c mem
        else if current \<noteq> 0 \<and> value = 0
          then gas_ok SstoreClearGas (set_ibs vm (AddRefund s SstoreRefundGas)) c mem
        else gas_ok SstoreResetGas (set_ibs vm s) c mem)
     else if current = value then gas_ok NetSstoreNoopGas (set_ibs vm s) c mem
     else do {
       (original, s) \<leftarrow> GetCommittedState s (ct_self c) key;
       if original = current then
         (if original = 0 then gas_ok NetSstoreInitGas (set_ibs vm s) c mem
          else gas_ok NetSstoreCleanGas
            (set_ibs vm (if value = 0 then AddRefund s NetSstoreClearRefund else s)) c mem)
       else (let s = (if original \<noteq> 0 then
                        (if current = 0 then SubRefund s NetSstoreClearRefund
                         else if value = 0 then AddRefund s NetSstoreClearRefund else s)
                      else s);
                 s = (if original = value then
                        (if original = 0 then AddRefund s NetSstoreResetClearRefund
                         else AddRefund s NetSstoreResetRefund)
                      else s)
             in gas_ok NetSstoreDirtyGas (set_ibs vm s) c mem) } }"

definition gasSStoreEIP2200 :: gasFunc where
  "gasSStoreEIP2200 env vm c st mem memorySize =
     (if ct_Gas c \<le> SstoreSentryGasEIP2200 then gas_err ErrSentry vm c mem
      else do {
        value \<leftarrow> st_Back st 1;
        key \<leftarrow> st_Back st 0;
        (current, s) \<leftarrow> GetState (evm_ibs vm) (ct_self c) key;
        if current = value then gas_ok SloadGasEIP2200 (set_ibs vm s) c mem
        else do {
          (original, s) \<leftarrow> GetCommittedState s (ct_self c) key;
          if original = current then
            (if original = 0 then gas_ok SstoreSetGasEIP2200 (set_ibs vm s) c mem
             else gas_ok SstoreResetGasEIP2200
               (set_ibs vm (if value = 0 then AddRefund s SstoreClearsScheduleRefundEIP2200 else s)) c mem)
          else (let s = (if original \<noteq> 0 then
                           (if current = 0 then SubRefund s SstoreClearsScheduleRefundEIP2200
                            else if value = 0 then AddRefund s SstoreClearsScheduleRefundEIP2200 else s)
                         else s);
                    s = (if original = value then
                           (if original = 0 then AddRefund s (SstoreSetGasEIP2200 - SloadGasEIP2200)
                            else AddRefund s (SstoreResetGasEIP2200 - SloadGasEIP2200))
                         else s)
                in gas_ok SloadGasEIP2200 (set_ibs vm s) c mem) } })"

definition makeGasLog :: "u64 \<Rightarrow> gasFunc" where
  "makeGasLog n env vm c st mem memorySize = do {
     x \<leftarrow> st_Back st 1;
     let (requestedSize, overflow) = Uint64WithOverflow x;
     if overflow then gas_err ErrGasUintOverflow vm c mem
     else (case memoryGasCost mem memorySize of
        ((_, Some err), mem) \<Rightarrow> gas_err err vm c mem
      | ((gas, None), mem) \<Rightarrow>
          (let (gas, overflow) = SafeAdd gas LogGas in
           if overflow then gas_err ErrGasUintOverflow vm c mem
           else (let (gas, overflow) = SafeAdd gas (n * LogTopicGas) in
           if overflow then gas_err ErrGasUintOverflow vm c mem
           else (let (memorySizeGas, overflow) = SafeMul requestedSize LogDataGas in
           if overflow then gas_err ErrGasUintOverflow vm c mem
           else gas_sum gas memorySizeGas vm c mem)))) }"

definition gasKeccak256 :: gasFunc where
  "gasKeccak256 env vm c st mem memorySize =
     (case memoryGasCost mem memorySize of
        ((_, Some err), mem) \<Rightarrow> gas_err err vm c mem
      | ((gas, None), mem) \<Rightarrow> do {
          x \<leftarrow> st_Back st 1;
          let (wordGas, overflow) = Uint64WithOverflow x;
          if overflow then gas_err ErrGasUintOverflow vm c mem
          else (let (wordGas, overflow) = SafeMul (ToWordSize wordGas) Keccak256WordGas in
                if overflow then gas_err ErrGasUintOverflow vm c mem
                else gas_sum gas wordGas vm c mem) })"

definition pureMemoryGascost :: gasFunc where
  "pureMemoryGascost env vm c st mem memorySize =
     (let (r, mem) = memoryGasCost mem memorySize in Some (r, vm, c, mem))"

definition gasReturn :: gasFunc where "gasReturn = pureMemoryGascost"
definition gasRevert :: gasFunc where "gasRevert = pureMemoryGascost"
definition gasMLoad :: gasFunc where "gasMLoad = pureMemoryGascost"
definition gasMStore8 :: gasFunc where "gasMStore8 = pureMemoryGascost"
definition gasMStore :: gasFunc where "gasMStore = pureMemoryGascost"
definition gasCreate :: gasFunc where "gasCreate = pureMemoryGascost"

definition gasCreate2 :: gasFunc where
  "gasCreate2 env vm c st mem memorySize =
     (case memoryGasCost mem memorySize of
        ((_, Some err), mem) \<Rightarrow> gas_err err vm c mem
      | ((gas, None), mem) \<Rightarrow> do {
          x \<leftarrow> st_Back st 2;
          let (len, overflow) = Uint64WithOverflow x;
          if overflow then gas_err ErrGasUintOverflow vm c mem
          else (let (wordGas, overflow) = SafeMul (ToWordSize len) Keccak256WordGas in
                if overflow then gas_err ErrGasUintOverflow vm c mem
                else gas_sum gas wordGas vm c mem) })"

definition gasCreateEip3860 :: gasFunc where
  "gasCreateEip3860 env vm c st mem memorySize =
     (case memoryGasCost mem memorySize of
        ((_, Some err), mem) \<Rightarrow> gas_err err vm c mem
      | ((gas, None), mem) \<Rightarrow> do {
          x \<leftarrow> st_Back st 2;
          let (len, overflow) = Uint64WithOverflow x;
          if overflow \<or> len > MaxInitCodeSize then gas_err ErrGasUintOverflow vm c mem
          else gas_sum gas (InitCodeWordGas * ToWordSize len) vm c mem })"

definition gasCreate2Eip3860 :: gasFunc where
  "gasCreate2Eip3860 env vm c st mem memorySize =
     (case memoryGasCost mem memorySize of
        ((_, Some err), mem) \<Rightarrow> gas_err err vm c mem
      | ((gas, None), mem) \<Rightarrow> do {
          x \<leftarrow> st_Back st 2;
          let (len, overflow) = Uint64WithOverflow x;
          if overflow \<or> len > MaxInitCodeSize then gas_err ErrGasUintOverflow vm c mem
          else gas_sum gas ((InitCodeWordGas + Keccak256WordGas) * ToWordSize len) vm c mem })"

definition BitLen :: "u256 \<Rightarrow> nat" where
  "BitLen x = nat_bits (unat x)"

definition gasExpFrontier :: gasFunc where
  "gasExpFrontier env vm c st mem memorySize = do {
     y \<leftarrow> st_Back st 1;
     let expByteLen = of_nat ((BitLen y + 7) div 8);
     gas_sum (expByteLen * ExpByteFrontier) ExpGas vm c mem }"

definition gasExpEIP160 :: gasFunc where
  "gasExpEIP160 env vm c st mem memorySize = do {
     y \<leftarrow> st_Back st 1;
     let expByteLen = of_nat ((BitLen y + 7) div 8);
     gas_sum (expByteLen * ExpByteEIP160) ExpGas vm c mem }"

section \<open>Calls\<close>

definition callGas :: "bool \<Rightarrow> u64 \<Rightarrow> u64 \<Rightarrow> u256 \<Rightarrow> u64 \<times> evm_error option" where
  "callGas isEip150 availableGas base callCost =
     (let avail = availableGas - base; gas = avail - avail div 64 in
      if isEip150 \<and> (\<not> IsUint64 callCost \<or> gas < Uint64 callCost) then (gas, None)
      else if \<not> IsUint64 callCost then (0, Some ErrGasUintOverflow)
      else (Uint64 callCost, None))"

text \<open>The common end of the call prices: the gas passed on is recorded and added to the price.\<close>

definition call_gas_end :: "Env \<Rightarrow> EVM \<Rightarrow> Contract \<Rightarrow> stack \<Rightarrow> Memory \<Rightarrow> u64 \<Rightarrow> gas_result" where
  "call_gas_end env vm c st mem gas = do {
     cost \<leftarrow> st_Back st 0;
     let (callGasTemp, err) = callGas (rl_IsTangerineWhistle (env_rules env)) (ct_Gas c) gas cost;
     let vm = vm\<lparr>evm_callGasTemp := callGasTemp\<rparr>;
     case err of Some e \<Rightarrow> gas_err e vm c mem
     | None \<Rightarrow> gas_sum gas callGasTemp vm c mem }"

definition gasCall :: gasFunc where
  "gasCall env vm c st mem memorySize = do {
     value \<leftarrow> st_Back st 2;
     a \<leftarrow> st_Back st 1;
     let transfersValue = (value \<noteq> 0);
     let address = Bytes20 a;
     let (gas, s) = (if rl_IsSpuriousDragon (env_rules env) then
           (if transfersValue then
              (let (e, s) = Empty (evm_ibs vm) address in (if e then CallNewAccountGas else 0, s))
            else (0, evm_ibs vm))
         else (let (e, s) = Exist (evm_ibs vm) address in (if \<not> e then CallNewAccountGas else 0, s)));
     let vm = set_ibs vm s;
     let gas = (if transfersValue then gas + CallValueTransferGas else gas);
     case memoryGasCost mem memorySize of
       ((_, Some err), mem) \<Rightarrow> gas_err err vm c mem
     | ((memoryGas, None), mem) \<Rightarrow>
         (let (gas, overflow) = SafeAdd gas memoryGas in
          if overflow then gas_err ErrGasUintOverflow vm c mem
          else call_gas_end env vm c st mem gas) }"

definition gasCallCode :: gasFunc where
  "gasCallCode env vm c st mem memorySize =
     (case memoryGasCost mem memorySize of
        ((_, Some err), mem) \<Rightarrow> gas_err err vm c mem
      | ((memoryGas, None), mem) \<Rightarrow> do {
          value \<leftarrow> st_Back st 2;
          let gas = (if value \<noteq> 0 then CallValueTransferGas else 0);
          let (gas, overflow) = SafeAdd gas memoryGas;
          if overflow then gas_err ErrGasUintOverflow vm c mem
          else call_gas_end env vm c st mem gas })"

definition gasDelegateCall :: gasFunc where
  "gasDelegateCall env vm c st mem memorySize =
     (case memoryGasCost mem memorySize of
        ((_, Some err), mem) \<Rightarrow> gas_err err vm c mem
      | ((gas, None), mem) \<Rightarrow> call_gas_end env vm c st mem gas)"

definition gasStaticCall :: gasFunc where
  "gasStaticCall env vm c st mem memorySize =
     (case memoryGasCost mem memorySize of
        ((_, Some err), mem) \<Rightarrow> gas_err err vm c mem
      | ((gas, None), mem) \<Rightarrow> call_gas_end env vm c st mem gas)"

definition gasSelfdestruct :: gasFunc where
  "gasSelfdestruct env vm c st mem memorySize = do {
     (gas, s) \<leftarrow> (if rl_IsTangerineWhistle (env_rules env) then do {
          a \<leftarrow> st_Back st 0;
          let address = Bytes20 a;
          Some (if rl_IsSpuriousDragon (env_rules env) then
              (let (e, s) = Empty (evm_ibs vm) address in
               if e then (let (b, s) = GetBalance s (ct_self c) in
                 (if b \<noteq> 0 then SelfdestructGasEIP150 + CreateBySelfdestructGas else SelfdestructGasEIP150, s))
               else (SelfdestructGasEIP150, s))
            else (let (e, s) = Exist (evm_ibs vm) address in
              (if \<not> e then SelfdestructGasEIP150 + CreateBySelfdestructGas else SelfdestructGasEIP150, s))) }
        else Some (0, evm_ibs vm));
     let (h, s) = HasSelfdestructed s (ct_self c);
     gas_ok gas (set_ibs vm (if \<not> h then AddRefund s SelfdestructRefundGas else s)) c mem }"

section \<open>State access prices\<close>

definition makeGasSStoreFunc :: "u64 \<Rightarrow> gasFunc" where
  "makeGasSStoreFunc clearingRefund env vm c st mem memorySize =
     (if ct_Gas c \<le> SstoreSentryGasEIP2200 then gas_err ErrSentry vm c mem
      else do {
        y \<leftarrow> st_Back st 1;
        slot \<leftarrow> st_Peek st;
        (current, s) \<leftarrow> GetState (evm_ibs vm) (ct_self c) slot;
        (addrPresent, slotPresent) \<leftarrow> SlotInAccessList s (ct_self c) slot;
        (cost, s) \<leftarrow> (if \<not> slotPresent then do {
            s \<leftarrow> AddSlotToAccessList s (ct_self c) slot;
            if \<not> addrPresent then None else Some (ColdSloadCostEIP2929, s) }
          else Some (0, s));
        let value = y;
        if current = value then gas_ok (cost + WarmStorageReadCostEIP2929) (set_ibs vm s) c mem
        else do {
          (original, s) \<leftarrow> GetCommittedState s (ct_self c) slot;
          if original = current then
            (if original = 0 then gas_ok (cost + SstoreSetGasEIP2200) (set_ibs vm s) c mem
             else gas_ok (cost + (SstoreResetGasEIP2200 - ColdSloadCostEIP2929))
               (set_ibs vm (if value = 0 then AddRefund s clearingRefund else s)) c mem)
          else (let s = (if original \<noteq> 0 then
                           (if current = 0 then SubRefund s clearingRefund
                            else if value = 0 then AddRefund s clearingRefund else s)
                         else s);
                    s = (if original = value then
                           (if original = 0 then AddRefund s (SstoreSetGasEIP2200 - WarmStorageReadCostEIP2929)
                            else AddRefund s ((SstoreResetGasEIP2200 - ColdSloadCostEIP2929) -
                              WarmStorageReadCostEIP2929))
                         else s)
                in gas_ok (cost + WarmStorageReadCostEIP2929) (set_ibs vm s) c mem) } })"

definition gasSStoreEIP2929 :: gasFunc where
  "gasSStoreEIP2929 = makeGasSStoreFunc SstoreClearsScheduleRefundEIP2200"

definition gasSStoreEIP3529 :: gasFunc where
  "gasSStoreEIP3529 = makeGasSStoreFunc SstoreClearsScheduleRefundEIP3529"

definition gasSLoadEIP2929 :: gasFunc where
  "gasSLoadEIP2929 env vm c st mem memorySize = do {
     slot \<leftarrow> st_Peek st;
     (_, slotPresent) \<leftarrow> SlotInAccessList (evm_ibs vm) (ct_self c) slot;
     if \<not> slotPresent then do {
       s \<leftarrow> AddSlotToAccessList (evm_ibs vm) (ct_self c) slot;
       gas_ok ColdSloadCostEIP2929 (set_ibs vm s) c mem }
     else gas_ok WarmStorageReadCostEIP2929 vm c mem }"

definition gasExtCodeCopyEIP2929 :: gasFunc where
  "gasExtCodeCopyEIP2929 env vm c st mem memorySize = do {
     ((gas, err), vm, c, mem) \<leftarrow> gasExtCodeCopy env vm c st mem memorySize;
     case err of Some e \<Rightarrow> gas_err e vm c mem
     | None \<Rightarrow> do {
         a \<leftarrow> st_Peek st;
         let addr = Bytes20 a;
         if \<not> AddressInAccessList (evm_ibs vm) addr then
           gas_sum gas (ColdAccountAccessCostEIP2929 - WarmStorageReadCostEIP2929)
             (set_ibs vm (AddAddressToAccessList (evm_ibs vm) addr)) c mem
         else gas_ok gas vm c mem } }"

definition gasEip2929AccountCheck :: gasFunc where
  "gasEip2929AccountCheck env vm c st mem memorySize = do {
     a \<leftarrow> st_Peek st;
     let addr = Bytes20 a;
     if \<not> AddressInAccessList (evm_ibs vm) addr then
       gas_ok (ColdAccountAccessCostEIP2929 - WarmStorageReadCostEIP2929)
         (set_ibs vm (AddAddressToAccessList (evm_ibs vm) addr)) c mem
     else gas_ok 0 vm c mem }"

definition makeCallVariantGasCallEIP2929 :: "gasFunc \<Rightarrow> gasFunc" where
  "makeCallVariantGasCallEIP2929 oldCalculator env vm c st mem memorySize = do {
     a \<leftarrow> st_Back st 1;
     let addr = Bytes20 a;
     let warmAccess = AddressInAccessList (evm_ibs vm) addr;
     let coldCost = ColdAccountAccessCostEIP2929 - WarmStorageReadCostEIP2929;
     if warmAccess then oldCalculator env vm c st mem memorySize
     else (let vm = set_ibs vm (AddAddressToAccessList (evm_ibs vm) addr);
               (paid, c) = UseGas c coldCost
           in if \<not> paid then gas_err ErrOutOfGas vm c mem
              else do {
                ((gas, err), vm, c, mem) \<leftarrow> oldCalculator env vm c st mem memorySize;
                case err of Some e \<Rightarrow> Some ((gas, err), vm, c, mem)
                | None \<Rightarrow> gas_ok (gas + coldCost) vm (c\<lparr>ct_Gas := ct_Gas c + coldCost\<rparr>) mem }) }"

definition gasCallEIP2929 :: gasFunc where
  "gasCallEIP2929 = makeCallVariantGasCallEIP2929 gasCall"

definition gasDelegateCallEIP2929 :: gasFunc where
  "gasDelegateCallEIP2929 = makeCallVariantGasCallEIP2929 gasDelegateCall"

definition gasStaticCallEIP2929 :: gasFunc where
  "gasStaticCallEIP2929 = makeCallVariantGasCallEIP2929 gasStaticCall"

definition gasCallCodeEIP2929 :: gasFunc where
  "gasCallCodeEIP2929 = makeCallVariantGasCallEIP2929 gasCallCode"

definition makeSelfdestructGasFn :: "bool \<Rightarrow> gasFunc" where
  "makeSelfdestructGasFn refundsEnabled env vm c st mem memorySize = do {
     a \<leftarrow> st_Peek st;
     let address = Bytes20 a;
     let (gas, s) = (if \<not> AddressInAccessList (evm_ibs vm) address
        then (ColdAccountAccessCostEIP2929, AddAddressToAccessList (evm_ibs vm) address)
        else (0, evm_ibs vm));
     let (e, s) = Empty s address;
     let (gas, s) = (if e then (let (b, s) = GetBalance s (ct_self c) in
           (if b \<noteq> 0 then gas + CreateBySelfdestructGas else gas, s))
        else (gas, s));
     let s = (if refundsEnabled then
           (let (h, s) = HasSelfdestructed s (ct_self c) in
            if \<not> h then AddRefund s SelfdestructRefundGas else s)
        else s);
     gas_ok gas (set_ibs vm s) c mem }"

definition gasSelfdestructEIP2929 :: gasFunc where
  "gasSelfdestructEIP2929 = makeSelfdestructGasFn True"

definition gasSelfdestructEIP3529 :: gasFunc where
  "gasSelfdestructEIP3529 = makeSelfdestructGasFn False"

end
