(* ===== verification/Evm_Instructions.thy ===== *)
theory Evm_Instructions
  imports Evm_Gas
begin

text \<open>
  The instructions that do not call another contract (\<^verbatim>\<open>internal/vm/instructions.go\<close>, \<^verbatim>\<open>eips.go\<close>), one
  definition per function of the source. An instruction returns its result bytes and an error, the
  program counter, the machine and the scope; \<open>None\<close> is a panic.
\<close>

type_synonym exec_result = "((byte list \<times> evm_error option) \<times> u64 \<times> EVM \<times> ScopeContext)"
type_synonym pureFunc = "Env \<Rightarrow> u64 \<Rightarrow> EVM \<Rightarrow> ScopeContext \<Rightarrow> exec_result option"

abbreviation ok :: "u64 \<Rightarrow> EVM \<Rightarrow> ScopeContext \<Rightarrow> exec_result option" where
  "ok pc vm sc \<equiv> Some (([], None), pc, vm, sc)"

abbreviation fail :: "evm_error \<Rightarrow> u64 \<Rightarrow> EVM \<Rightarrow> ScopeContext \<Rightarrow> exec_result option" where
  "fail e pc vm sc \<equiv> Some (([], Some e), pc, vm, sc)"

abbreviation with_stack :: "ScopeContext \<Rightarrow> stack \<Rightarrow> ScopeContext" where
  "with_stack sc st \<equiv> sc\<lparr>sc_Stack := st\<rparr>"

section \<open>256-bit arithmetic\<close>

text \<open>
  The operations of \<^verbatim>\<open>uint256.Int\<close> that are not those of the word type: division truncates towards
  zero on two's complement values and gives 0 on a zero divisor.
\<close>

definition SDiv :: "u256 \<Rightarrow> u256 \<Rightarrow> u256" where
  "SDiv n d = (if d = 0 then 0
     else word_of_int (sgn (sint n) * sgn (sint d) * (\<bar>sint n\<bar> div \<bar>sint d\<bar>)))"

definition SMod :: "u256 \<Rightarrow> u256 \<Rightarrow> u256" where
  "SMod x y = (if y = 0 then 0 else word_of_int (sgn (sint x) * (\<bar>sint x\<bar> mod \<bar>sint y\<bar>)))"

definition AddMod :: "u256 \<Rightarrow> u256 \<Rightarrow> u256 \<Rightarrow> u256" where
  "AddMod x y m = of_nat ((unat x + unat y) mod unat m)"

definition MulMod :: "u256 \<Rightarrow> u256 \<Rightarrow> u256 \<Rightarrow> u256" where
  "MulMod x y m = of_nat ((unat x * unat y) mod unat m)"

definition ExtendSign :: "u256 \<Rightarrow> u256 \<Rightarrow> u256" where
  "ExtendSign x byteNum = (if byteNum \<ge> 31 then x else signed_take_bit (8 * unat byteNum + 7) x)"

definition Byte :: "u256 \<Rightarrow> u256 \<Rightarrow> u256" where
  "Byte n z = (if n < 32 then drop_bit (8 * (31 - unat n)) z AND 0xff else 0)"

definition bool_word :: "bool \<Rightarrow> u256" where
  "bool_word b = (if b then 1 else 0)"

section \<open>Shapes\<close>

text \<open>Pop one operand and overwrite the next, overwrite the top, push a value.\<close>

definition binop :: "(u256 \<Rightarrow> u256 \<Rightarrow> u256) \<Rightarrow> pureFunc" where
  "binop f env pc vm sc = do {
     (x, st) \<leftarrow> st_Pop (sc_Stack sc);
     y \<leftarrow> st_Peek st;
     ok pc vm (with_stack sc (f x y # tl st)) }"

definition unop :: "(u256 \<Rightarrow> u256) \<Rightarrow> pureFunc" where
  "unop f env pc vm sc = do {
     x \<leftarrow> st_Peek (sc_Stack sc);
     ok pc vm (with_stack sc (f x # tl (sc_Stack sc))) }"

definition triop :: "(u256 \<Rightarrow> u256 \<Rightarrow> u256 \<Rightarrow> u256) \<Rightarrow> pureFunc" where
  "triop f env pc vm sc = do {
     (x, st) \<leftarrow> st_Pop (sc_Stack sc);
     (y, st) \<leftarrow> st_Pop st;
     z \<leftarrow> st_Peek st;
     ok pc vm (with_stack sc (f x y z # tl st)) }"

definition push_value :: "u256 \<Rightarrow> pureFunc" where
  "push_value v env pc vm sc = ok pc vm (with_stack sc (st_Push (sc_Stack sc) v))"

text \<open>Pushing a nil pointer panics.\<close>

definition push_ptr :: "u256 option \<Rightarrow> pureFunc" where
  "push_ptr p env pc vm sc = do { v \<leftarrow> p; push_value v env pc vm sc }"

section \<open>Arithmetic, comparison and bits\<close>

definition opAdd :: pureFunc where "opAdd = binop (\<lambda>x y. x + y)"
definition opSub :: pureFunc where "opSub = binop (\<lambda>x y. x - y)"
definition opMul :: pureFunc where "opMul = binop (\<lambda>x y. x * y)"
definition opDiv :: pureFunc where "opDiv = binop (\<lambda>x y. if y = 0 then 0 else x div y)"
definition opSdiv :: pureFunc where "opSdiv = binop SDiv"
definition opMod :: pureFunc where "opMod = binop (\<lambda>x y. if y = 0 then 0 else x mod y)"
definition opSmod :: pureFunc where "opSmod = binop SMod"

definition opExp :: pureFunc where
  "opExp = binop (\<lambda>base exponent.
     if exponent = 0 then 1
     else if base = 0 then 0
     else if exponent < 2 then base
     else if base < 2 then 1
     else if base < 3 then (if exponent < 256 then push_bit (unat (Uint64 exponent)) 1 else 0)
     else base ^ unat exponent)"

definition opSignExtend :: pureFunc where "opSignExtend = binop (\<lambda>back num. ExtendSign num back)"
definition opNot :: pureFunc where "opNot = unop (\<lambda>x. NOT x)"
definition opLt :: pureFunc where "opLt = binop (\<lambda>x y. bool_word (x < y))"
definition opGt :: pureFunc where "opGt = binop (\<lambda>x y. bool_word (x > y))"
definition opSlt :: pureFunc where "opSlt = binop (\<lambda>x y. bool_word (sint x < sint y))"
definition opSgt :: pureFunc where "opSgt = binop (\<lambda>x y. bool_word (sint x > sint y))"
definition opEq :: pureFunc where "opEq = binop (\<lambda>x y. bool_word (x = y))"
definition opIszero :: pureFunc where "opIszero = unop (\<lambda>x. bool_word (x = 0))"
definition opAnd :: pureFunc where "opAnd = binop (\<lambda>x y. x AND y)"
definition opOr :: pureFunc where "opOr = binop (\<lambda>x y. x OR y)"
definition opXor :: pureFunc where "opXor = binop (\<lambda>x y. x XOR y)"
definition opByte :: pureFunc where "opByte = binop Byte"
definition opAddmod :: pureFunc where "opAddmod = triop (\<lambda>x y z. if z = 0 then 0 else AddMod x y z)"
definition opMulmod :: pureFunc where "opMulmod = triop (\<lambda>x y z. if z = 0 then 0 else MulMod x y z)"

definition opSHL :: pureFunc where
  "opSHL = binop (\<lambda>shift value. if shift < 256 then push_bit (unat (Uint64 shift)) value else 0)"

definition opSHR :: pureFunc where
  "opSHR = binop (\<lambda>shift value. if shift < 256 then drop_bit (unat (Uint64 shift)) value else 0)"

definition opSAR :: pureFunc where
  "opSAR = binop (\<lambda>shift value.
     if shift > 255 then (if sint value \<ge> 0 then 0 else - 1)
     else signed_drop_bit (unat (Uint64 shift)) value)"

section \<open>Memory and environment\<close>

definition opKeccak256 :: pureFunc where
  "opKeccak256 env pc vm sc = do {
     (offset, st) \<leftarrow> st_Pop (sc_Stack sc);
     sz \<leftarrow> st_Peek st;
     data \<leftarrow> GetPtr (sc_Memory sc) (sint (Uint64 offset)) (sint (Uint64 sz));
     ok pc vm (with_stack sc (evm_keccak vm (nil_bytes data) # tl st)) }"

definition opAddress :: pureFunc where
  "opAddress env pc vm sc = push_value (ucast (ct_self (sc_Contract sc))) env pc vm sc"

definition opBalance :: pureFunc where
  "opBalance env pc vm sc = do {
     slot \<leftarrow> st_Peek (sc_Stack sc);
     let (b, s) = GetBalance (evm_ibs vm) (Bytes20 slot);
     ok pc (set_ibs vm s) (with_stack sc (b # tl (sc_Stack sc))) }"

definition opOrigin :: pureFunc where
  "opOrigin env = push_value (ucast (tx_Origin (env_txContext env))) env"

definition opCaller :: pureFunc where
  "opCaller env pc vm sc = push_value (ucast (ct_CallerAddress (sc_Contract sc))) env pc vm sc"

definition opCallValue :: pureFunc where
  "opCallValue env pc vm sc = push_ptr (ct_value (sc_Contract sc)) env pc vm sc"

definition opCallDataLoad :: pureFunc where
  "opCallDataLoad env pc vm sc = do {
     x \<leftarrow> st_Peek (sc_Stack sc);
     let (offset, overflow) = Uint64WithOverflow x;
     v \<leftarrow> (if \<not> overflow then do {
          data \<leftarrow> getData (ct_Input (sc_Contract sc)) offset 32; Some (bytes_to_u256 data) }
        else Some 0);
     ok pc vm (with_stack sc (v # tl (sc_Stack sc))) }"

definition opCallDataSize :: pureFunc where
  "opCallDataSize env pc vm sc = push_value (ucast (of_nat (length (ct_Input (sc_Contract sc))) :: u64)) env pc vm sc"

text \<open>The copying instructions: the source data from a 64-bit offset, saturated on overflow.\<close>

definition copy_to_memory ::
  "u64 \<Rightarrow> EVM \<Rightarrow> ScopeContext \<Rightarrow> stack \<Rightarrow> u256 \<Rightarrow> u256 \<Rightarrow> byte list \<Rightarrow> exec_result option" where
  "copy_to_memory pc vm sc st memOffset len data = do {
     m \<leftarrow> mem_Set (sc_Memory sc) (Uint64 memOffset) (Uint64 len) data;
     ok pc vm (sc\<lparr>sc_Stack := st, sc_Memory := m\<rparr>) }"

definition opCallDataCopy :: pureFunc where
  "opCallDataCopy env pc vm sc = do {
     (memOffset, st) \<leftarrow> st_Pop (sc_Stack sc);
     (dataOffset, st) \<leftarrow> st_Pop st;
     (len, st) \<leftarrow> st_Pop st;
     let (dataOffset64, overflow) = Uint64WithOverflow dataOffset;
     data \<leftarrow> getData (ct_Input (sc_Contract sc)) (if overflow then - 1 else dataOffset64) (Uint64 len);
     copy_to_memory pc vm sc st memOffset len data }"

definition opReturnDataSize :: pureFunc where
  "opReturnDataSize env pc vm sc = push_value (ucast (of_nat (length (evm_returnData vm)) :: u64)) env pc vm sc"

definition opReturnDataCopy :: pureFunc where
  "opReturnDataCopy env pc vm sc = do {
     (memOffset, st) \<leftarrow> st_Pop (sc_Stack sc);
     (dataOffset, st) \<leftarrow> st_Pop st;
     (len, st) \<leftarrow> st_Pop st;
     let (offset64, overflow) = Uint64WithOverflow dataOffset;
     let e = dataOffset + len;
     let (end64, overflow2) = Uint64WithOverflow e;
     if overflow \<or> e < dataOffset \<or> overflow2 \<or> of_nat (length (evm_returnData vm)) < end64
       then fail ErrReturnDataOutOfBounds pc vm (with_stack sc st)
     else if end64 < offset64 then None
     else copy_to_memory pc vm sc st memOffset len
       (take (unat end64 - unat offset64) (drop (unat offset64) (evm_returnData vm))) }"

definition opExtCodeSize :: pureFunc where
  "opExtCodeSize env pc vm sc = do {
     slot \<leftarrow> st_Peek (sc_Stack sc);
     let (n, s) = GetCodeSize (evm_ibs vm) (Bytes20 slot);
     ok pc (set_ibs vm s) (with_stack sc (ucast (word_of_int n :: u64) # tl (sc_Stack sc))) }"

definition opCodeSize :: pureFunc where
  "opCodeSize env pc vm sc = push_value (ucast (of_nat (length (ct_Code (sc_Contract sc))) :: u64)) env pc vm sc"

definition opCodeCopy :: pureFunc where
  "opCodeCopy env pc vm sc = do {
     (memOffset, st) \<leftarrow> st_Pop (sc_Stack sc);
     (codeOffset, st) \<leftarrow> st_Pop st;
     (len, st) \<leftarrow> st_Pop st;
     let (uint64CodeOffset, overflow) = Uint64WithOverflow codeOffset;
     data \<leftarrow> getData (ct_Code (sc_Contract sc)) (if overflow then - 1 else uint64CodeOffset) (Uint64 len);
     copy_to_memory pc vm sc st memOffset len data }"

definition opExtCodeCopy :: pureFunc where
  "opExtCodeCopy env pc vm sc = do {
     (a, st) \<leftarrow> st_Pop (sc_Stack sc);
     (memOffset, st) \<leftarrow> st_Pop st;
     (codeOffset, st) \<leftarrow> st_Pop st;
     (len, st) \<leftarrow> st_Pop st;
     let (code, s) = GetCode (evm_ibs vm) (Bytes20 a);
     data \<leftarrow> getDataBig (nil_bytes code) codeOffset (Uint64 len);
     copy_to_memory pc (set_ibs vm s) sc st memOffset len data }"

definition opExtCodeHash :: pureFunc where
  "opExtCodeHash env pc vm sc = do {
     slot \<leftarrow> st_Peek (sc_Stack sc);
     let (e, s) = Empty (evm_ibs vm) (Bytes20 slot);
     let (h, s) = (if e then (0, s) else GetCodeHash s (Bytes20 slot));
     ok pc (set_ibs vm s) (with_stack sc (h # tl (sc_Stack sc))) }"

definition opGasprice :: pureFunc where
  "opGasprice env = push_ptr (tx_GasPrice (env_txContext env)) env"

definition opBlockhash :: pureFunc where
  "opBlockhash env = unop (\<lambda>num.
     (let (num64, overflow) = Uint64WithOverflow num;
          upper = bc_BlockNumber (env_context env);
          lower = (if upper < 257 then 0 else upper - 256)
      in if overflow then 0
         else if num64 \<ge> lower \<and> num64 < upper then bc_GetHash (env_context env) num64 else 0)) env"

definition opCoinbase :: pureFunc where
  "opCoinbase env = push_value (ucast (bc_Coinbase (env_context env))) env"

definition opTimestamp :: pureFunc where
  "opTimestamp env = push_value (ucast (bc_Time (env_context env))) env"

definition opNumber :: pureFunc where
  "opNumber env = push_value (ucast (bc_BlockNumber (env_context env))) env"

definition opDifficulty :: pureFunc where
  "opDifficulty env pc vm sc =
     (case bc_PrevRanDao (env_context env) of
        Some r \<Rightarrow> push_value r env pc vm sc
      | None \<Rightarrow> do {
          d \<leftarrow> bc_Difficulty (env_context env);
          if \<bar>d\<bar> \<ge> 2 ^ 256 then fail ErrDifficulty pc vm sc
          else push_value (word_of_int d) env pc vm sc })"

definition opGasLimit :: pureFunc where
  "opGasLimit env = push_value (if bc_MaxGasLimit (env_context env) then - 1
     else ucast (bc_GasLimit (env_context env))) env"

definition opPop :: pureFunc where
  "opPop env pc vm sc = do { (x, st) \<leftarrow> st_Pop (sc_Stack sc); ok pc vm (with_stack sc st) }"

definition opMload :: pureFunc where
  "opMload env pc vm sc = do {
     v \<leftarrow> st_Peek (sc_Stack sc);
     data \<leftarrow> GetPtr (sc_Memory sc) (sint (Uint64 v)) 32;
     ok pc vm (with_stack sc (bytes_to_u256 (nil_bytes data) # tl (sc_Stack sc))) }"

definition opMstore :: pureFunc where
  "opMstore env pc vm sc = do {
     (mStart, st) \<leftarrow> st_Pop (sc_Stack sc);
     (val, st) \<leftarrow> st_Pop st;
     m \<leftarrow> mem_Set32 (sc_Memory sc) (Uint64 mStart) val;
     ok pc vm (sc\<lparr>sc_Stack := st, sc_Memory := m\<rparr>) }"

definition opMstore8 :: pureFunc where
  "opMstore8 env pc vm sc = do {
     (off, st) \<leftarrow> st_Pop (sc_Stack sc);
     (val, st) \<leftarrow> st_Pop st;
     let m = sc_Memory sc;
     let i = unat (Uint64 off);
     if i < mem_Len m
       then ok pc vm (sc\<lparr>sc_Stack := st, sc_Memory := m\<lparr>m_store := (m_store m)[i := ucast (Uint64 val)]\<rparr>\<rparr>)
       else None }"

section \<open>Storage, jumps and logs\<close>

definition opSload :: pureFunc where
  "opSload env pc vm sc = do {
     loc \<leftarrow> st_Peek (sc_Stack sc);
     (v, s) \<leftarrow> GetState (evm_ibs vm) (ct_self (sc_Contract sc)) loc;
     ok pc (set_ibs vm s) (with_stack sc (v # tl (sc_Stack sc))) }"

definition opSstore :: pureFunc where
  "opSstore env pc vm sc =
     (if evm_readOnly vm then fail ErrWriteProtection pc vm sc
      else do {
        (loc, st) \<leftarrow> st_Pop (sc_Stack sc);
        (val, st) \<leftarrow> st_Pop st;
        s \<leftarrow> SetState (evm_ibs vm) (ct_self (sc_Contract sc)) loc val;
        ok pc (set_ibs vm s) (with_stack sc st) })"

text \<open>The program counter is set one before the destination: the loop increments it.\<close>

definition jump_to :: "u64 \<Rightarrow> EVM \<Rightarrow> ScopeContext \<Rightarrow> u256 \<Rightarrow> exec_result option" where
  "jump_to pc vm sc pos = do {
     ((valid, usedBitmap), c, jd) \<leftarrow> validJumpdest (sc_Contract sc) (evm_jumpdests vm) pos;
     let vm = vm\<lparr>evm_jumpdests := jd\<rparr>;
     let sc = sc\<lparr>sc_Contract := c\<rparr>;
     if \<not> valid then fail ErrInvalidJump pc vm sc
     else ok (Uint64 pos - 1) vm sc }"

definition opJump :: pureFunc where
  "opJump env pc vm sc = do {
     (pos, st) \<leftarrow> st_Pop (sc_Stack sc);
     jump_to pc vm (with_stack sc st) pos }"

definition opJumpi :: pureFunc where
  "opJumpi env pc vm sc = do {
     (pos, st) \<leftarrow> st_Pop (sc_Stack sc);
     (cond, st) \<leftarrow> st_Pop st;
     if cond \<noteq> 0 then jump_to pc vm (with_stack sc st) pos
     else ok pc vm (with_stack sc st) }"

definition opJumpdest :: pureFunc where
  "opJumpdest env pc vm sc = ok pc vm sc"

definition opPc :: pureFunc where
  "opPc env pc vm sc = push_value (ucast pc) env pc vm sc"

definition opMsize :: pureFunc where
  "opMsize env pc vm sc = push_value (ucast (of_nat (mem_Len (sc_Memory sc)) :: u64)) env pc vm sc"

definition opGas :: pureFunc where
  "opGas env pc vm sc = push_value (ucast (ct_Gas (sc_Contract sc))) env pc vm sc"

definition opReturn :: pureFunc where
  "opReturn env pc vm sc = do {
     (offset, st) \<leftarrow> st_Pop (sc_Stack sc);
     (sz, st) \<leftarrow> st_Pop st;
     ret \<leftarrow> GetPtr (sc_Memory sc) (sint (Uint64 offset)) (sint (Uint64 sz));
     Some ((nil_bytes ret, Some errStopToken), pc, vm, with_stack sc st) }"

definition opRevert :: pureFunc where
  "opRevert env pc vm sc = do {
     (offset, st) \<leftarrow> st_Pop (sc_Stack sc);
     (sz, st) \<leftarrow> st_Pop st;
     ret \<leftarrow> GetPtr (sc_Memory sc) (sint (Uint64 offset)) (sint (Uint64 sz));
     Some ((nil_bytes ret, Some ErrExecutionReverted), pc, vm\<lparr>evm_returnData := nil_bytes ret\<rparr>,
       with_stack sc st) }"

definition opUndefined :: pureFunc where
  "opUndefined env pc vm sc = do {
     b \<leftarrow> go_index (ct_Code (sc_Contract sc)) (int (unat pc));
     fail (ErrInvalidOpCode b) pc vm sc }"

definition opStop :: pureFunc where
  "opStop env pc vm sc = fail errStopToken pc vm sc"

definition opSelfdestruct :: pureFunc where
  "opSelfdestruct env pc vm sc =
     (if evm_readOnly vm then fail ErrWriteProtection pc vm sc
      else do {
        (beneficiary, st) \<leftarrow> st_Pop (sc_Stack sc);
        let callerAddr = ct_self (sc_Contract sc);
        let (balance, s) = GetBalance (evm_ibs vm) callerAddr;
        let s = AddBalance s (Bytes20 beneficiary) balance;
        let (_, s) = Selfdestruct s callerAddr;
        fail errStopToken pc (set_ibs vm s) (with_stack sc st) })"

fun pop_topics :: "nat \<Rightarrow> stack \<Rightarrow> (hash list \<times> stack) option" where
  "pop_topics 0 st = Some ([], st)"
| "pop_topics (Suc n) st = do {
     (t, st) \<leftarrow> st_Pop st;
     (ts, st) \<leftarrow> pop_topics n st;
     Some (t # ts, st) }"

definition makeLog :: "nat \<Rightarrow> pureFunc" where
  "makeLog n env pc vm sc =
     (if evm_readOnly vm then fail ErrWriteProtection pc vm sc
      else do {
        (mStart, st) \<leftarrow> st_Pop (sc_Stack sc);
        (mSize, st) \<leftarrow> st_Pop st;
        (topics, st) \<leftarrow> pop_topics n st;
        d \<leftarrow> GetCopy (sc_Memory sc) (sint (Uint64 mStart)) (sint (Uint64 mSize));
        ok pc (set_ibs vm (AddLog (evm_ibs vm)
            \<lparr>lg_Address = ct_self (sc_Contract sc), lg_Topics = topics, lg_Data = nil_bytes d,
             lg_BlockNumber = Some (ucast (bc_BlockNumber (env_context env))), lg_TxHash = 0, lg_TxIndex = 0,
             lg_BlockHash = 0, lg_Index = 0, lg_Removed = False\<rparr>)) (with_stack sc st) })"

section \<open>Push, dup, swap\<close>

definition opPush1 :: pureFunc where
  "opPush1 env pc vm sc =
     (let pc = pc + 1; code = ct_Code (sc_Contract sc) in
      push_value (if pc < of_nat (length code) then ucast (ucast (code ! unat pc) :: u64) else 0) env pc vm sc)"

definition go_slice :: "'a list \<Rightarrow> int \<Rightarrow> int \<Rightarrow> 'a list option" where
  "go_slice xs a b = (if 0 \<le> a \<and> a \<le> b \<and> b \<le> int (length xs)
     then Some (take (nat (b - a)) (drop (nat a) xs)) else None)"

definition makePush :: "u64 \<Rightarrow> int \<Rightarrow> pureFunc" where
  "makePush sz pushByteSize env pc vm sc =
     (let code = ct_Code (sc_Contract sc);
          codeLen = int (length code);
          startMin = (if sint (pc + 1) \<ge> codeLen then codeLen else sint (pc + 1));
          endMin = (if startMin + pushByteSize \<ge> codeLen then codeLen else startMin + pushByteSize)
      in do {
        data \<leftarrow> go_slice code startMin endMin;
        ok (pc + sz) vm (with_stack sc
          (st_Push (sc_Stack sc) (bytes_to_u256 (RightPadBytes data pushByteSize)))) })"

definition makeDup :: "nat \<Rightarrow> pureFunc" where
  "makeDup n env pc vm sc = do { st \<leftarrow> st_Dup (sc_Stack sc) n; ok pc vm (with_stack sc st) }"

definition makeSwap :: "nat \<Rightarrow> pureFunc" where
  "makeSwap n env pc vm sc = do { st \<leftarrow> st_Swap (sc_Stack sc) (n + 1); ok pc vm (with_stack sc st) }"

section \<open>Instructions added by later forks\<close>

definition opSelfBalance :: pureFunc where
  "opSelfBalance env pc vm sc =
     (let (balance, s) = GetBalance (evm_ibs vm) (ct_self (sc_Contract sc))
      in push_value balance env pc (set_ibs vm s) sc)"

definition opChainID :: pureFunc where
  "opChainID env = push_value (word_of_int (rl_ChainID (env_rules env))) env"

definition opBaseFee :: pureFunc where
  "opBaseFee env = push_ptr (bc_BaseFee (env_context env)) env"

definition opPush0 :: pureFunc where
  "opPush0 = push_value 0"

end
