(* ===== verification/Rlp.thy ===== *)
theory Rlp
  imports Amc_Prelude "HOL-Library.Monad_Syntax"
begin

text \<open>
  RLP (\<^verbatim>\<open>internal/avm/rlp\<close>): the encoder of \<^verbatim>\<open>encode.go\<close>, which writes the string data of a value and
  collects the list headers apart, computes their sizes when a list ends and merges both into one
  buffer of exactly the computed size; and the raw splitter of \<^verbatim>\<open>raw.go\<close>. The reflection layer that
  picks a writer for a Go type is replaced by the constructor of the value. A panic is \<open>None\<close>.
\<close>

section \<open>Integers and headers\<close>

definition putint :: "u64 \<Rightarrow> byte list" where
  "putint i =
     (if i < 2 ^ 8 then word_to_bytes 1 i
      else if i < 2 ^ 16 then word_to_bytes 2 i
      else if i < 2 ^ 24 then word_to_bytes 3 i
      else if i < 2 ^ 32 then word_to_bytes 4 i
      else if i < 2 ^ 40 then word_to_bytes 5 i
      else if i < 2 ^ 48 then word_to_bytes 6 i
      else if i < 2 ^ 56 then word_to_bytes 7 i
      else word_to_bytes 8 i)"

definition intsize :: "u64 \<Rightarrow> nat" where
  "intsize i = (nat_bits (unat i) + 7) div 8"

definition headsize :: "u64 \<Rightarrow> nat" where
  "headsize sz = (if sz < 56 then 1 else 1 + intsize sz)"

text \<open>The bytes \<^verbatim>\<open>puthead\<close> writes at the start of the buffer.\<close>

definition puthead :: "byte \<Rightarrow> byte \<Rightarrow> u64 \<Rightarrow> byte list" where
  "puthead smalltag largetag sz =
     (if sz < 56 then [smalltag + ucast sz]
      else (largetag + of_nat (length (putint sz))) # putint sz)"

section \<open>The encoding buffer\<close>

record listhead =
  lh_offset :: int
  lh_size :: int

record encbuf =
  eb_str :: "byte list"
  eb_lheads :: "listhead list"
  eb_lhsize :: int

definition lh_encode :: "listhead \<Rightarrow> byte list" where
  "lh_encode head = puthead 0xC0 0xF7 (word_of_int (lh_size head))"

definition eb_reset :: encbuf where
  "eb_reset = \<lparr>eb_str = [], eb_lheads = [], eb_lhsize = 0\<rparr>"

definition eb_append :: "encbuf \<Rightarrow> byte list \<Rightarrow> encbuf" where
  "eb_append w bs = w\<lparr>eb_str := eb_str w @ bs\<rparr>"

definition encodeStringHeader :: "encbuf \<Rightarrow> nat \<Rightarrow> encbuf" where
  "encodeStringHeader w sz =
     (if sz < 56 then eb_append w [0x80 + of_nat sz]
      else eb_append w ((0xB7 + of_nat (length (putint (of_nat sz)))) # putint (of_nat sz)))"

definition encodeString :: "encbuf \<Rightarrow> byte list \<Rightarrow> encbuf" where
  "encodeString w b =
     (if length b = 1 \<and> hd b \<le> 0x7F then eb_append w [hd b]
      else eb_append (encodeStringHeader w (length b)) b)"

definition encodeUint :: "encbuf \<Rightarrow> u64 \<Rightarrow> encbuf" where
  "encodeUint w i =
     (if i = 0 then eb_append w [0x80]
      else if i < 128 then eb_append w [ucast i]
      else eb_append w ((0x80 + of_nat (length (putint i))) # putint i))"

definition eb_size :: "encbuf \<Rightarrow> int" where
  "eb_size w = int (length (eb_str w)) + eb_lhsize w"

definition eb_list :: "encbuf \<Rightarrow> nat \<times> encbuf" where
  "eb_list w =
     (length (eb_lheads w),
      w\<lparr>eb_lheads := eb_lheads w @ [\<lparr>lh_offset = int (length (eb_str w)), lh_size = eb_lhsize w\<rparr>]\<rparr>)"

definition listEnd :: "encbuf \<Rightarrow> nat \<Rightarrow> encbuf option" where
  "listEnd w index = do {
     lh \<leftarrow> go_index (eb_lheads w) (int index);
     let sz = eb_size w - lh_offset lh - lh_size lh;
     let w = w\<lparr>eb_lheads := (eb_lheads w)[index := lh\<lparr>lh_size := sz\<rparr>]\<rparr>;
     Some (w\<lparr>eb_lhsize := eb_lhsize w + (if sz < 56 then 1 else 1 + int (intsize (word_of_int sz)))\<rparr>) }"

text \<open>
  \<^verbatim>\<open>toBytes\<close> allocates the output first. \<open>write_at\<close> writes all of a slice and panics when it does
  not fit; \<^verbatim>\<open>copy\<close> writes what fits.
\<close>

definition write_at :: "byte list \<Rightarrow> nat \<Rightarrow> byte list \<Rightarrow> byte list option" where
  "write_at out pos bs = (if pos + length bs \<le> length out
     then Some (take pos out @ bs @ drop (pos + length bs) out) else None)"

definition copy_to :: "byte list \<Rightarrow> nat \<Rightarrow> byte list \<Rightarrow> byte list option" where
  "copy_to out pos bs = (if pos \<le> length out then write_at out pos (take (length out - pos) bs) else None)"

primrec toBytes_loop :: "listhead list \<Rightarrow> byte list \<Rightarrow> byte list \<Rightarrow> nat \<Rightarrow> nat \<Rightarrow> byte list option" where
  "toBytes_loop [] str out strpos pos = copy_to out pos (drop strpos str)"
| "toBytes_loop (head # heads) str out strpos pos =
     (if int strpos \<le> lh_offset head \<and> lh_offset head \<le> int (length str) \<and> pos \<le> length out then
        (let piece = take (nat (lh_offset head) - strpos) (drop strpos str);
             n = min (length piece) (length out - pos)
         in do {
           out \<leftarrow> copy_to out pos piece;
           out \<leftarrow> write_at out (pos + n) (lh_encode head);
           toBytes_loop heads str out (strpos + n) (pos + n + length (lh_encode head)) })
      else None)"

definition toBytes :: "encbuf \<Rightarrow> byte list option" where
  "toBytes w = (if eb_size w < 0 then None
     else toBytes_loop (eb_lheads w) (eb_str w) (replicate (nat (eb_size w)) 0) 0 0)"

section \<open>Values\<close>

datatype rlp_val = RString "byte list" | RUint u64 | RList "rlp_val list"

text \<open>
  \<^verbatim>\<open>writeBytes\<close>, \<^verbatim>\<open>writeUint\<close> and the writer \<^verbatim>\<open>makeSliceWriter\<close> returns, whose deferred \<^verbatim>\<open>listEnd\<close> runs
  after the elements.
\<close>

fun write_val :: "rlp_val \<Rightarrow> encbuf \<Rightarrow> encbuf option"
and write_vals :: "rlp_val list \<Rightarrow> encbuf \<Rightarrow> encbuf option" where
  "write_val (RString b) w = Some (encodeString w b)"
| "write_val (RUint i) w = Some (encodeUint w i)"
| "write_val (RList vs) w = do {
     let (index, w) = eb_list w;
     w \<leftarrow> write_vals vs w;
     listEnd w index }"
| "write_vals [] w = Some w"
| "write_vals (v # vs) w = do { w \<leftarrow> write_val v w; write_vals vs w }"

definition EncodeToBytes :: "rlp_val \<Rightarrow> byte list option" where
  "EncodeToBytes v = do { w \<leftarrow> write_val v eb_reset; toBytes w }"

section \<open>Writing single values\<close>

text \<open>\<^verbatim>\<open>EncodeInt\<close>, \<^verbatim>\<open>EncodeStringSizePrefix\<close> and \<^verbatim>\<open>EncodeString\<close>: the bytes handed to the writer.\<close>

definition EncodeInt :: "u64 \<Rightarrow> byte list" where
  "EncodeInt i =
     (if 0 < i \<and> i < 0x80 then [ucast i]
      else (0x80 + of_nat (intsize i)) # drop (8 - intsize i) (word_to_bytes 8 i))"

definition EncodeStringSizePrefix :: "nat \<Rightarrow> byte list" where
  "EncodeStringSizePrefix sz =
     (if sz \<ge> 56 then (of_nat ((nat_bits sz + 7) div 8) + 183) #
        drop (8 - (nat_bits sz + 7) div 8) (word_to_bytes 8 (of_nat sz :: u64))
      else [of_nat sz + 128])"

definition EncodeString :: "byte list \<Rightarrow> byte list" where
  "EncodeString s =
     (if length s = 0 then [128]
      else if length s = 1 then (if hd s \<ge> 128 then [129] else []) @ s
      else EncodeStringSizePrefix (length s) @ s)"

definition AppendUint64 :: "byte list \<Rightarrow> u64 \<Rightarrow> byte list" where
  "AppendUint64 b i =
     (if i = 0 then b @ [0x80]
      else if i < 128 then b @ [ucast i]
      else if i < 2 ^ 8 then b @ 0x81 # word_to_bytes 1 i
      else if i < 2 ^ 16 then b @ 0x82 # word_to_bytes 2 i
      else if i < 2 ^ 24 then b @ 0x83 # word_to_bytes 3 i
      else if i < 2 ^ 32 then b @ 0x84 # word_to_bytes 4 i
      else if i < 2 ^ 40 then b @ 0x85 # word_to_bytes 5 i
      else if i < 2 ^ 48 then b @ 0x86 # word_to_bytes 6 i
      else if i < 2 ^ 56 then b @ 0x87 # word_to_bytes 7 i
      else b @ 0x88 # word_to_bytes 8 i)"

definition ListSize :: "u64 \<Rightarrow> u64" where
  "ListSize contentSize = of_nat (headsize contentSize) + contentSize"

definition IntSize :: "u64 \<Rightarrow> nat" where
  "IntSize x = (if x < 0x80 then 1 else 1 + intsize x)"

section \<open>Splitting\<close>

datatype rlp_kind = KByte | KString | KList

datatype rlp_error = ErrUnexpectedEOF | ErrCanonSize | ErrCanonInt | ErrValueTooLarge
  | ErrExpectedString | ErrExpectedList | ErrUintOverflow

definition be_u64 :: "byte list \<Rightarrow> u64" where
  "be_u64 bs = foldl (\<lambda>acc b. acc * 256 + ucast b) 0 bs"

text \<open>
  The source spells out the value of 1 to 8 big-endian bytes. \<open>slen\<close> is between 1 and 8 in every
  call; for another length the source reads the value 0.
\<close>

definition readSize :: "byte list \<Rightarrow> byte \<Rightarrow> (u64, rlp_error) sum" where
  "readSize b slen =
     (if unat slen > length b then Inr ErrUnexpectedEOF
      else (let s = (if 1 \<le> slen \<and> slen \<le> 8 then be_u64 (take (unat slen) b) else 0) in
            if s < 56 \<or> hd b = 0 then Inr ErrCanonSize else Inl s))"

definition readKind :: "byte list \<Rightarrow> (rlp_kind \<times> u64 \<times> u64, rlp_error) sum" where
  "readKind buf =
     (if buf = [] then Inr ErrUnexpectedEOF
      else (let b = hd buf;
                finish = (\<lambda>k tagsize contentsize.
                  if contentsize > of_nat (length buf) - tagsize then Inr ErrValueTooLarge
                  else Inl (k, tagsize, contentsize))
            in if b < 0x80 then finish KByte 0 1
               else if b < 0xB8 then
                 (if b - 0x80 = 1 \<and> length buf > 1 \<and> buf ! 1 < 128 then Inr ErrCanonSize
                  else finish KString 1 (ucast (b - 0x80)))
               else if b < 0xC0 then
                 (case readSize (tl buf) (b - 0xB7) of Inr err \<Rightarrow> Inr err
                  | Inl contentsize \<Rightarrow> finish KString (ucast (b - 0xB7) + 1) contentsize)
               else if b < 0xF8 then finish KList 1 (ucast (b - 0xC0))
               else
                 (case readSize (tl buf) (b - 0xF7) of Inr err \<Rightarrow> Inr err
                  | Inl contentsize \<Rightarrow> finish KList (ucast (b - 0xF7) + 1) contentsize)))"

definition Split :: "byte list \<Rightarrow> (rlp_kind \<times> byte list \<times> byte list, rlp_error) sum" where
  "Split b =
     (case readKind b of Inr err \<Rightarrow> Inr err
      | Inl (k, ts, cs) \<Rightarrow>
          Inl (k, take (unat cs) (drop (unat ts) b), drop (unat ts + unat cs) b))"

definition SplitString :: "byte list \<Rightarrow> (byte list \<times> byte list, rlp_error) sum" where
  "SplitString b =
     (case Split b of Inr err \<Rightarrow> Inr err
      | Inl (k, content, rest) \<Rightarrow> if k = KList then Inr ErrExpectedString else Inl (content, rest))"

definition SplitList :: "byte list \<Rightarrow> (byte list \<times> byte list, rlp_error) sum" where
  "SplitList b =
     (case Split b of Inr err \<Rightarrow> Inr err
      | Inl (k, content, rest) \<Rightarrow> if k \<noteq> KList then Inr ErrExpectedList else Inl (content, rest))"

definition SplitUint64 :: "byte list \<Rightarrow> (u64 \<times> byte list, rlp_error) sum" where
  "SplitUint64 b =
     (case SplitString b of Inr err \<Rightarrow> Inr err
      | Inl (content, rest) \<Rightarrow>
          (if length content = 0 then Inl (0, rest)
           else if length content = 1 then
             (if hd content = 0 then Inr ErrCanonInt else Inl (ucast (hd content), rest))
           else if length content > 8 then Inr ErrUintOverflow
           else (case readSize content (of_nat (length content)) of Inr _ \<Rightarrow> Inr ErrCanonInt
                 | Inl x \<Rightarrow> Inl (x, rest))))"

text \<open>The loop advances by at least one byte: a value has a tag or content.\<close>

lemma readSize_large: "readSize b n = Inl s \<Longrightarrow> 0 < unat s"
  by (auto simp: readSize_def Let_def unat_gt_0 split: if_splits)

lemma readKind_progress:
  "readKind b = Inl (k, ts, cs) \<Longrightarrow> 0 < unat ts + unat cs \<and> b \<noteq> []"
  by (auto simp: readKind_def Let_def dest: readSize_large split: if_splits sum.splits)

function CountValues :: "byte list \<Rightarrow> (nat, rlp_error) sum" where
  "CountValues b =
     (if b = [] then Inl 0
      else (case readKind b of Inr err \<Rightarrow> Inr err
        | Inl (k, tagsize, sz) \<Rightarrow>
            (case CountValues (drop (unat tagsize + unat sz) b) of Inr err \<Rightarrow> Inr err
             | Inl i \<Rightarrow> Inl (Suc i))))"
  by pat_completeness auto
termination
  by (relation "measure length") (auto dest!: readKind_progress)

declare CountValues.simps [simp del]

end
