(* ===== verification/Evm_Calls.thy ===== *)
theory Evm_Calls
  imports Evm_Instructions Rlp
begin

text \<open>
  Message calls and contract creation (\<^verbatim>\<open>internal/vm/evm.go\<close>), and the instructions that use them
  (\<^verbatim>\<open>instructions.go\<close>). The interpreter they hand control to is an argument, \<open>run\<close>: the interpreter
  theory ties the knot.
\<close>

text \<open>The interpreter: contract, input and read-only flag to result bytes, error and the contract's rest.\<close>

type_synonym run_fn =
  "Contract \<Rightarrow> byte list \<Rightarrow> bool \<Rightarrow> EVM \<Rightarrow> ((byte list \<times> evm_error option) \<times> Contract \<times> EVM) res"

type_synonym executionFunc = "Env \<Rightarrow> run_fn \<Rightarrow> u64 \<Rightarrow> EVM \<Rightarrow> ScopeContext \<Rightarrow> exec_result res"

abbreviation (input) CallCreateDepth :: nat where "CallCreateDepth \<equiv> 1024"
abbreviation (input) CreateDataGas :: u64 where "CreateDataGas \<equiv> 200"

section \<open>Contract addresses\<close>

definition BytesToAddress :: "byte list \<Rightarrow> address" where
  "BytesToAddress bs = foldl (\<lambda>acc b. acc * 256 + ucast b) 0 (drop (length bs - 20) bs)"

definition CreateAddress :: "(byte list \<Rightarrow> hash) \<Rightarrow> address \<Rightarrow> u64 \<Rightarrow> address" where
  "CreateAddress kec b nonce =
     BytesToAddress (drop 12 (word_to_bytes 32 (kec (case EncodeToBytes
       (RList [RString (word_to_bytes 20 b), RUint nonce]) of Some data \<Rightarrow> data | None \<Rightarrow> []))))"

definition CreateAddress2 :: "(byte list \<Rightarrow> hash) \<Rightarrow> address \<Rightarrow> u256 \<Rightarrow> hash \<Rightarrow> address" where
  "CreateAddress2 kec b salt inithash =
     BytesToAddress (drop 12 (word_to_bytes 32
       (kec ([0xff] @ word_to_bytes 20 b @ word_to_bytes 32 salt @ word_to_bytes 32 inithash))))"

section \<open>Calls\<close>

datatype call_kind = CALL | CALLCODE | DELEGATECALL | STATICCALL

text \<open>Whether the caller can pay the value; \<^verbatim>\<open>value\<close> is nil only for a delegate call.\<close>

definition call_funds ::
  "Env \<Rightarrow> call_kind \<Rightarrow> ContractRef \<Rightarrow> u256 option \<Rightarrow> bool \<Rightarrow> EVM \<Rightarrow> (bool \<times> EVM) option" where
  "call_funds env typ caller value bailout vm =
     (if typ = CALL \<or> typ = CALLCODE then do {
        v \<leftarrow> value;
        if v \<noteq> 0 then
          (let (can, s) = bc_CanTransfer (env_context env) (evm_ibs vm) (ref_Address caller) v
           in Some (can \<or> bailout, set_ibs vm s))
        else Some (True, vm) }
      else Some (True, vm))"

text \<open>
  What happens to the accounts before the code runs. The flag says that the call is over: a call
  without value to an account that does not exist.
\<close>

definition call_accounts ::
  "Env \<Rightarrow> call_kind \<Rightarrow> ContractRef \<Rightarrow> address \<Rightarrow> bool \<Rightarrow> u256 option \<Rightarrow> bool \<Rightarrow> EVM \<Rightarrow> (bool \<times> EVM) option" where
  "call_accounts env typ caller addr isPrecompile value bailout vm =
     (if typ = CALL then do {
        v \<leftarrow> value;
        let (ex, s) = Exist (evm_ibs vm) addr;
        if \<not> ex \<and> \<not> isPrecompile \<and> rl_IsSpuriousDragon (env_rules env) \<and> v = 0
          then Some (True, set_ibs vm s)
        else (let s = (if \<not> ex then CreateAccount s addr False else s)
              in Some (False, set_ibs vm
                   (bc_Transfer (env_context env) s (ref_Address caller) addr v bailout))) }
      else if typ = STATICCALL then Some (False, set_ibs vm (AddBalance (evm_ibs vm) addr 0))
      else Some (False, vm))"

definition call_contract ::
  "Env \<Rightarrow> call_kind \<Rightarrow> ContractRef \<Rightarrow> address \<Rightarrow> u256 option \<Rightarrow> u64 \<Rightarrow> hash \<Rightarrow> byte list \<Rightarrow> EVM \<Rightarrow>
     (Contract \<times> EVM) option" where
  "call_contract env typ caller addr value gas codeHash code vm = do {
     let self = (if typ = CALLCODE \<or> typ = DELEGATECALL then ref_Address caller else addr);
     let (contract, jd) = NewContract caller self value gas (cfg_SkipAnalysis (env_config env)) (evm_jumpdests vm);
     contract \<leftarrow> (if typ = DELEGATECALL then AsDelegate contract else Some contract);
     Some (SetCallCode contract addr codeHash code, vm\<lparr>evm_jumpdests := jd\<rparr>) }"

definition call_body ::
  "Env \<Rightarrow> run_fn \<Rightarrow> call_kind \<Rightarrow> ContractRef \<Rightarrow> address \<Rightarrow> byte list \<Rightarrow> u64 \<Rightarrow> u256 option \<Rightarrow> byte list \<Rightarrow> EVM \<Rightarrow>
     ((byte list \<times> u64 \<times> evm_error option) \<times> EVM) res" where
  "call_body env run typ caller addr input gas value code vm =
     (case env_precompile env addr of
        Some p \<Rightarrow> Ret (RunPrecompiledContract p input gas, vm)
      | None \<Rightarrow>
          (if code = [] then Ret (([], gas, None), vm)
           else (let (codeHash, s) = GetCodeHash (evm_ibs vm) addr in
             res_bind (or_panic (call_contract env typ caller addr value gas codeHash code (set_ibs vm s)))
               (\<lambda>(contract, vm). res_bind (run contract input (typ = STATICCALL) vm)
                 (\<lambda>((ret, err), contract, vm). Ret ((ret, ct_Gas contract, err), vm))))))"

text \<open>An error, or the option to restore the state, takes everything since the snapshot back.\<close>

definition call_settle ::
  "Env \<Rightarrow> nat \<Rightarrow> (byte list \<times> u64 \<times> evm_error option) \<times> EVM \<Rightarrow>
     ((byte list \<times> u64 \<times> evm_error option) \<times> EVM) res" where
  "call_settle env snapshot r =
     (case r of ((ret, gas, err), vm) \<Rightarrow>
        if err \<noteq> None \<or> cfg_RestoreState (env_config env) then
          res_bind (or_panic (RevertToSnapshot (evm_ibs vm) snapshot))
            (\<lambda>s. Ret ((ret, if err \<noteq> Some ErrExecutionReverted then 0 else gas, err), set_ibs vm s))
        else Ret ((ret, gas, err), vm))"

definition evm_call ::
  "Env \<Rightarrow> run_fn \<Rightarrow> call_kind \<Rightarrow> ContractRef \<Rightarrow> address \<Rightarrow> byte list \<Rightarrow> u64 \<Rightarrow> u256 option \<Rightarrow> bool \<Rightarrow> EVM \<Rightarrow>
     ((byte list \<times> u64 \<times> evm_error option) \<times> EVM) res" where
  "evm_call env run typ caller addr input gas value bailout vm =
     (if cfg_NoRecursion (env_config env) \<and> evm_depth vm > 0 then Ret (([], gas, None), vm)
      else if evm_depth vm > CallCreateDepth then Ret (([], gas, Some ErrDepth), vm)
      else res_bind (or_panic (call_funds env typ caller value bailout vm)) (\<lambda>(funded, vm).
        if \<not> funded then Ret (([], gas, Some ErrInsufficientBalance), vm)
        else (let isPrecompile = (env_precompile env addr \<noteq> None);
                  (code, s) = (if isPrecompile then (None, evm_ibs vm) else GetCode (evm_ibs vm) addr);
                  (snapshot, s) = Snapshot_take s
              in res_bind (or_panic (call_accounts env typ caller addr isPrecompile value bailout (set_ibs vm s)))
                (\<lambda>(over, vm). if over then Ret (([], gas, None), vm)
                   else res_bind (call_body env run typ caller addr input gas value (nil_bytes code) vm)
                     (call_settle env snapshot)))))"

definition Call :: "Env \<Rightarrow> run_fn \<Rightarrow> ContractRef \<Rightarrow> address \<Rightarrow> byte list \<Rightarrow> u64 \<Rightarrow> u256 \<Rightarrow> bool \<Rightarrow> EVM \<Rightarrow>
    ((byte list \<times> u64 \<times> evm_error option) \<times> EVM) res" where
  "Call env run caller addr input gas value bailout = evm_call env run CALL caller addr input gas (Some value) bailout"

definition CallCode :: "Env \<Rightarrow> run_fn \<Rightarrow> ContractRef \<Rightarrow> address \<Rightarrow> byte list \<Rightarrow> u64 \<Rightarrow> u256 \<Rightarrow> EVM \<Rightarrow>
    ((byte list \<times> u64 \<times> evm_error option) \<times> EVM) res" where
  "CallCode env run caller addr input gas value = evm_call env run CALLCODE caller addr input gas (Some value) False"

definition DelegateCall :: "Env \<Rightarrow> run_fn \<Rightarrow> ContractRef \<Rightarrow> address \<Rightarrow> byte list \<Rightarrow> u64 \<Rightarrow> EVM \<Rightarrow>
    ((byte list \<times> u64 \<times> evm_error option) \<times> EVM) res" where
  "DelegateCall env run caller addr input gas = evm_call env run DELEGATECALL caller addr input gas None False"

definition StaticCall :: "Env \<Rightarrow> run_fn \<Rightarrow> ContractRef \<Rightarrow> address \<Rightarrow> byte list \<Rightarrow> u64 \<Rightarrow> EVM \<Rightarrow>
    ((byte list \<times> u64 \<times> evm_error option) \<times> EVM) res" where
  "StaticCall env run caller addr input gas = evm_call env run STATICCALL caller addr input gas (Some 0) False"

section \<open>Creation\<close>

record codeAndHash =
  ch_code :: "byte list"
  ch_hash :: hash

definition ch_Hash :: "(byte list \<Rightarrow> hash) \<Rightarrow> codeAndHash \<Rightarrow> codeAndHash" where
  "ch_Hash kec c = (if ch_hash c = 0 then c\<lparr>ch_hash := kec (ch_code c)\<rparr> else c)"

definition SetCodeOptionalHash :: "Contract \<Rightarrow> address \<Rightarrow> codeAndHash \<Rightarrow> Contract" where
  "SetCodeOptionalHash c addr ch = c\<lparr>ct_Code := ch_code ch, ct_CodeHash := ch_hash ch, ct_CodeAddr := Some addr\<rparr>"

text \<open>The checks before anything is created, with the gas returned when one fails.\<close>

definition create_checks ::
  "Env \<Rightarrow> ContractRef \<Rightarrow> u64 \<Rightarrow> u256 \<Rightarrow> address \<Rightarrow> bool \<Rightarrow> EVM \<Rightarrow> (u64 \<times> evm_error) option \<times> EVM" where
  "create_checks env caller gas value address incrementNonce vm =
     (if evm_depth vm > CallCreateDepth then (Some (gas, ErrDepth), vm)
      else (let (can, s) = bc_CanTransfer (env_context env) (evm_ibs vm) (ref_Address caller) value in
        if \<not> can then (Some (gas, ErrInsufficientBalance), set_ibs vm s)
        else (let (nonce, s) = (if incrementNonce then GetNonce s (ref_Address caller) else (0, s)) in
          if incrementNonce \<and> nonce + 1 < nonce then (Some (gas, ErrNonceUintOverflow), set_ibs vm s)
          else (let s = (if incrementNonce then SetNonce s (ref_Address caller) (nonce + 1) else s);
                    s = (if rl_IsBerlin (env_rules env) then AddAddressToAccessList s address else s);
                    (contractHash, s) = GetCodeHash s address;
                    (n, s) = GetNonce s address
                in if n \<noteq> 0 \<or> (contractHash \<noteq> 0 \<and> contractHash \<noteq> evm_keccak vm [])
                   then (Some (0, ErrContractAddressCollision), set_ibs vm s)
                   else (None, set_ibs vm s)))))"

definition create_contract ::
  "Env \<Rightarrow> ContractRef \<Rightarrow> codeAndHash \<Rightarrow> u64 \<Rightarrow> u256 \<Rightarrow> address \<Rightarrow> EVM \<Rightarrow> Contract \<times> EVM" where
  "create_contract env caller ch gas value address vm =
     (let s = CreateAccount (evm_ibs vm) address True;
          s = (if rl_IsSpuriousDragon (env_rules env) then SetNonce s address 1 else s);
          s = bc_Transfer (env_context env) s (ref_Address caller) address value False;
          (contract, jd) = NewContract caller address (Some value) gas (cfg_SkipAnalysis (env_config env))
            (evm_jumpdests vm)
      in (SetCodeOptionalHash contract address ch, vm\<lparr>evm_ibs := s, evm_jumpdests := jd\<rparr>))"

text \<open>The limits on the code the constructor returned, and storing it.\<close>

definition create_store ::
  "Env \<Rightarrow> address \<Rightarrow> byte list \<Rightarrow> evm_error option \<Rightarrow> Contract \<Rightarrow> EVM \<Rightarrow> evm_error option \<times> Contract \<times> EVM" where
  "create_store env address ret err contract vm =
     (let rules = env_rules env;
          err = (if err = None \<and> rl_IsSpuriousDragon rules \<and> length ret > MaxCodeSize \<and>
                    (\<not> rl_IsAura rules \<or> HasEip3860 (env_config env) rules)
                 then Some ErrMaxCodeSizeExceeded else err);
          err = (if err = None \<and> rl_IsLondon rules \<and> length ret \<ge> 1 \<and> hd ret = 0xEF
                 then Some ErrInvalidCode else err)
      in if err = None then
           (let (paid, contract) = UseGas contract (of_nat (length ret) * CreateDataGas) in
            if paid then (None, contract, set_ibs vm
                 (SetCode (evm_ibs vm) address (if ret = [] then None else Some ret)))
            else if rl_IsHomestead rules then (Some ErrCodeStoreOutOfGas, contract, vm)
            else (None, contract, vm))
         else (err, contract, vm))"

definition evm_create ::
  "Env \<Rightarrow> run_fn \<Rightarrow> ContractRef \<Rightarrow> codeAndHash \<Rightarrow> u64 \<Rightarrow> u256 \<Rightarrow> address \<Rightarrow> bool \<Rightarrow> EVM \<Rightarrow>
     ((byte list \<times> address \<times> u64 \<times> evm_error option) \<times> EVM) res" where
  "evm_create env run caller ch gas value address incrementNonce vm =
     (case create_checks env caller gas value address incrementNonce vm of
        (Some (g, err), vm) \<Rightarrow> Ret (([], 0, g, Some err), vm)
      | (None, vm) \<Rightarrow>
          (let (snapshot, s) = Snapshot_take (evm_ibs vm);
               (contract, vm) = create_contract env caller ch gas value address (set_ibs vm s)
           in if cfg_NoRecursion (env_config env) \<and> evm_depth vm > 0 then Ret (([], address, gas, None), vm)
              else res_bind (run contract [] False vm) (\<lambda>((ret, err), contract, vm).
                (let (err, contract, vm) = create_store env address ret err contract vm in
                 if err \<noteq> None \<and> (rl_IsHomestead (env_rules env) \<or> err \<noteq> Some ErrCodeStoreOutOfGas) then
                   res_bind (or_panic (RevertToSnapshot (evm_ibs vm) snapshot)) (\<lambda>s.
                     (let contract = (if err \<noteq> Some ErrExecutionReverted
                                      then snd (UseGas contract (ct_Gas contract)) else contract)
                      in Ret ((ret, address, ct_Gas contract, err), set_ibs vm s)))
                 else Ret ((ret, address, ct_Gas contract, err), vm)))))"

definition Create :: "Env \<Rightarrow> run_fn \<Rightarrow> ContractRef \<Rightarrow> byte list \<Rightarrow> u64 \<Rightarrow> u256 \<Rightarrow> EVM \<Rightarrow>
    ((byte list \<times> address \<times> u64 \<times> evm_error option) \<times> EVM) res" where
  "Create env run caller code gas endowment vm =
     (let (nonce, s) = GetNonce (evm_ibs vm) (ref_Address caller)
      in evm_create env run caller \<lparr>ch_code = code, ch_hash = 0\<rparr> gas endowment
           (CreateAddress (evm_keccak vm) (ref_Address caller) nonce) True (set_ibs vm s))"

definition Create2 :: "Env \<Rightarrow> run_fn \<Rightarrow> ContractRef \<Rightarrow> byte list \<Rightarrow> u64 \<Rightarrow> u256 \<Rightarrow> u256 \<Rightarrow> EVM \<Rightarrow>
    ((byte list \<times> address \<times> u64 \<times> evm_error option) \<times> EVM) res" where
  "Create2 env run caller code gas endowment salt vm =
     (let ch = ch_Hash (evm_keccak vm) \<lparr>ch_code = code, ch_hash = 0\<rparr>
      in evm_create env run caller ch gas endowment
           (CreateAddress2 (evm_keccak vm) (ref_Address caller) salt (ch_hash ch)) True vm)"

definition SysCreate :: "Env \<Rightarrow> run_fn \<Rightarrow> ContractRef \<Rightarrow> byte list \<Rightarrow> u64 \<Rightarrow> u256 \<Rightarrow> address \<Rightarrow> EVM \<Rightarrow>
    ((byte list \<times> u64 \<times> evm_error option) \<times> EVM) res" where
  "SysCreate env run caller code gas endowment contractAddr vm =
     res_bind (evm_create env run caller \<lparr>ch_code = code, ch_hash = 0\<rparr> gas endowment contractAddr False vm)
       (\<lambda>((ret, _, leftOverGas, err), vm). Ret ((ret, leftOverGas, err), vm))"

section \<open>The calling instructions\<close>

definition lift_op :: "pureFunc \<Rightarrow> executionFunc" where
  "lift_op f env run pc vm sc = or_panic (f env pc vm sc)"

text \<open>The operands: address, value, input, where the result goes, and the stack below.\<close>

record call_args =
  ca_addr :: address
  ca_value :: u256
  ca_input :: "byte list"
  ca_retOffset :: u256
  ca_retSize :: u256
  ca_stack :: stack

definition pop_call_args :: "bool \<Rightarrow> ScopeContext \<Rightarrow> call_args option" where
  "pop_call_args withValue sc = do {
     (temp, st) \<leftarrow> st_Pop (sc_Stack sc);
     (addr, st) \<leftarrow> st_Pop st;
     (value, st) \<leftarrow> (if withValue then st_Pop st else Some (0, st));
     (inOffset, st) \<leftarrow> st_Pop st;
     (inSize, st) \<leftarrow> st_Pop st;
     (retOffset, st) \<leftarrow> st_Pop st;
     (retSize, st) \<leftarrow> st_Pop st;
     args \<leftarrow> GetPtr (sc_Memory sc) (sint (Uint64 inOffset)) (sint (Uint64 inSize));
     Some \<lparr>ca_addr = Bytes20 addr, ca_value = value, ca_input = nil_bytes args,
       ca_retOffset = retOffset, ca_retSize = retSize, ca_stack = st\<rparr> }"

definition call_return ::
  "u64 \<Rightarrow> ScopeContext \<Rightarrow> call_args \<Rightarrow> (byte list \<times> u64 \<times> evm_error option) \<times> EVM \<Rightarrow> exec_result res" where
  "call_return pc sc ca r =
     (case r of ((ret, returnGas, err), vm) \<Rightarrow>
        or_panic (do {
          m \<leftarrow> (if err = None \<or> err = Some ErrExecutionReverted
                then mem_Set (sc_Memory sc) (Uint64 (ca_retOffset ca)) (Uint64 (ca_retSize ca)) ret
                else Some (sc_Memory sc));
          let c = sc_Contract sc;
          Some ((ret, None), pc, vm\<lparr>evm_returnData := ret\<rparr>,
            sc\<lparr>sc_Stack := st_Push (ca_stack ca) (if err \<noteq> None then 0 else 1), sc_Memory := m,
               sc_Contract := c\<lparr>ct_Gas := ct_Gas c + returnGas\<rparr>\<rparr>) }))"

definition opCall :: executionFunc where
  "opCall env run pc vm sc =
     res_bind (or_panic (pop_call_args True sc)) (\<lambda>ca.
       if ca_value ca \<noteq> 0 \<and> evm_readOnly vm
         then Ret (([], Some ErrWriteProtection), pc, vm, with_stack sc (ca_stack ca))
       else (let gas = (if ca_value ca \<noteq> 0 then evm_callGasTemp vm + CallStipend else evm_callGasTemp vm)
             in res_bind (Call env run (as_ref (sc_Contract sc)) (ca_addr ca) (ca_input ca) gas (ca_value ca) False vm)
                  (call_return pc sc ca)))"

definition opCallCode :: executionFunc where
  "opCallCode env run pc vm sc =
     res_bind (or_panic (pop_call_args True sc)) (\<lambda>ca.
       (let gas = (if ca_value ca \<noteq> 0 then evm_callGasTemp vm + CallStipend else evm_callGasTemp vm)
        in res_bind (CallCode env run (as_ref (sc_Contract sc)) (ca_addr ca) (ca_input ca) gas (ca_value ca) vm)
             (call_return pc sc ca)))"

definition opDelegateCall :: executionFunc where
  "opDelegateCall env run pc vm sc =
     res_bind (or_panic (pop_call_args False sc)) (\<lambda>ca.
       res_bind (DelegateCall env run (as_ref (sc_Contract sc)) (ca_addr ca) (ca_input ca) (evm_callGasTemp vm) vm)
         (call_return pc sc ca))"

definition opStaticCall :: executionFunc where
  "opStaticCall env run pc vm sc =
     res_bind (or_panic (pop_call_args False sc)) (\<lambda>ca.
       res_bind (StaticCall env run (as_ref (sc_Contract sc)) (ca_addr ca) (ca_input ca) (evm_callGasTemp vm) vm)
         (call_return pc sc ca))"

text \<open>After a creation: the address or 0 on the stack, unused gas back, revert data kept.\<close>

definition create_return ::
  "u64 \<Rightarrow> ScopeContext \<Rightarrow> stack \<Rightarrow> u256 \<Rightarrow> byte list \<times> u64 \<times> evm_error option \<Rightarrow> EVM \<Rightarrow> exec_result res" where
  "create_return pc sc st v r vm =
     (case r of (res, returnGas, suberr) \<Rightarrow>
        (let c = sc_Contract sc;
             data = (if suberr = Some ErrExecutionReverted then res else [])
         in Ret ((data, None), pc, vm\<lparr>evm_returnData := data\<rparr>,
              sc\<lparr>sc_Stack := st_Push st v, sc_Contract := c\<lparr>ct_Gas := ct_Gas c + returnGas\<rparr>\<rparr>)))"

text \<open>What \<^verbatim>\<open>CREATE\<close> leaves on the stack: from Homestead on, failing to store the code is a failure.\<close>

definition create_value :: "Env \<Rightarrow> address \<Rightarrow> evm_error option \<Rightarrow> u256" where
  "create_value env addr suberr =
     (if rl_IsHomestead (env_rules env) \<and> suberr = Some ErrCodeStoreOutOfGas then 0
      else if suberr \<noteq> None \<and> suberr \<noteq> Some ErrCodeStoreOutOfGas then 0
      else ucast addr)"

definition opCreate :: executionFunc where
  "opCreate env run pc vm sc =
     (if evm_readOnly vm then Ret (([], Some ErrWriteProtection), pc, vm, sc)
      else res_bind (or_panic (do {
          (value, st) \<leftarrow> st_Pop (sc_Stack sc);
          (offset, st) \<leftarrow> st_Pop st;
          sz \<leftarrow> st_Peek st;
          input \<leftarrow> GetCopy (sc_Memory sc) (sint (Uint64 offset)) (sint (Uint64 sz));
          Some (value, nil_bytes input, tl st) }))
        (\<lambda>(value, input, st).
          (let g = ct_Gas (sc_Contract sc);
               gas = (if rl_IsTangerineWhistle (env_rules env) then g - g div 64 else g);
               sc = sc\<lparr>sc_Contract := snd (UseGas (sc_Contract sc) gas)\<rparr>
           in res_bind (Create env run (as_ref (sc_Contract sc)) input gas value vm)
             (\<lambda>((res, addr, returnGas, suberr), vm).
               create_return pc sc st (create_value env addr suberr) (res, returnGas, suberr) vm))))"

definition opCreate2 :: executionFunc where
  "opCreate2 env run pc vm sc =
     (if evm_readOnly vm then Ret (([], Some ErrWriteProtection), pc, vm, sc)
      else res_bind (or_panic (do {
          (endowment, st) \<leftarrow> st_Pop (sc_Stack sc);
          (offset, st) \<leftarrow> st_Pop st;
          (sz, st) \<leftarrow> st_Pop st;
          (salt, st) \<leftarrow> st_Pop st;
          input \<leftarrow> GetCopy (sc_Memory sc) (sint (Uint64 offset)) (sint (Uint64 sz));
          Some (endowment, salt, nil_bytes input, st) }))
        (\<lambda>(endowment, salt, input, st).
          (let g = ct_Gas (sc_Contract sc);
               gas = g - g div 64;
               sc = sc\<lparr>sc_Contract := snd (UseGas (sc_Contract sc) gas)\<rparr>
           in res_bind (Create2 env run (as_ref (sc_Contract sc)) input gas endowment salt vm)
             (\<lambda>((res, addr, returnGas, suberr), vm).
               create_return pc sc st (if suberr \<noteq> None then 0 else ucast addr)
                 (res, returnGas, suberr) vm))))"

end
