(* ===== verification/Evm_Jump_Table.thy ===== *)
theory Evm_Jump_Table
  imports Evm_Calls
begin

text \<open>
  The instruction tables (\<^verbatim>\<open>internal/vm/jump_table.go\<close>, \<^verbatim>\<open>opcodes.go\<close>, \<^verbatim>\<open>stack_table.go\<close>, \<^verbatim>\<open>eips.go\<close>): what every
  opcode executes and costs in each fork. Each fork's table is built from the one before it and
  then validated, which panics (\<open>None\<close>) when an instruction that uses memory has no dynamic gas.
\<close>

section \<open>Opcodes\<close>

abbreviation (input) OP_STOP :: byte where "OP_STOP \<equiv> 0x00"
abbreviation (input) OP_ADD :: byte where "OP_ADD \<equiv> 0x01"
abbreviation (input) OP_MUL :: byte where "OP_MUL \<equiv> 0x02"
abbreviation (input) OP_SUB :: byte where "OP_SUB \<equiv> 0x03"
abbreviation (input) OP_DIV :: byte where "OP_DIV \<equiv> 0x04"
abbreviation (input) OP_SDIV :: byte where "OP_SDIV \<equiv> 0x05"
abbreviation (input) OP_MOD :: byte where "OP_MOD \<equiv> 0x06"
abbreviation (input) OP_SMOD :: byte where "OP_SMOD \<equiv> 0x07"
abbreviation (input) OP_ADDMOD :: byte where "OP_ADDMOD \<equiv> 0x08"
abbreviation (input) OP_MULMOD :: byte where "OP_MULMOD \<equiv> 0x09"
abbreviation (input) OP_EXP :: byte where "OP_EXP \<equiv> 0x0a"
abbreviation (input) OP_SIGNEXTEND :: byte where "OP_SIGNEXTEND \<equiv> 0x0b"
abbreviation (input) OP_LT :: byte where "OP_LT \<equiv> 0x10"
abbreviation (input) OP_GT :: byte where "OP_GT \<equiv> 0x11"
abbreviation (input) OP_SLT :: byte where "OP_SLT \<equiv> 0x12"
abbreviation (input) OP_SGT :: byte where "OP_SGT \<equiv> 0x13"
abbreviation (input) OP_EQ :: byte where "OP_EQ \<equiv> 0x14"
abbreviation (input) OP_ISZERO :: byte where "OP_ISZERO \<equiv> 0x15"
abbreviation (input) OP_AND :: byte where "OP_AND \<equiv> 0x16"
abbreviation (input) OP_OR :: byte where "OP_OR \<equiv> 0x17"
abbreviation (input) OP_XOR :: byte where "OP_XOR \<equiv> 0x18"
abbreviation (input) OP_NOT :: byte where "OP_NOT \<equiv> 0x19"
abbreviation (input) OP_BYTE :: byte where "OP_BYTE \<equiv> 0x1a"
abbreviation (input) OP_SHL :: byte where "OP_SHL \<equiv> 0x1b"
abbreviation (input) OP_SHR :: byte where "OP_SHR \<equiv> 0x1c"
abbreviation (input) OP_SAR :: byte where "OP_SAR \<equiv> 0x1d"
abbreviation (input) OP_KECCAK256 :: byte where "OP_KECCAK256 \<equiv> 0x20"
abbreviation (input) OP_ADDRESS :: byte where "OP_ADDRESS \<equiv> 0x30"
abbreviation (input) OP_BALANCE :: byte where "OP_BALANCE \<equiv> 0x31"
abbreviation (input) OP_ORIGIN :: byte where "OP_ORIGIN \<equiv> 0x32"
abbreviation (input) OP_CALLER :: byte where "OP_CALLER \<equiv> 0x33"
abbreviation (input) OP_CALLVALUE :: byte where "OP_CALLVALUE \<equiv> 0x34"
abbreviation (input) OP_CALLDATALOAD :: byte where "OP_CALLDATALOAD \<equiv> 0x35"
abbreviation (input) OP_CALLDATASIZE :: byte where "OP_CALLDATASIZE \<equiv> 0x36"
abbreviation (input) OP_CALLDATACOPY :: byte where "OP_CALLDATACOPY \<equiv> 0x37"
abbreviation (input) OP_CODESIZE :: byte where "OP_CODESIZE \<equiv> 0x38"
abbreviation (input) OP_CODECOPY :: byte where "OP_CODECOPY \<equiv> 0x39"
abbreviation (input) OP_GASPRICE :: byte where "OP_GASPRICE \<equiv> 0x3a"
abbreviation (input) OP_EXTCODESIZE :: byte where "OP_EXTCODESIZE \<equiv> 0x3b"
abbreviation (input) OP_EXTCODECOPY :: byte where "OP_EXTCODECOPY \<equiv> 0x3c"
abbreviation (input) OP_RETURNDATASIZE :: byte where "OP_RETURNDATASIZE \<equiv> 0x3d"
abbreviation (input) OP_RETURNDATACOPY :: byte where "OP_RETURNDATACOPY \<equiv> 0x3e"
abbreviation (input) OP_EXTCODEHASH :: byte where "OP_EXTCODEHASH \<equiv> 0x3f"
abbreviation (input) OP_BLOCKHASH :: byte where "OP_BLOCKHASH \<equiv> 0x40"
abbreviation (input) OP_COINBASE :: byte where "OP_COINBASE \<equiv> 0x41"
abbreviation (input) OP_TIMESTAMP :: byte where "OP_TIMESTAMP \<equiv> 0x42"
abbreviation (input) OP_NUMBER :: byte where "OP_NUMBER \<equiv> 0x43"
abbreviation (input) OP_DIFFICULTY :: byte where "OP_DIFFICULTY \<equiv> 0x44"
abbreviation (input) OP_GASLIMIT :: byte where "OP_GASLIMIT \<equiv> 0x45"
abbreviation (input) OP_CHAINID :: byte where "OP_CHAINID \<equiv> 0x46"
abbreviation (input) OP_SELFBALANCE :: byte where "OP_SELFBALANCE \<equiv> 0x47"
abbreviation (input) OP_BASEFEE :: byte where "OP_BASEFEE \<equiv> 0x48"
abbreviation (input) OP_POP :: byte where "OP_POP \<equiv> 0x50"
abbreviation (input) OP_MLOAD :: byte where "OP_MLOAD \<equiv> 0x51"
abbreviation (input) OP_MSTORE :: byte where "OP_MSTORE \<equiv> 0x52"
abbreviation (input) OP_MSTORE8 :: byte where "OP_MSTORE8 \<equiv> 0x53"
abbreviation (input) OP_SLOAD :: byte where "OP_SLOAD \<equiv> 0x54"
abbreviation (input) OP_SSTORE :: byte where "OP_SSTORE \<equiv> 0x55"
abbreviation (input) OP_JUMP :: byte where "OP_JUMP \<equiv> 0x56"
abbreviation (input) OP_JUMPI :: byte where "OP_JUMPI \<equiv> 0x57"
abbreviation (input) OP_PC :: byte where "OP_PC \<equiv> 0x58"
abbreviation (input) OP_MSIZE :: byte where "OP_MSIZE \<equiv> 0x59"
abbreviation (input) OP_GAS :: byte where "OP_GAS \<equiv> 0x5a"
abbreviation (input) OP_PUSH0 :: byte where "OP_PUSH0 \<equiv> 0x5f"
abbreviation (input) OP_DUP1 :: byte where "OP_DUP1 \<equiv> 0x80"
abbreviation (input) OP_SWAP1 :: byte where "OP_SWAP1 \<equiv> 0x90"
abbreviation (input) OP_LOG0 :: byte where "OP_LOG0 \<equiv> 0xa0"
abbreviation (input) OP_LOG1 :: byte where "OP_LOG1 \<equiv> 0xa1"
abbreviation (input) OP_LOG2 :: byte where "OP_LOG2 \<equiv> 0xa2"
abbreviation (input) OP_LOG3 :: byte where "OP_LOG3 \<equiv> 0xa3"
abbreviation (input) OP_LOG4 :: byte where "OP_LOG4 \<equiv> 0xa4"
abbreviation (input) OP_CREATE :: byte where "OP_CREATE \<equiv> 0xf0"
abbreviation (input) OP_CALL :: byte where "OP_CALL \<equiv> 0xf1"
abbreviation (input) OP_CALLCODE :: byte where "OP_CALLCODE \<equiv> 0xf2"
abbreviation (input) OP_RETURN :: byte where "OP_RETURN \<equiv> 0xf3"
abbreviation (input) OP_DELEGATECALL :: byte where "OP_DELEGATECALL \<equiv> 0xf4"
abbreviation (input) OP_CREATE2 :: byte where "OP_CREATE2 \<equiv> 0xf5"
abbreviation (input) OP_STATICCALL :: byte where "OP_STATICCALL \<equiv> 0xfa"
abbreviation (input) OP_REVERT :: byte where "OP_REVERT \<equiv> 0xfd"
abbreviation (input) OP_INVALID :: byte where "OP_INVALID \<equiv> 0xfe"
abbreviation (input) OP_SELFDESTRUCT :: byte where "OP_SELFDESTRUCT \<equiv> 0xff"

section \<open>Constant prices\<close>

abbreviation (input) GasQuickStep :: u64 where "GasQuickStep \<equiv> 2"
abbreviation (input) GasFastestStep :: u64 where "GasFastestStep \<equiv> 3"
abbreviation (input) GasFastStep :: u64 where "GasFastStep \<equiv> 5"
abbreviation (input) GasMidStep :: u64 where "GasMidStep \<equiv> 8"
abbreviation (input) GasSlowStep :: u64 where "GasSlowStep \<equiv> 10"
abbreviation (input) GasExtStep :: u64 where "GasExtStep \<equiv> 20"
abbreviation (input) Keccak256Gas :: u64 where "Keccak256Gas \<equiv> 30"
abbreviation (input) JumpdestGas :: u64 where "JumpdestGas \<equiv> 1"
abbreviation (input) CreateGas :: u64 where "CreateGas \<equiv> 32000"
abbreviation (input) Create2Gas :: u64 where "Create2Gas \<equiv> 32000"
abbreviation (input) CallGasFrontier :: u64 where "CallGasFrontier \<equiv> 40"
abbreviation (input) CallGasEIP150 :: u64 where "CallGasEIP150 \<equiv> 700"
abbreviation (input) BalanceGasFrontier :: u64 where "BalanceGasFrontier \<equiv> 20"
abbreviation (input) BalanceGasEIP150 :: u64 where "BalanceGasEIP150 \<equiv> 400"
abbreviation (input) BalanceGasEIP1884 :: u64 where "BalanceGasEIP1884 \<equiv> 700"
abbreviation (input) ExtcodeSizeGasFrontier :: u64 where "ExtcodeSizeGasFrontier \<equiv> 20"
abbreviation (input) ExtcodeSizeGasEIP150 :: u64 where "ExtcodeSizeGasEIP150 \<equiv> 700"
abbreviation (input) SloadGasFrontier :: u64 where "SloadGasFrontier \<equiv> 50"
abbreviation (input) SloadGasEIP150 :: u64 where "SloadGasEIP150 \<equiv> 200"
abbreviation (input) SloadGasEIP1884 :: u64 where "SloadGasEIP1884 \<equiv> 800"
abbreviation (input) ExtcodeHashGasConstantinople :: u64 where "ExtcodeHashGasConstantinople \<equiv> 400"
abbreviation (input) ExtcodeHashGasEIP1884 :: u64 where "ExtcodeHashGasEIP1884 \<equiv> 700"
abbreviation (input) ExtcodeCopyBaseFrontier :: u64 where "ExtcodeCopyBaseFrontier \<equiv> 20"
abbreviation (input) ExtcodeCopyBaseEIP150 :: u64 where "ExtcodeCopyBaseEIP150 \<equiv> 700"
abbreviation (input) StackLimit :: nat where "StackLimit \<equiv> 1024"

section \<open>Operations\<close>

type_synonym memorySizeFunc = "stack \<Rightarrow> (u64 \<times> bool) option"

record operation =
  op_execute :: executionFunc
  op_constantGas :: u64
  op_dynamicGas :: "gasFunc option"
  op_maxStack :: int
  op_numPop :: nat
  op_numPush :: nat
  op_isPush :: bool
  op_isSwap :: bool
  op_isDup :: bool
  op_opNum :: nat
  op_memorySize :: "memorySizeFunc option"

type_synonym JumpTable = "byte \<Rightarrow> operation"

definition const_op :: "executionFunc \<Rightarrow> u64 \<Rightarrow> nat \<Rightarrow> nat \<Rightarrow> operation" where
  "const_op ex gas pop push =
     \<lparr>op_execute = ex, op_constantGas = gas, op_dynamicGas = None, op_maxStack = 0, op_numPop = pop,
      op_numPush = push, op_isPush = False, op_isSwap = False, op_isDup = False, op_opNum = 0,
      op_memorySize = None\<rparr>"

definition dyn_op ::
  "executionFunc \<Rightarrow> u64 \<Rightarrow> gasFunc \<Rightarrow> memorySizeFunc option \<Rightarrow> nat \<Rightarrow> nat \<Rightarrow> operation" where
  "dyn_op ex gas dyn mem pop push = (const_op ex gas pop push)\<lparr>op_dynamicGas := Some dyn, op_memorySize := mem\<rparr>"

definition push_op :: "nat \<Rightarrow> operation" where
  "push_op n = (const_op (lift_op (makePush (of_nat n) (int n))) GasFastestStep 0 1)\<lparr>op_isPush := True, op_opNum := n\<rparr>"

definition dup_op :: "nat \<Rightarrow> operation" where
  "dup_op n = (const_op (lift_op (makeDup n)) GasFastestStep n (n + 1))\<lparr>op_isDup := True, op_opNum := n\<rparr>"

definition swap_op :: "nat \<Rightarrow> operation" where
  "swap_op n = (const_op (lift_op (makeSwap n)) GasFastestStep (n + 1) (n + 1))\<lparr>op_isSwap := True, op_opNum := n\<rparr>"

definition maxStack :: "nat \<Rightarrow> nat \<Rightarrow> int" where
  "maxStack pop push = int StackLimit + int pop - int push"

definition validateAndFillMaxStack :: "JumpTable \<Rightarrow> JumpTable option" where
  "validateAndFillMaxStack jt =
     (if list_ex (\<lambda>i. op_memorySize (jt (of_nat i)) \<noteq> None \<and> op_dynamicGas (jt (of_nat i)) = None) [0..<256]
      then None
      else Some (\<lambda>i. (jt i)\<lparr>op_maxStack := maxStack (op_numPop (jt i)) (op_numPush (jt i))\<rparr>))"

section \<open>Frontier\<close>

definition frontier_arith :: "(byte \<times> operation) list" where
  "frontier_arith =
   [(OP_STOP, const_op (lift_op opStop) 0 0 0),
    (OP_ADD, const_op (lift_op opAdd) GasFastestStep 2 1),
    (OP_MUL, const_op (lift_op opMul) GasFastStep 2 1),
    (OP_SUB, const_op (lift_op opSub) GasFastestStep 2 1),
    (OP_DIV, const_op (lift_op opDiv) GasFastStep 2 1),
    (OP_SDIV, const_op (lift_op opSdiv) GasFastStep 2 1),
    (OP_MOD, const_op (lift_op opMod) GasFastStep 2 1),
    (OP_SMOD, const_op (lift_op opSmod) GasFastStep 2 1),
    (OP_ADDMOD, const_op (lift_op opAddmod) GasMidStep 3 1),
    (OP_MULMOD, const_op (lift_op opMulmod) GasMidStep 3 1),
    (OP_EXP, dyn_op (lift_op opExp) 0 gasExpFrontier None 2 1),
    (OP_SIGNEXTEND, const_op (lift_op opSignExtend) GasFastStep 2 1),
    (OP_LT, const_op (lift_op opLt) GasFastestStep 2 1),
    (OP_GT, const_op (lift_op opGt) GasFastestStep 2 1),
    (OP_SLT, const_op (lift_op opSlt) GasFastestStep 2 1),
    (OP_SGT, const_op (lift_op opSgt) GasFastestStep 2 1),
    (OP_EQ, const_op (lift_op opEq) GasFastestStep 2 1),
    (OP_ISZERO, const_op (lift_op opIszero) GasFastestStep 1 1),
    (OP_AND, const_op (lift_op opAnd) GasFastestStep 2 1),
    (OP_XOR, const_op (lift_op opXor) GasFastestStep 2 1),
    (OP_OR, const_op (lift_op opOr) GasFastestStep 2 1),
    (OP_NOT, const_op (lift_op opNot) GasFastestStep 1 1),
    (OP_BYTE, const_op (lift_op opByte) GasFastestStep 2 1),
    (OP_KECCAK256, dyn_op (lift_op opKeccak256) Keccak256Gas gasKeccak256 (Some memoryKeccak256) 2 1)]"

definition frontier_env :: "(byte \<times> operation) list" where
  "frontier_env =
   [(OP_ADDRESS, const_op (lift_op opAddress) GasQuickStep 0 1),
    (OP_BALANCE, const_op (lift_op opBalance) BalanceGasFrontier 1 1),
    (OP_ORIGIN, const_op (lift_op opOrigin) GasQuickStep 0 1),
    (OP_CALLER, const_op (lift_op opCaller) GasQuickStep 0 1),
    (OP_CALLVALUE, const_op (lift_op opCallValue) GasQuickStep 0 1),
    (OP_CALLDATALOAD, const_op (lift_op opCallDataLoad) GasFastestStep 1 1),
    (OP_CALLDATASIZE, const_op (lift_op opCallDataSize) GasQuickStep 0 1),
    (OP_CALLDATACOPY, dyn_op (lift_op opCallDataCopy) GasFastestStep gasCallDataCopy (Some memoryCallDataCopy) 3 0),
    (OP_CODESIZE, const_op (lift_op opCodeSize) GasQuickStep 0 1),
    (OP_CODECOPY, dyn_op (lift_op opCodeCopy) GasFastestStep gasCodeCopy (Some memoryCodeCopy) 3 0),
    (OP_GASPRICE, const_op (lift_op opGasprice) GasQuickStep 0 1),
    (OP_EXTCODESIZE, const_op (lift_op opExtCodeSize) ExtcodeSizeGasFrontier 1 1),
    (OP_EXTCODECOPY, dyn_op (lift_op opExtCodeCopy) ExtcodeCopyBaseFrontier gasExtCodeCopy (Some memoryExtCodeCopy) 4 0),
    (OP_BLOCKHASH, const_op (lift_op opBlockhash) GasExtStep 1 1),
    (OP_COINBASE, const_op (lift_op opCoinbase) GasQuickStep 0 1),
    (OP_TIMESTAMP, const_op (lift_op opTimestamp) GasQuickStep 0 1),
    (OP_NUMBER, const_op (lift_op opNumber) GasQuickStep 0 1),
    (OP_DIFFICULTY, const_op (lift_op opDifficulty) GasQuickStep 0 1),
    (OP_GASLIMIT, const_op (lift_op opGasLimit) GasQuickStep 0 1)]"

definition frontier_mem :: "(byte \<times> operation) list" where
  "frontier_mem =
   [(OP_POP, const_op (lift_op opPop) GasQuickStep 1 0),
    (OP_MLOAD, dyn_op (lift_op opMload) GasFastestStep gasMLoad (Some memoryMLoad) 1 1),
    (OP_MSTORE, dyn_op (lift_op opMstore) GasFastestStep gasMStore (Some memoryMStore) 2 0),
    (OP_MSTORE8, dyn_op (lift_op opMstore8) GasFastestStep gasMStore8 (Some memoryMStore8) 2 0),
    (OP_SLOAD, const_op (lift_op opSload) SloadGasFrontier 1 1),
    (OP_SSTORE, dyn_op (lift_op opSstore) 0 gasSStore None 2 0),
    (OP_JUMP, const_op (lift_op opJump) GasMidStep 1 0),
    (OP_JUMPI, const_op (lift_op opJumpi) GasSlowStep 2 0),
    (OP_PC, const_op (lift_op opPc) GasQuickStep 0 1),
    (OP_MSIZE, const_op (lift_op opMsize) GasQuickStep 0 1),
    (OP_GAS, const_op (lift_op opGas) GasQuickStep 0 1),
    (OP_JUMPDEST, const_op (lift_op opJumpdest) JumpdestGas 0 0)]"

definition frontier_push_lo :: "(byte \<times> operation) list" where
  "frontier_push_lo =
   (OP_PUSH1, (const_op (lift_op opPush1) GasFastestStep 0 1)\<lparr>op_isPush := True, op_opNum := 1\<rparr>) #
   map (\<lambda>n. (0x5f + of_nat n, push_op n)) [2..<17]"

definition frontier_push_hi :: "(byte \<times> operation) list" where
  "frontier_push_hi = map (\<lambda>n. (0x5f + of_nat n, push_op n)) [17..<33]"

definition frontier_dup :: "(byte \<times> operation) list" where
  "frontier_dup = map (\<lambda>n. (0x7f + of_nat n, dup_op n)) [1..<17]"

definition frontier_swap :: "(byte \<times> operation) list" where
  "frontier_swap = map (\<lambda>n. (0x8f + of_nat n, swap_op n)) [1..<17]"

definition frontier_log :: "(byte \<times> operation) list" where
  "frontier_log =
   [(OP_LOG0, dyn_op (lift_op (makeLog 0)) 0 (makeGasLog 0) (Some memoryLog) 2 0),
    (OP_LOG1, dyn_op (lift_op (makeLog 1)) 0 (makeGasLog 1) (Some memoryLog) 3 0),
    (OP_LOG2, dyn_op (lift_op (makeLog 2)) 0 (makeGasLog 2) (Some memoryLog) 4 0),
    (OP_LOG3, dyn_op (lift_op (makeLog 3)) 0 (makeGasLog 3) (Some memoryLog) 5 0),
    (OP_LOG4, dyn_op (lift_op (makeLog 4)) 0 (makeGasLog 4) (Some memoryLog) 6 0)]"

definition frontier_sys :: "(byte \<times> operation) list" where
  "frontier_sys =
   [(OP_CREATE, dyn_op opCreate CreateGas gasCreate (Some memoryCreate) 3 1),
    (OP_CALL, dyn_op opCall CallGasFrontier gasCall (Some memoryCall) 7 1),
    (OP_CALLCODE, dyn_op opCallCode CallGasFrontier gasCallCode (Some memoryCall) 7 1),
    (OP_RETURN, dyn_op (lift_op opReturn) 0 gasReturn (Some memoryReturn) 2 0),
    (OP_SELFDESTRUCT, dyn_op (lift_op opSelfdestruct) 0 gasSelfdestruct None 1 0)]"

definition frontier_ops :: "(byte \<times> operation) list" where
  "frontier_ops = frontier_arith @ frontier_env @ frontier_mem @ frontier_push_lo @ frontier_push_hi @
     frontier_dup @ frontier_swap @ frontier_log @ frontier_sys"

text \<open>Unassigned slots execute \<^verbatim>\<open>opUndefined\<close>.\<close>

definition newFrontierInstructionSet :: "JumpTable option" where
  "newFrontierInstructionSet = validateAndFillMaxStack (\<lambda>b.
     case map_of frontier_ops b of Some o' \<Rightarrow> o' | None \<Rightarrow> const_op (lift_op opUndefined) 0 0 0)"

section \<open>Later forks\<close>

abbreviation set_const :: "byte \<Rightarrow> u64 \<Rightarrow> JumpTable \<Rightarrow> JumpTable" where
  "set_const b g jt \<equiv> jt(b := (jt b)\<lparr>op_constantGas := g\<rparr>)"

abbreviation set_dyn :: "byte \<Rightarrow> gasFunc \<Rightarrow> JumpTable \<Rightarrow> JumpTable" where
  "set_dyn b g jt \<equiv> jt(b := (jt b)\<lparr>op_dynamicGas := Some g\<rparr>)"

definition newHomesteadInstructionSet :: "JumpTable option" where
  "newHomesteadInstructionSet = do {
     jt \<leftarrow> newFrontierInstructionSet;
     validateAndFillMaxStack (jt(OP_DELEGATECALL :=
       dyn_op opDelegateCall CallGasFrontier gasDelegateCall (Some memoryDelegateCall) 6 1)) }"

definition tangerine_prices :: "JumpTable \<Rightarrow> JumpTable" where
  "tangerine_prices jt =
     set_const OP_DELEGATECALL CallGasEIP150 (set_const OP_CALLCODE CallGasEIP150
     (set_const OP_CALL CallGasEIP150 (set_const OP_EXTCODECOPY ExtcodeCopyBaseEIP150
     (set_const OP_SLOAD SloadGasEIP150 (set_const OP_EXTCODESIZE ExtcodeSizeGasEIP150
     (set_const OP_BALANCE BalanceGasEIP150 jt))))))"

definition newTangerineWhistleInstructionSet :: "JumpTable option" where
  "newTangerineWhistleInstructionSet = do {
     jt \<leftarrow> newHomesteadInstructionSet; validateAndFillMaxStack (tangerine_prices jt) }"

definition newSpuriousDragonInstructionSet :: "JumpTable option" where
  "newSpuriousDragonInstructionSet = do {
     jt \<leftarrow> newTangerineWhistleInstructionSet;
     validateAndFillMaxStack (set_dyn OP_EXP gasExpEIP160 jt) }"

definition byzantium_ops :: "JumpTable \<Rightarrow> JumpTable" where
  "byzantium_ops jt = jt(
     OP_STATICCALL := dyn_op opStaticCall CallGasEIP150 gasStaticCall (Some memoryStaticCall) 6 1,
     OP_RETURNDATASIZE := const_op (lift_op opReturnDataSize) GasQuickStep 0 1,
     OP_RETURNDATACOPY := dyn_op (lift_op opReturnDataCopy) GasFastestStep gasReturnDataCopy (Some memoryReturnDataCopy) 3 0,
     OP_REVERT := dyn_op (lift_op opRevert) 0 gasRevert (Some memoryRevert) 2 0)"

definition newByzantiumInstructionSet :: "JumpTable option" where
  "newByzantiumInstructionSet = do {
     jt \<leftarrow> newSpuriousDragonInstructionSet; validateAndFillMaxStack (byzantium_ops jt) }"

definition constantinople_ops :: "JumpTable \<Rightarrow> JumpTable" where
  "constantinople_ops jt = jt(
     OP_SHL := const_op (lift_op opSHL) GasFastestStep 2 1,
     OP_SHR := const_op (lift_op opSHR) GasFastestStep 2 1,
     OP_SAR := const_op (lift_op opSAR) GasFastestStep 2 1,
     OP_EXTCODEHASH := const_op (lift_op opExtCodeHash) ExtcodeHashGasConstantinople 1 1,
     OP_CREATE2 := dyn_op opCreate2 Create2Gas gasCreate2 (Some memoryCreate2) 4 1)"

definition newConstantinopleInstructionSet :: "JumpTable option" where
  "newConstantinopleInstructionSet = do {
     jt \<leftarrow> newByzantiumInstructionSet; validateAndFillMaxStack (constantinople_ops jt) }"

definition enable1884 :: "JumpTable \<Rightarrow> JumpTable" where
  "enable1884 jt =
     (set_const OP_EXTCODEHASH ExtcodeHashGasEIP1884 (set_const OP_BALANCE BalanceGasEIP1884
       (set_const OP_SLOAD SloadGasEIP1884 jt)))
     (OP_SELFBALANCE := const_op (lift_op opSelfBalance) GasFastStep 0 1)"

definition enable1344 :: "JumpTable \<Rightarrow> JumpTable" where
  "enable1344 jt = jt(OP_CHAINID := const_op (lift_op opChainID) GasQuickStep 0 1)"

definition enable2200 :: "JumpTable \<Rightarrow> JumpTable" where
  "enable2200 jt = set_dyn OP_SSTORE gasSStoreEIP2200 (set_const OP_SLOAD SloadGasEIP2200 jt)"

definition enable2929 :: "JumpTable \<Rightarrow> JumpTable" where
  "enable2929 jt =
     (let w = WarmStorageReadCostEIP2929;
          jt = set_dyn OP_SSTORE gasSStoreEIP2929 jt;
          jt = set_dyn OP_SLOAD gasSLoadEIP2929 (set_const OP_SLOAD 0 jt);
          jt = set_dyn OP_EXTCODECOPY gasExtCodeCopyEIP2929 (set_const OP_EXTCODECOPY w jt);
          jt = set_dyn OP_EXTCODESIZE gasEip2929AccountCheck (set_const OP_EXTCODESIZE w jt);
          jt = set_dyn OP_EXTCODEHASH gasEip2929AccountCheck (set_const OP_EXTCODEHASH w jt);
          jt = set_dyn OP_BALANCE gasEip2929AccountCheck (set_const OP_BALANCE w jt);
          jt = set_dyn OP_CALL gasCallEIP2929 (set_const OP_CALL w jt);
          jt = set_dyn OP_CALLCODE gasCallCodeEIP2929 (set_const OP_CALLCODE w jt);
          jt = set_dyn OP_STATICCALL gasStaticCallEIP2929 (set_const OP_STATICCALL w jt);
          jt = set_dyn OP_DELEGATECALL gasDelegateCallEIP2929 (set_const OP_DELEGATECALL w jt)
      in set_dyn OP_SELFDESTRUCT gasSelfdestructEIP2929 (set_const OP_SELFDESTRUCT SelfdestructGasEIP150 jt))"

definition enable3529 :: "JumpTable \<Rightarrow> JumpTable" where
  "enable3529 jt = set_dyn OP_SELFDESTRUCT gasSelfdestructEIP3529 (set_dyn OP_SSTORE gasSStoreEIP3529 jt)"

definition enable3198 :: "JumpTable \<Rightarrow> JumpTable" where
  "enable3198 jt = jt(OP_BASEFEE := const_op (lift_op opBaseFee) GasQuickStep 0 1)"

definition enable3855 :: "JumpTable \<Rightarrow> JumpTable" where
  "enable3855 jt = jt(OP_PUSH0 := const_op (lift_op opPush0) GasQuickStep 0 1)"

definition enable3860 :: "JumpTable \<Rightarrow> JumpTable" where
  "enable3860 jt = set_dyn OP_CREATE2 gasCreate2Eip3860 (set_dyn OP_CREATE gasCreateEip3860 jt)"

definition newIstanbulInstructionSet :: "JumpTable option" where
  "newIstanbulInstructionSet = do {
     jt \<leftarrow> newConstantinopleInstructionSet;
     validateAndFillMaxStack (enable2200 (enable1884 (enable1344 jt))) }"

definition newBerlinInstructionSet :: "JumpTable option" where
  "newBerlinInstructionSet = do {
     jt \<leftarrow> newIstanbulInstructionSet; validateAndFillMaxStack (enable2929 jt) }"

definition newLondonInstructionSet :: "JumpTable option" where
  "newLondonInstructionSet = do {
     jt \<leftarrow> newBerlinInstructionSet; validateAndFillMaxStack (enable3198 (enable3529 jt)) }"

definition newShanghaiInstructionSet :: "JumpTable option" where
  "newShanghaiInstructionSet = do {
     jt \<leftarrow> newLondonInstructionSet; validateAndFillMaxStack (enable3860 (enable3855 jt)) }"

definition newCancunInstructionSet :: "JumpTable option" where
  "newCancunInstructionSet = do { jt \<leftarrow> newShanghaiInstructionSet; validateAndFillMaxStack jt }"

definition newPragueInstructionSet :: "JumpTable option" where
  "newPragueInstructionSet = do { jt \<leftarrow> newCancunInstructionSet; validateAndFillMaxStack jt }"

section \<open>Choosing a table\<close>

definition activators :: "int \<Rightarrow> (JumpTable \<Rightarrow> JumpTable) option" where
  "activators = map_of [(3855, enable3855), (3860, enable3860), (3529, enable3529), (3198, enable3198),
     (2929, enable2929), (2200, enable2200), (1884, enable1884), (1344, enable1344)]"

definition ValidEip :: "int \<Rightarrow> bool" where
  "ValidEip eipNum \<longleftrightarrow> activators eipNum \<noteq> None"

text \<open>The flag is the error "undefined eip".\<close>

definition EnableEIP :: "int \<Rightarrow> JumpTable \<Rightarrow> (bool \<times> JumpTable) option" where
  "EnableEIP eipNum jt =
     (case activators eipNum of
        None \<Rightarrow> Some (True, jt)
      | Some enablerFn \<Rightarrow> do { jt \<leftarrow> validateAndFillMaxStack (enablerFn jt); Some (False, jt) })"

text \<open>
  The loop of \<^verbatim>\<open>NewEVMInterpreter\<close> over \<^verbatim>\<open>cfg.ExtraEips\<close>: the range keeps the length of the slice it
  started with and reads the elements of the backing array \<open>arr\<close> as it goes, while removing an
  unknown EIP moves the elements after it down in that array and shortens \<^verbatim>\<open>cfg.ExtraEips\<close>, whose
  length is \<open>len\<close>. The slice expression panics when the index is beyond that length.
\<close>

primrec extra_eips_loop :: "nat \<Rightarrow> int list \<Rightarrow> nat \<Rightarrow> JumpTable \<Rightarrow> (JumpTable \<times> int list) option" where
  "extra_eips_loop 0 arr len jt = Some (jt, take len arr)"
| "extra_eips_loop (Suc k) arr len jt =
     (let i = length arr - Suc k in do {
        (undef, jt) \<leftarrow> EnableEIP (arr ! i) jt;
        if undef then
          (if i + 1 > len then None
           else extra_eips_loop k (take i arr @ take (len - (i + 1)) (drop (i + 1) arr) @ drop (len - 1) arr)
                  (len - 1) jt)
        else extra_eips_loop k arr len jt })"

definition select_table :: "Rules \<Rightarrow> JumpTable option" where
  "select_table r =
     (if rl_IsPrague r then newPragueInstructionSet
      else if rl_IsCancun r then newCancunInstructionSet
      else if rl_IsShanghai r then newShanghaiInstructionSet
      else if rl_IsLondon r then newLondonInstructionSet
      else if rl_IsBerlin r then newBerlinInstructionSet
      else if rl_IsIstanbul r then newIstanbulInstructionSet
      else if rl_IsConstantinople r then newConstantinopleInstructionSet
      else if rl_IsByzantium r then newByzantiumInstructionSet
      else if rl_IsSpuriousDragon r then newSpuriousDragonInstructionSet
      else if rl_IsTangerineWhistle r then newTangerineWhistleInstructionSet
      else if rl_IsHomestead r then newHomesteadInstructionSet
      else newFrontierInstructionSet)"

text \<open>The table of a new interpreter, and the EIPs its configuration keeps.\<close>

definition NewEVMInterpreter :: "Rules \<Rightarrow> Config \<Rightarrow> (JumpTable \<times> int list) option" where
  "NewEVMInterpreter r cfg = do {
     jt \<leftarrow> select_table r;
     extra_eips_loop (length (cfg_ExtraEips cfg)) (cfg_ExtraEips cfg) (length (cfg_ExtraEips cfg)) jt }"

end
