(* ===== verification/Evm_Interpreter.thy ===== *)
theory Evm_Interpreter
  imports Evm_Jump_Table
begin

text \<open>
  The interpreter loop (\<^verbatim>\<open>internal/vm/interpreter.go\<close>). One round is \<open>interp_step\<close>; the loop takes one
  unit of fuel per round and hands the rest to the frames it calls, so a frame with fuel \<open>n\<close> runs
  at most \<open>n\<close> rounds and nests at most \<open>n\<close> deep.
\<close>

datatype step_result =
    Continue "byte list" u64 EVM ScopeContext
  | Halt "byte list" "evm_error option" EVM ScopeContext

text \<open>Price of an operation with dynamic gas, and the memory it needs; an error ends the frame.\<close>

definition charge_dynamic ::
  "Env \<Rightarrow> operation \<Rightarrow> EVM \<Rightarrow> ScopeContext \<Rightarrow> (evm_error option \<times> EVM \<times> ScopeContext) option" where
  "charge_dynamic env o' vm sc =
     (case op_dynamicGas o' of None \<Rightarrow> Some (None, vm, sc)
      | Some dynamicGas \<Rightarrow> do {
          (memSize, overflow) \<leftarrow> (case op_memorySize o' of None \<Rightarrow> Some (0, False)
             | Some f \<Rightarrow> do {
                 (sz, overflow) \<leftarrow> f (sc_Stack sc);
                 Some (if overflow then (0, True) else SafeMul (ToWordSize sz) 32) });
          if overflow then Some (Some ErrGasUintOverflow, vm, sc)
          else do {
            ((dynamicCost, err), vm, c, mem) \<leftarrow>
              dynamicGas env vm (sc_Contract sc) (sc_Stack sc) (sc_Memory sc) memSize;
            let (paid, c) = (if err = None then UseGas c dynamicCost else (False, c));
            if \<not> paid then Some (Some ErrOutOfGas, vm, sc\<lparr>sc_Contract := c, sc_Memory := mem\<rparr>)
            else Some (None, vm, sc\<lparr>sc_Contract := c,
              sc_Memory := if memSize > 0 then mem_Resize mem memSize else mem\<rparr>) } })"

text \<open>Paying for and executing an operation, after the stack has been checked.\<close>

definition op_step :: "Env \<Rightarrow> operation \<Rightarrow> run_fn \<Rightarrow> u64 \<Rightarrow> EVM \<Rightarrow> ScopeContext \<Rightarrow> step_result res" where
  "op_step env o' run pc vm sc =
     (let (paid, c) = UseGas (sc_Contract sc) (op_constantGas o'); sc = sc\<lparr>sc_Contract := c\<rparr> in
      if \<not> paid then Ret (Halt [] (Some ErrOutOfGas) vm sc)
      else res_bind (or_panic (charge_dynamic env o' vm sc)) (\<lambda>(err, vm, sc).
        case err of Some e \<Rightarrow> Ret (Halt [] (Some e) vm sc)
        | None \<Rightarrow> res_bind (op_execute o' env run pc vm sc) (\<lambda>((res, err), pc, vm, sc).
            if err \<noteq> None then Ret (Halt res err vm sc) else Ret (Continue res (pc + 1) vm sc))))"

definition interp_step :: "Env \<Rightarrow> JumpTable \<Rightarrow> run_fn \<Rightarrow> u64 \<Rightarrow> EVM \<Rightarrow> ScopeContext \<Rightarrow> step_result res" where
  "interp_step env jt run pc vm sc =
     (let o' = jt (GetOp (sc_Contract sc) pc);
          sLen = st_Len (sc_Stack sc)
      in if sLen < op_numPop o' then Ret (Halt [] (Some (ErrStackUnderflow sLen (op_numPop o'))) vm sc)
         else if int sLen > op_maxStack o' then Ret (Halt [] (Some (ErrStackOverflow sLen (nat (op_maxStack o')))) vm sc)
         else op_step env o' run pc vm sc)"

text \<open>
  Around the loop: depth, read-only flag and return data on entry, restored on exit by the deferred
  functions; the stop token is not an error.
\<close>

definition run_frame ::
  "(EVM \<Rightarrow> ScopeContext \<Rightarrow> ((byte list \<times> evm_error option) \<times> EVM \<times> ScopeContext) res) \<Rightarrow> run_fn" where
  "run_frame loop contract input readOnly vm =
     (if ct_Code contract = [] then Ret (([], None), contract, vm)
      else (let setRO = (readOnly \<and> \<not> evm_readOnly vm);
                vm = vm\<lparr>evm_depth := evm_depth vm + 1, evm_readOnly := (evm_readOnly vm \<or> setRO),
                        evm_returnData := []\<rparr>;
                sc = \<lparr>sc_Memory = mem_Reset NewMemory, sc_Stack = [], sc_Contract = contract\<lparr>ct_Input := input\<rparr>\<rparr>
            in res_bind (loop vm sc) (\<lambda>((res, err), vm, sc).
                 Ret ((res, if err = Some errStopToken then None else err), sc_Contract sc,
                   vm\<lparr>evm_depth := evm_depth vm - 1,
                      evm_readOnly := (if setRO then False else evm_readOnly vm)\<rparr>))))"

primrec interp_loop ::
  "nat \<Rightarrow> Env \<Rightarrow> JumpTable \<Rightarrow> nat \<Rightarrow> byte list \<Rightarrow> u64 \<Rightarrow> EVM \<Rightarrow> ScopeContext \<Rightarrow>
     ((byte list \<times> evm_error option) \<times> EVM \<times> ScopeContext) res" where
  "interp_loop 0 env jt steps res pc vm sc = NoFuel"
| "interp_loop (Suc n) env jt steps res pc vm sc =
     (if Suc steps mod 1000 = 0 \<and> evm_abort vm then Ret ((res, None), vm, sc)
      else res_bind (interp_step env jt (run_frame (interp_loop n env jt 0 [] 0)) pc vm sc) (\<lambda>r.
        case r of Halt res err vm sc \<Rightarrow> Ret ((res, err), vm, sc)
        | Continue res pc vm sc \<Rightarrow> interp_loop n env jt (Suc steps) res pc vm sc))"

definition Run :: "nat \<Rightarrow> Env \<Rightarrow> JumpTable \<Rightarrow> run_fn" where
  "Run fuel env jt = run_frame (interp_loop fuel env jt 0 [] 0)"

end
