(* ===== verification/Evm_Effects.thy ===== *)
theory Evm_Effects
  imports Evm_Interpreter
begin

text \<open>
  What an instruction without a nested call does to the frame: it leaves the gas, the size and the
  recorded fee of the memory, the code, the call depth and the read-only flag alone, and changes
  the height of the stack by exactly what the instruction table declares.
\<close>

named_theorems effects \<open>instructions whose stack effect is the declared one\<close>

definition same_frame :: "EVM \<Rightarrow> ScopeContext \<Rightarrow> EVM \<Rightarrow> ScopeContext \<Rightarrow> bool" where
  "same_frame vm sc vm' sc' \<longleftrightarrow>
     ct_Gas (sc_Contract sc') = ct_Gas (sc_Contract sc) \<and>
     ct_Code (sc_Contract sc') = ct_Code (sc_Contract sc) \<and>
     mem_Len (sc_Memory sc') = mem_Len (sc_Memory sc) \<and>
     m_lastGasCost (sc_Memory sc') = m_lastGasCost (sc_Memory sc) \<and>
     evm_depth vm' = evm_depth vm \<and> evm_readOnly vm' = evm_readOnly vm \<and> evm_abort vm' = evm_abort vm"

definition pure_ok :: "pureFunc \<Rightarrow> nat \<Rightarrow> nat \<Rightarrow> bool" where
  "pure_ok f p q \<longleftrightarrow> (\<forall>env pc vm sc r err pc' vm' sc'.
     f env pc vm sc = Some ((r, err), pc', vm', sc') \<longrightarrow>
     same_frame vm sc vm' sc' \<and>
     (err = None \<longrightarrow> p \<le> length (sc_Stack sc) \<and> length (sc_Stack sc') + p = length (sc_Stack sc) + q))"

definition halts :: "pureFunc \<Rightarrow> bool" where
  "halts f \<longleftrightarrow> (\<forall>env pc vm sc r err pc' vm' sc'.
     f env pc vm sc = Some ((r, err), pc', vm', sc') \<longrightarrow> err \<noteq> None)"

lemma pure_okI:
  assumes "\<And>env pc vm sc r err pc' vm' sc'. f env pc vm sc = Some ((r, err), pc', vm', sc') \<Longrightarrow>
    same_frame vm sc vm' sc' \<and>
     (err = None \<longrightarrow> p \<le> length (sc_Stack sc) \<and> length (sc_Stack sc') + p = length (sc_Stack sc) + q)"
  shows "pure_ok f p q"
  using assms by (simp add: pure_ok_def)

lemma st_Pop_Some: "st_Pop st = Some (x, st') \<longleftrightarrow> st = x # st'"
  by (cases st) (auto simp: st_Pop_def)

lemma st_Peek_Some: "st_Peek st = Some x \<longleftrightarrow> (\<exists>st'. st = x # st')"
  by (cases st) (auto simp: st_Peek_def)

lemma no_wrap_fits: "\<not> off + n < off \<Longrightarrow> unat (off + n) \<le> l \<Longrightarrow> unat off + unat n \<le> l" for off :: u64
  using unat_plus_simple [of off n] by (simp add: not_less)

lemma mem_Set_frame:
  assumes "mem_Set m off n v = Some m'"
  shows "mem_Len m' = mem_Len m \<and> m_lastGasCost m' = m_lastGasCost m"
  using assms no_wrap_fits [of off n "mem_Len m"]
  by (auto simp: mem_Set_def length_copy_at not_less split: if_splits)

lemma mem_Set32_frame:
  assumes "mem_Set32 m off v = Some m'"
  shows "mem_Len m' = mem_Len m \<and> m_lastGasCost m' = m_lastGasCost m"
  using assms no_wrap_fits [of off 32 "mem_Len m"]
  by (auto simp: mem_Set32_def length_copy_at not_less split: if_splits)

lemmas op_shapes = st_Pop_Some st_Peek_Some st_Push_def same_frame_def

lemma binop_ok [effects]: "pure_ok (binop f) 2 1"
  by (rule pure_okI) (auto simp: binop_def op_shapes split: Option.bind_splits)

lemma unop_ok [effects]: "pure_ok (unop f) 1 1"
  by (rule pure_okI) (auto simp: unop_def op_shapes split: Option.bind_splits)

lemma triop_ok [effects]: "pure_ok (triop f) 3 1"
  by (rule pure_okI) (auto simp: triop_def op_shapes split: Option.bind_splits)

lemma push_value_ok [effects]: "pure_ok (push_value v) 0 1"
  by (rule pure_okI) (auto simp: push_value_def op_shapes)

lemma push_ptr_ok [effects]: "pure_ok (push_ptr v) 0 1"
  by (rule pure_okI) (auto simp: push_ptr_def push_value_def op_shapes split: Option.bind_splits)

lemma arith_effects [effects]:
  "pure_ok opAdd 2 1" "pure_ok opSub 2 1" "pure_ok opMul 2 1" "pure_ok opDiv 2 1" "pure_ok opSdiv 2 1"
  "pure_ok opMod 2 1" "pure_ok opSmod 2 1" "pure_ok opExp 2 1" "pure_ok opSignExtend 2 1" "pure_ok opNot 1 1"
  "pure_ok opLt 2 1" "pure_ok opGt 2 1" "pure_ok opSlt 2 1" "pure_ok opSgt 2 1" "pure_ok opEq 2 1"
  "pure_ok opIszero 1 1" "pure_ok opAnd 2 1" "pure_ok opOr 2 1" "pure_ok opXor 2 1" "pure_ok opByte 2 1"
  "pure_ok opAddmod 3 1" "pure_ok opMulmod 3 1" "pure_ok opSHL 2 1" "pure_ok opSHR 2 1" "pure_ok opSAR 2 1"
  unfolding opAdd_def opSub_def opMul_def opDiv_def opSdiv_def opMod_def opSmod_def opExp_def opSignExtend_def
    opNot_def opLt_def opGt_def opSlt_def opSgt_def opEq_def opIszero_def opAnd_def opOr_def opXor_def
    opByte_def opAddmod_def opMulmod_def opSHL_def opSHR_def opSAR_def
  by (rule binop_ok unop_ok triop_ok)+

lemma push_effects [effects]:
  "pure_ok opAddress 0 1" "pure_ok opOrigin 0 1" "pure_ok opCaller 0 1" "pure_ok opCallValue 0 1"
  "pure_ok opCallDataSize 0 1" "pure_ok opReturnDataSize 0 1" "pure_ok opCodeSize 0 1" "pure_ok opGasprice 0 1"
  "pure_ok opBlockhash 1 1" "pure_ok opCoinbase 0 1" "pure_ok opTimestamp 0 1" "pure_ok opNumber 0 1"
  "pure_ok opGasLimit 0 1" "pure_ok opPc 0 1" "pure_ok opMsize 0 1" "pure_ok opGas 0 1"
  "pure_ok opChainID 0 1" "pure_ok opBaseFee 0 1" "pure_ok opPush0 0 1"
  by (rule pure_okI, auto simp: opAddress_def opOrigin_def opCaller_def opCallValue_def opCallDataSize_def
      opReturnDataSize_def opCodeSize_def opGasprice_def opBlockhash_def opCoinbase_def opTimestamp_def opNumber_def
      opGasLimit_def opPc_def opMsize_def opGas_def opChainID_def opBaseFee_def opPush0_def
      push_value_def push_ptr_def unop_def op_shapes split: Option.bind_splits)+

lemma state_effects [effects]:
  "pure_ok opBalance 1 1" "pure_ok opExtCodeSize 1 1" "pure_ok opExtCodeHash 1 1" "pure_ok opSload 1 1"
  "pure_ok opSstore 2 0" "pure_ok opSelfBalance 0 1" "pure_ok opSelfdestruct 1 0"
  by (rule pure_okI, auto simp: opBalance_def opExtCodeSize_def opExtCodeHash_def opSload_def opSstore_def
      opSelfBalance_def opSelfdestruct_def push_value_def op_shapes Let_def
      split: Option.bind_splits prod.splits if_splits)+

lemma copy_to_memory_frame:
  assumes "copy_to_memory pc vm sc st off n d = Some ((r, err), pc', vm', sc')"
  shows "same_frame vm sc vm' sc' \<and> err = None \<and> sc_Stack sc' = st"
  using assms by (auto simp: copy_to_memory_def same_frame_def dest: mem_Set_frame split: Option.bind_splits)

lemma copy_effects [effects]:
  "pure_ok opCallDataCopy 3 0" "pure_ok opReturnDataCopy 3 0" "pure_ok opCodeCopy 3 0" "pure_ok opExtCodeCopy 4 0"
  by (rule pure_okI, auto simp: opCallDataCopy_def opReturnDataCopy_def opCodeCopy_def opExtCodeCopy_def
      st_Pop_Some Let_def same_frame_def dest!: copy_to_memory_frame split: Option.bind_splits prod.splits if_splits)+

lemma memory_effects [effects]:
  "pure_ok opKeccak256 2 1" "pure_ok opCallDataLoad 1 1" "pure_ok opDifficulty 0 1" "pure_ok opPop 1 0"
  "pure_ok opMload 1 1" "pure_ok opMstore 2 0" "pure_ok opMstore8 2 0" "pure_ok opJumpdest 0 0"
  by (rule pure_okI, auto simp: opKeccak256_def opCallDataLoad_def opDifficulty_def opPop_def opMload_def opMstore_def
      opMstore8_def opJumpdest_def push_value_def op_shapes Let_def dest!: mem_Set32_frame
      split: Option.bind_splits prod.splits if_splits option.splits)+

lemma validJumpdest_frame:
  assumes "validJumpdest c jd dest = Some (r, c', jd')"
  shows "ct_Gas c' = ct_Gas c \<and> ct_Code c' = ct_Code c"
  using assms by (auto simp: validJumpdest_def isCode_def Let_def split: Option.bind_splits prod.splits if_splits)

lemma jump_to_frame:
  assumes "jump_to pc vm sc pos = Some ((r, err), pc', vm', sc')"
  shows "same_frame vm sc vm' sc' \<and> sc_Stack sc' = sc_Stack sc"
  using assms by (auto simp: jump_to_def same_frame_def Let_def dest: validJumpdest_frame
      split: Option.bind_splits prod.splits if_splits)

lemma jump_effects [effects]: "pure_ok opJump 1 0" "pure_ok opJumpi 2 0"
  by (rule pure_okI, auto simp: opJump_def opJumpi_def st_Pop_Some same_frame_def dest!: jump_to_frame
      split: Option.bind_splits if_splits)+

lemma pop_topics_length: "pop_topics n st = Some (ts, st') \<Longrightarrow> length st = length st' + n \<and> length ts = n"
  by (induction n arbitrary: st ts) (auto simp: st_Pop_Some split: Option.bind_splits)

lemma makeLog_ok [effects]: "pure_ok (makeLog n) (n + 2) 0"
  by (rule pure_okI) (auto simp: makeLog_def op_shapes dest!: pop_topics_length split: Option.bind_splits if_splits)

lemma makePush_ok [effects]: "pure_ok (makePush n k) 0 1" "pure_ok opPush1 0 1"
  by (rule pure_okI, auto simp: makePush_def opPush1_def push_value_def op_shapes Let_def split: Option.bind_splits)+

lemma makeDup_ok [effects]: "pure_ok (makeDup n) n (n + 1)"
  by (rule pure_okI) (auto simp: makeDup_def st_Dup_def op_shapes split: Option.bind_splits if_splits)

lemma makeSwap_ok [effects]: "pure_ok (makeSwap n) (n + 1) (n + 1)"
  by (rule pure_okI) (auto simp: makeSwap_def st_Swap_def op_shapes split: Option.bind_splits if_splits)

lemma halting_effects [effects]:
  "pure_ok opReturn 2 0" "pure_ok opRevert 2 0" "pure_ok opUndefined 0 0" "pure_ok opStop 0 0"
  by (rule pure_okI, auto simp: opReturn_def opRevert_def opUndefined_def opStop_def op_shapes
      split: Option.bind_splits)+

lemma halting: "halts opReturn" "halts opRevert" "halts opUndefined" "halts opStop" "halts opSelfdestruct"
  by (auto simp: halts_def opReturn_def opRevert_def opUndefined_def opStop_def opSelfdestruct_def Let_def
      split: Option.bind_splits prod.splits if_splits)

end
