(* ===== verification/Evm_Meter.thy ===== *)
theory Evm_Meter
  imports Evm_Effects
begin

text \<open>
  What the dynamic prices guarantee. The fee recorded in the memory is always the quadratic fee of
  its size in words, so the price of an expansion is the exact difference and never wraps; every
  price covers the expansion it pays for and, for a call, the gas handed to the callee.
\<close>

section \<open>Memory fees\<close>

definition mem_fee :: "nat \<Rightarrow> nat" where
  "mem_fee w = 3 * w + w * w div 512"

definition mem_ok :: "Memory \<Rightarrow> bool" where
  "mem_ok m \<longleftrightarrow> (\<exists>w. mem_Len m = 32 * w \<and> w < 2 ^ 32 \<and> unat (m_lastGasCost m) = mem_fee w)"

lemma mem_fee_mono: "w \<le> w' \<Longrightarrow> mem_fee w \<le> mem_fee w'"
  by (auto simp: mem_fee_def intro!: add_mono div_le_mono mult_le_mono)

lemma mem_fee_bound: "w < 2 ^ 32 \<Longrightarrow> mem_fee w < 2 ^ 56"
proof -
  assume "w < 2 ^ 32"
  then have w: "w \<le> 2 ^ 32 - 1" by simp
  have "mem_fee w \<le> mem_fee (2 ^ 32 - 1)" by (rule mem_fee_mono [OF w])
  also have "\<dots> < 2 ^ 56" by (simp add: mem_fee_def)
  finally show ?thesis .
qed

lemma mem_ok_Reset: "mem_ok (mem_Reset NewMemory)"
  by (auto simp: mem_ok_def mem_Reset_def mem_fee_def intro!: exI [of _ 0])

text \<open>The fee as the code computes it, in 64-bit arithmetic.\<close>

lemma fee_word:
  assumes "unat (w :: u64) < 2 ^ 32"
  shows "unat (w * MemoryGas + w * w div QuadCoeffDiv) = mem_fee (unat w)"
proof -
  have "unat w * unat w < 2 ^ 32 * 2 ^ 32" by (intro mult_strict_mono) (use assms in auto)
  then have sq: "unat (w * w) = unat w * unat w" by (simp add: unat_word_ariths)
  then have q: "unat (w * w div 512) = unat w * unat w div 512" by (simp add: unat_div)
  have t: "unat (w * 3) = 3 * unat w" using assms by (simp add: unat_word_ariths)
  have "mem_fee (unat w) < 2 ^ 64" using mem_fee_bound [OF assms] by simp
  then show ?thesis using q t by (simp add: unat_word_ariths mem_fee_def)
qed

lemma ToWordSize_small:
  assumes "n \<le> 0x1FFFFFFFE0"
  shows "unat (ToWordSize n) < 2 ^ 32" "unat (ToWordSize n * 32) = unat (ToWordSize n) * 32"
proof -
  have "unat n \<le> 0x1FFFFFFFE0" using assms by (simp add: word_le_nat_alt)
  then have l: "unat (ToWordSize n) * 32 < 0x1FFFFFFFE0 + 32"
    using ToWordSize_ceil [of n] by linarith
  then show "unat (ToWordSize n) < 2 ^ 32" by simp
  show "unat (ToWordSize n * 32) = unat (ToWordSize n) * 32" using l by (simp add: unat_word_ariths)
qed

text \<open>
  The price of growing to \<open>n\<close> bytes is the difference of the two fees; the fee recorded afterwards is
  that of the grown memory.
\<close>

lemma memoryGasCost_exact:
  assumes ok: "mem_ok mem" and c: "memoryGasCost mem n = ((g, None), mem')"
  shows "\<exists>w w'. mem_Len mem = 32 * w \<and> w \<le> w' \<and> w' < 2 ^ 32 \<and> w' = max w (unat (ToWordSize n)) \<and>
    unat g = mem_fee w' - mem_fee w \<and> m_store mem' = m_store mem \<and> unat (m_lastGasCost mem') = mem_fee w'"
proof -
  from ok obtain w where w: "mem_Len mem = 32 * w" "w < 2 ^ 32" "unat (m_lastGasCost mem) = mem_fee w"
    by (auto simp: mem_ok_def)
  show ?thesis
  proof (cases "n = 0")
    case True
    then show ?thesis using c w by (auto simp: memoryGasCost_def ToWordSize_def intro!: exI [of _ w])
  next
    case False
    then have nl: "\<not> 0x1FFFFFFFE0 < n" using c by (auto simp: memoryGasCost_def split: if_splits)
    then have le: "n \<le> 0x1FFFFFFFE0" by simp
    note ws = ToWordSize_small [OF le]
    have len: "unat (of_nat (mem_Len mem) :: u64) = 32 * w"
      using w(1,2) by (simp only: unat_of_nat) simp
    have gt: "of_nat (mem_Len mem) < ToWordSize n * 32 \<longleftrightarrow> w < unat (ToWordSize n)"
      using ws(2) len by (simp add: word_less_nat_alt)
    show ?thesis
    proof (cases "w < unat (ToWordSize n)")
      case True
      then have g: "g = (ToWordSize n * MemoryGas + ToWordSize n * ToWordSize n div QuadCoeffDiv) - m_lastGasCost mem"
          "mem' = mem\<lparr>m_lastGasCost := ToWordSize n * MemoryGas + ToWordSize n * ToWordSize n div QuadCoeffDiv\<rparr>"
        using c False nl gt by (auto simp: memoryGasCost_def Let_def)
      have "mem_fee w \<le> mem_fee (unat (ToWordSize n))" using True by (intro mem_fee_mono) simp
      then have "unat g = mem_fee (unat (ToWordSize n)) - mem_fee w"
        unfolding g using fee_word [OF ws(1)] w(3) by (subst unat_sub) (simp_all add: word_le_nat_alt)
      then show ?thesis using True w g(2) fee_word [OF ws(1)] ws(1)
        by (auto simp: max_def intro!: exI [of _ w] exI [of _ "unat (ToWordSize n)"])
    next
      case False2: False
      then have "g = 0" "mem' = mem" using c False nl gt by (auto simp: memoryGasCost_def Let_def)
      then show ?thesis using False2 w by (auto simp: max_def intro!: exI [of _ w])
    qed
  qed
qed

lemma memoryGasCost_bound:
  assumes "mem_ok mem" "memoryGasCost mem n = ((g, None), mem')"
  shows "unat g < 2 ^ 56"
proof -
  obtain w w' where "w' < 2 ^ 32" "unat g = mem_fee w' - mem_fee w"
    using memoryGasCost_exact [OF assms] by blast
  then show ?thesis using mem_fee_bound [of w'] by linarith
qed

text \<open>Resizing to a multiple of the word size after the fee was recorded restores the invariant.\<close>

lemma mem_ok_grow:
  assumes ok: "mem_ok mem" and c: "memoryGasCost mem n = ((g, None), mem')" and n: "unat n = 32 * k"
  shows "mem_ok (if n > 0 then mem_Resize mem' n else mem')"
proof -
  obtain w w' where w: "mem_Len mem = 32 * w" "w' < 2 ^ 32" "w' = max w (unat (ToWordSize n))"
      "m_store mem' = m_store mem" "unat (m_lastGasCost mem') = mem_fee w'"
    using memoryGasCost_exact [OF ok c] by blast
  have k: "unat (ToWordSize n) = k" using ToWordSize_ceil [of n] n by linarith
  have "k < 2 ^ 32" using w(2,3) k by (simp add: max_def split: if_splits)
  then have s: "unat n < 2 ^ 63" using n by simp
  have "mem_Len (if n > 0 then mem_Resize mem' n else mem') = 32 * w'"
  proof (cases "n > 0")
    case True
    then show ?thesis using mem_Resize_len [OF s, of mem'] w n k by (simp add: max_def)
  next
    case False
    then have "n = 0" by (simp add: word_gt_0)
    then show ?thesis using w n k by (simp add: max_def)
  qed
  then show ?thesis using w by (auto simp: mem_ok_def intro!: exI [of _ w'])
qed

section \<open>Prices\<close>

text \<open>A gas function changes only the state database and \<^verbatim>\<open>callGasTemp\<close> of the machine.\<close>

definition vm_frame :: "EVM \<Rightarrow> EVM \<Rightarrow> bool" where
  "vm_frame vm vm' \<longleftrightarrow> evm_abort vm' = evm_abort vm \<and> evm_readOnly vm' = evm_readOnly vm \<and>
     evm_returnData vm' = evm_returnData vm \<and> evm_depth vm' = evm_depth vm \<and> evm_jumpdests vm' = evm_jumpdests vm"

text \<open>
  \<open>priced True g\<close>: a price \<open>g\<close> returns without error leaves the contract alone and covers the memory
  expansion it was asked for; \<open>priced False g\<close> says so for instructions that do not use memory.
\<close>

definition priced :: "bool \<Rightarrow> gasFunc \<Rightarrow> bool" where
  "priced uses g \<longleftrightarrow> (\<forall>env vm c st mem n cost err vm' c' mem'.
     mem_ok mem \<longrightarrow> uses \<or> n = 0 \<longrightarrow> g env vm c st mem n = Some ((cost, err), vm', c', mem') \<longrightarrow>
     ct_Gas c' \<le> ct_Gas c \<and> vm_frame vm vm' \<and>
     (err = None \<longrightarrow> c' = c \<and> (\<exists>mg. memoryGasCost mem n = ((mg, None), mem') \<and> unat mg \<le> unat cost)))"

definition costly :: "gasFunc \<Rightarrow> bool" where
  "costly g \<longleftrightarrow> (\<forall>env vm c st mem n cost vm' c' mem'.
     g env vm c st mem n = Some ((cost, None), vm', c', mem') \<longrightarrow> 0 < unat cost)"

lemma pricedI:
  assumes "\<And>env vm c st mem n cost err vm' c' mem'. mem_ok mem \<Longrightarrow> uses \<or> n = 0 \<Longrightarrow>
    g env vm c st mem n = Some ((cost, err), vm', c', mem') \<Longrightarrow>
    ct_Gas c' \<le> ct_Gas c \<and> vm_frame vm vm' \<and>
    (err = None \<longrightarrow> c' = c \<and> (\<exists>mg. memoryGasCost mem n = ((mg, None), mem') \<and> unat mg \<le> unat cost))"
  shows "priced uses g"
  using assms unfolding priced_def by blast

lemma pricedD:
  assumes "priced uses g" "mem_ok mem" "uses \<or> n = 0" "g env vm c st mem n = Some ((cost, err), vm', c', mem')"
  shows "ct_Gas c' \<le> ct_Gas c" "vm_frame vm vm'"
    "err = None \<Longrightarrow> c' = c \<and> (\<exists>mg. memoryGasCost mem n = ((mg, None), mem') \<and> unat mg \<le> unat cost)"
  using assms unfolding priced_def by blast+

lemma vm_frame_simps [simp]: "vm_frame vm vm" "vm_frame vm (set_ibs vm s)" "vm_frame vm (vm\<lparr>evm_callGasTemp := t\<rparr>)"
    "vm_frame vm ((set_ibs vm s)\<lparr>evm_callGasTemp := t\<rparr>)"
  by (simp_all add: vm_frame_def)

lemma vm_frame_trans: "vm_frame vm vm' \<Longrightarrow> vm_frame vm' vm'' \<Longrightarrow> vm_frame vm vm''"
  by (simp add: vm_frame_def)

lemma gas_sumD:
  assumes "gas_sum a b vm c mem = Some ((cost, err), vm', c', mem')"
  shows "vm' = vm \<and> c' = c \<and> mem' = mem \<and> (err = None \<longrightarrow> unat cost = unat a + unat b)"
  using assms SafeAdd_exact [of a b] by (auto simp: gas_sum_def split: prod.splits if_splits)

lemma memoryGasCost_0 [simp]: "memoryGasCost mem 0 = ((0, None), mem)"
  by (simp add: memoryGasCost_def)

lemmas price_splits = prod.splits option.splits if_splits Option.bind_splits

lemma priced_memory:
  "priced True (memoryCopierGas k)" "priced True gasKeccak256" "priced True gasCreate2"
  "priced True gasCreateEip3860" "priced True gasCreate2Eip3860" "priced True pureMemoryGascost"
  by (rule pricedI, auto simp: memoryCopierGas_def gasKeccak256_def gasCreate2_def gasCreateEip3860_def
      gasCreate2Eip3860_def pureMemoryGascost_def Let_def dest!: gas_sumD split: price_splits)+

lemma priced_aliases:
  "priced True gasCallDataCopy" "priced True gasCodeCopy" "priced True gasExtCodeCopy" "priced True gasReturnDataCopy"
  "priced True gasReturn" "priced True gasRevert" "priced True gasMLoad" "priced True gasMStore8"
  "priced True gasMStore" "priced True gasCreate"
  by (simp_all add: gasCallDataCopy_def gasCodeCopy_def gasExtCodeCopy_def gasReturnDataCopy_def gasReturn_def
      gasRevert_def gasMLoad_def gasMStore8_def gasMStore_def gasCreate_def priced_memory)

lemma makeGasLog_sum:
  assumes "makeGasLog n env vm c st mem k = Some ((cost, err), vm', c', mem')"
  shows "vm' = vm \<and> c' = c \<and> (err = None \<longrightarrow>
    (\<exists>mg. memoryGasCost mem k = ((mg, None), mem') \<and> unat mg + 375 \<le> unat cost))"
  using assms
  by (auto simp: makeGasLog_def Let_def dest!: gas_sumD SafeAdd_exact split: price_splits)

lemma priced_log: "priced True (makeGasLog n)"
  by (rule pricedI) (auto dest!: makeGasLog_sum)

lemma costly_log: "costly (makeGasLog n)"
  by (fastforce simp: costly_def dest!: makeGasLog_sum)

lemma priced_exp: "priced False gasExpFrontier" "priced False gasExpEIP160"
  by (rule pricedI, auto simp: gasExpFrontier_def gasExpEIP160_def Let_def dest!: gas_sumD split: price_splits)+

lemma costly_exp: "costly gasExpFrontier" "costly gasExpEIP160"
  by (auto simp: costly_def gasExpFrontier_def gasExpEIP160_def Let_def dest!: gas_sumD split: price_splits)

lemma priced_sstore:
  "priced False gasSStore" "priced False gasSStoreEIP2200" "priced False (makeGasSStoreFunc r)"
  by (rule pricedI, auto simp: gasSStore_def gasSStoreEIP2200_def makeGasSStoreFunc_def Let_def split: price_splits)+

lemma costly_sstore: "costly gasSStore" "costly gasSStoreEIP2200" "costly (makeGasSStoreFunc r)"
  by (auto simp: costly_def gasSStore_def gasSStoreEIP2200_def makeGasSStoreFunc_def Let_def split: price_splits)

lemma priced_access:
  "priced False gasSLoadEIP2929" "priced False gasEip2929AccountCheck" "priced False gasSelfdestruct"
  "priced False (makeSelfdestructGasFn b)"
  by (rule pricedI, auto simp: gasSLoadEIP2929_def gasEip2929AccountCheck_def gasSelfdestruct_def
      makeSelfdestructGasFn_def Let_def split: price_splits)+

lemma costly_sload: "costly gasSLoadEIP2929"
  by (auto simp: costly_def gasSLoadEIP2929_def Let_def split: price_splits)

lemma priced_extcodecopy: "priced True gasExtCodeCopyEIP2929"
proof (rule pricedI)
  fix env vm c st mem n cost err vm' c' mem'
  assume ok: "mem_ok mem" and g: "gasExtCodeCopyEIP2929 env vm c st mem n = Some ((cost, err), vm', c', mem')"
  obtain gas err1 vm1 c1 mem1 where e: "gasExtCodeCopy env vm c st mem n = Some ((gas, err1), vm1, c1, mem1)"
    using g by (auto simp: gasExtCodeCopyEIP2929_def split: price_splits)
  have p: "ct_Gas c1 \<le> ct_Gas c \<and> vm_frame vm vm1 \<and> (err1 = None \<longrightarrow> c1 = c \<and>
      (\<exists>mg. memoryGasCost mem n = ((mg, None), mem1) \<and> unat mg \<le> unat gas))"
    using priced_aliases(3) ok e unfolding priced_def by blast
  show "ct_Gas c' \<le> ct_Gas c \<and> vm_frame vm vm' \<and> (err = None \<longrightarrow> c' = c \<and>
      (\<exists>mg. memoryGasCost mem n = ((mg, None), mem') \<and> unat mg \<le> unat cost))"
    using g e p vm_frame_trans [of vm vm1]
    by (auto simp: gasExtCodeCopyEIP2929_def Let_def dest!: gas_sumD split: price_splits)
qed

section \<open>Prices of calls\<close>

text \<open>
  A call without error costs its base price plus the gas handed on. The base price covers the
  expansion and, when value moves, more than the stipend. From the gas repricing on (EIP 150) at
  most 63/64 of a 64-bit number is handed on, which keeps the cold-access surcharge, added
  without a check, from wrapping.
\<close>

definition call_priced :: "bool \<Rightarrow> Env \<Rightarrow> gasFunc \<Rightarrow> bool" where
  "call_priced val env g \<longleftrightarrow> (\<forall>vm c st mem n cost err vm' c' mem'.
     mem_ok mem \<longrightarrow> g env vm c st mem n = Some ((cost, err), vm', c', mem') \<longrightarrow>
     ct_Gas c' \<le> ct_Gas c \<and> vm_frame vm vm' \<and>
     (err = None \<longrightarrow> c' = c \<and> (\<exists>mg. memoryGasCost mem n = ((mg, None), mem') \<and> unat mg \<le> unat cost) \<and>
        unat (evm_callGasTemp vm') + (if val \<and> st ! 2 \<noteq> 0 then 9000 else 0) \<le> unat cost))"

definition call_post ::
  "bool \<Rightarrow> Env \<Rightarrow> EVM \<Rightarrow> Contract \<Rightarrow> stack \<Rightarrow> Memory \<Rightarrow> u64 \<Rightarrow> u64 \<Rightarrow> evm_error option \<Rightarrow> EVM \<Rightarrow> Contract \<Rightarrow> Memory \<Rightarrow> bool" where
  "call_post val env vm c st mem n cost err vm' c' mem' \<longleftrightarrow>
     c' = c \<and> vm_frame vm vm' \<and>
     (err = None \<longrightarrow> (\<exists>mg base. memoryGasCost mem n = ((mg, None), mem') \<and> unat mg \<le> base \<and>
        base < 2 ^ 56 + 34001 \<and> (val \<and> st ! 2 \<noteq> 0 \<longrightarrow> 9000 \<le> base) \<and>
        unat cost = base + unat (evm_callGasTemp vm') \<and>
        (rl_IsTangerineWhistle (env_rules env) \<longrightarrow> unat (evm_callGasTemp vm') \<le> 63 * 2 ^ 58)))"

definition call_base :: "bool \<Rightarrow> Env \<Rightarrow> gasFunc \<Rightarrow> bool" where
  "call_base val env g \<longleftrightarrow> (\<forall>vm c st mem n cost err vm' c' mem'.
     mem_ok mem \<longrightarrow> g env vm c st mem n = Some ((cost, err), vm', c', mem') \<longrightarrow>
     call_post val env vm c st mem n cost err vm' c' mem')"

lemma all_but_64th: "unat (a - a div 64 :: u64) \<le> 63 * 2 ^ 58"
proof -
  have d: "unat (a div 64) = unat a div 64" by (simp add: unat_div)
  then have "a div 64 \<le> a" by (simp add: word_le_nat_alt)
  then have "unat (a - a div 64) = unat a - unat a div 64" using d by (simp add: unat_sub)
  then show ?thesis using unat_u64_less [of a] by (simp add: div_less_iff_less_mult)
qed

lemma callGas_bound:
  assumes "callGas True a b cost = (t, None)"
  shows "unat t \<le> 63 * 2 ^ 58"
  using assms all_but_64th [of "a - b"]
  by (auto simp: callGas_def Let_def not_less word_le_nat_alt split: if_splits)

lemma call_gas_endD:
  assumes "call_gas_end env vm c st mem gas = Some ((cost, err), vm', c', mem')"
  shows "c' = c \<and> mem' = mem \<and> vm_frame vm vm' \<and> (err = None \<longrightarrow>
    unat cost = unat gas + unat (evm_callGasTemp vm') \<and>
    (rl_IsTangerineWhistle (env_rules env) \<longrightarrow> unat (evm_callGasTemp vm') \<le> 63 * 2 ^ 58))"
  using assms
  by (auto simp: call_gas_end_def Let_def dest!: gas_sumD intro: callGas_bound [simplified] split: price_splits)

lemma call_post_err: "vm_frame vm vm' \<Longrightarrow> call_post val env vm c st mem n cost (Some e) vm' c mem'"
  by (simp add: call_post_def)

lemma call_post_end:
  assumes "call_gas_end env vm1 c st mem1 gas = Some ((cost, err), vm', c', mem')"
    "memoryGasCost mem n = ((mg, None), mem1)" "mem_ok mem" "unat gas = extra + unat mg" "extra \<le> 34000"
    "val \<and> st ! 2 \<noteq> 0 \<longrightarrow> 9000 \<le> extra" "vm_frame vm vm1"
  shows "call_post val env vm c st mem n cost err vm' c' mem'"
  unfolding call_post_def
  using call_gas_endD [OF assms(1)] memoryGasCost_bound [OF assms(3,2)] assms vm_frame_trans [of vm vm1 vm']
  by (auto intro!: exI [of _ mg] exI [of _ "unat gas"])

text \<open>The part the four prices share: the fixed price, the expansion, the gas handed on.\<close>

definition call_tail :: "Env \<Rightarrow> EVM \<Rightarrow> Contract \<Rightarrow> stack \<Rightarrow> u64 \<Rightarrow> (u64 \<times> evm_error option) \<times> Memory \<Rightarrow> gas_result" where
  "call_tail env vm c st ex r =
     (case r of ((_, Some err), mem) \<Rightarrow> gas_err err vm c mem
      | ((mg, None), mem) \<Rightarrow>
          (let (gas, overflow) = SafeAdd ex mg in
           if overflow then gas_err ErrGasUintOverflow vm c mem else call_gas_end env vm c st mem gas))"

lemma call_post_tail:
  assumes g: "call_tail env vm1 c st ex (memoryGasCost mem n) = Some ((cost, err), vm', c', mem')"
    and ok: "mem_ok mem" and ex: "unat ex \<le> 34000" "val \<and> st ! 2 \<noteq> 0 \<longrightarrow> 9000 \<le> unat ex"
    and f: "vm_frame vm vm1"
  shows "call_post val env vm c st mem n cost err vm' c' mem'"
proof -
  obtain mg e mem1 where m: "memoryGasCost mem n = ((mg, e), mem1)" by (metis prod.collapse)
  obtain gas ov where sa: "SafeAdd ex mg = (gas, ov)" by fastforce
  show ?thesis
  proof (cases "e = None \<and> \<not> ov")
    case True
    then have c: "call_gas_end env vm1 c st mem1 gas = Some ((cost, err), vm', c', mem')"
      using g m sa by (simp add: call_tail_def)
    show ?thesis
      using call_post_end [OF c _ ok _ ex f] m sa True SafeAdd_exact [of ex mg gas] by simp
  next
    case False
    then show ?thesis using g m sa f
      by (auto simp: call_tail_def call_post_err split: option.splits if_splits)
  qed
qed

lemma SafeAdd_0: "SafeAdd 0 x = (x, False)"
  using unat_u64_less [of x] by (simp add: SafeAdd_def)

lemma call_base_plain: "call_base False env gasDelegateCall" "call_base False env gasStaticCall"
proof -
  have "gasDelegateCall env vm c st mem n = call_tail env vm c st 0 (memoryGasCost mem n)"
    "gasStaticCall env vm c st mem n = call_tail env vm c st 0 (memoryGasCost mem n)" for vm c st mem n
    by (auto simp: gasDelegateCall_def gasStaticCall_def call_tail_def SafeAdd_0
        split: prod.splits option.splits)
  then show "call_base False env gasDelegateCall" "call_base False env gasStaticCall"
    using call_post_tail [where ex = 0 and val = False and env = env] by (auto simp: call_base_def)
qed

lemma call_base_code: "call_base True env gasCallCode"
  unfolding call_base_def
proof (intro allI impI)
  fix vm c st mem n cost err vm' c' mem'
  assume ok: "mem_ok mem" and g: "gasCallCode env vm c st mem n = Some ((cost, err), vm', c', mem')"
  let ?ex = "if st ! 2 \<noteq> 0 then 9000 else 0 :: u64"
  show "call_post True env vm c st mem n cost err vm' c' mem'"
  proof (cases "call_tail env vm c st ?ex (memoryGasCost mem n) = Some ((cost, err), vm', c', mem')")
    case True
    then show ?thesis by (rule call_post_tail [OF _ ok]) auto
  next
    case False
    then show ?thesis using g
      by (auto simp: gasCallCode_def call_tail_def st_Back_def split: prod.splits option.splits if_splits)
  qed
qed

text \<open>The fixed part of the price of \<^verbatim>\<open>CALL\<close>, with the account look-up it makes.\<close>

definition call_fixed :: "Env \<Rightarrow> EVM \<Rightarrow> u256 \<Rightarrow> u256 \<Rightarrow> u64 \<times> IntraBlockState" where
  "call_fixed env vm value a =
     (let (gas, s) = (if rl_IsSpuriousDragon (env_rules env) then
           (if value \<noteq> 0 then
              (let (e, s) = Empty (evm_ibs vm) (Bytes20 a) in (if e then CallNewAccountGas else 0, s))
            else (0, evm_ibs vm))
         else (let (e, s) = Exist (evm_ibs vm) (Bytes20 a) in (if \<not> e then CallNewAccountGas else 0, s)))
      in (if value \<noteq> 0 then gas + CallValueTransferGas else gas, s))"

lemma call_fixed_range:
  assumes "call_fixed env vm value a = (ex, s)"
  shows "unat ex \<le> 34000 \<and> (value \<noteq> 0 \<longrightarrow> 9000 \<le> unat ex)"
  using assms by (auto simp: call_fixed_def Let_def split: prod.splits if_splits)

lemma gasCall_tail:
  "gasCall env vm c st mem n = do {
     value \<leftarrow> st_Back st 2;
     a \<leftarrow> st_Back st 1;
     let (ex, s) = call_fixed env vm value a;
     call_tail env (set_ibs vm s) c st ex (memoryGasCost mem n) }"
  unfolding gasCall_def call_fixed_def call_tail_def Let_def
  by (cases "st_Back st 2"; cases "st_Back st 1") (auto split: prod.splits option.splits)

lemma call_base_call: "call_base True env gasCall"
  unfolding call_base_def
proof (intro allI impI)
  fix vm c st mem n cost err vm' c' mem'
  assume ok: "mem_ok mem" and g: "gasCall env vm c st mem n = Some ((cost, err), vm', c', mem')"
  obtain a where b: "st_Back st 2 = Some (st ! 2)" "st_Back st 1 = Some a"
    using g by (auto simp: gasCall_tail st_Back_def split: Option.bind_splits if_splits)
  obtain ex s where e: "call_fixed env vm (st ! 2) a = (ex, s)" by fastforce
  have "call_tail env (set_ibs vm s) c st ex (memoryGasCost mem n) = Some ((cost, err), vm', c', mem')"
    using g b e by (simp add: gasCall_tail)
  then show "call_post True env vm c st mem n cost err vm' c' mem'"
    by (rule call_post_tail [OF _ ok]) (use call_fixed_range [OF e] in auto)
qed

lemma call_base_priced:
  assumes "call_base val env g" shows "call_priced val env g"
  unfolding call_priced_def
proof (intro allI impI)
  fix vm c st mem n cost err vm' c' mem'
  assume "mem_ok mem" "g env vm c st mem n = Some ((cost, err), vm', c', mem')"
  then have "call_post val env vm c st mem n cost err vm' c' mem'" using assms unfolding call_base_def by blast
  then show "ct_Gas c' \<le> ct_Gas c \<and> vm_frame vm vm' \<and>
     (err = None \<longrightarrow> c' = c \<and> (\<exists>mg. memoryGasCost mem n = ((mg, None), mem') \<and> unat mg \<le> unat cost) \<and>
        unat (evm_callGasTemp vm') + (if val \<and> st ! 2 \<noteq> 0 then 9000 else 0) \<le> unat cost)"
    by (auto simp: call_post_def)
qed

text \<open>Cold access: the surcharge is taken from the contract first and given back with the price.\<close>

lemma call_variant_priced:
  assumes b: "call_base val env g" and tw: "rl_IsTangerineWhistle (env_rules env)"
  shows "call_priced val env (makeCallVariantGasCallEIP2929 g)"
  unfolding call_priced_def
proof (intro allI impI)
  fix vm c st mem n cost err vm' c' mem'
  assume ok: "mem_ok mem" and
    v: "makeCallVariantGasCallEIP2929 g env vm c st mem n = Some ((cost, err), vm', c', mem')"
  let ?goal = "ct_Gas c' \<le> ct_Gas c \<and> vm_frame vm vm' \<and>
     (err = None \<longrightarrow> c' = c \<and> (\<exists>mg. memoryGasCost mem n = ((mg, None), mem') \<and> unat mg \<le> unat cost) \<and>
        unat (evm_callGasTemp vm') + (if val \<and> st ! 2 \<noteq> 0 then 9000 else 0) \<le> unat cost)"
  obtain a where a: "st_Back st 1 = Some a" using v
    by (auto simp: makeCallVariantGasCallEIP2929_def split: Option.bind_splits)
  let ?vm1 = "set_ibs vm (AddAddressToAccessList (evm_ibs vm) (Bytes20 a))"
  let ?c1 = "c\<lparr>ct_Gas := ct_Gas c - 2500\<rparr>"
  consider (warm) "g env vm c st mem n = Some ((cost, err), vm', c', mem')"
    | (unpaid) "err = Some ErrOutOfGas" "vm' = ?vm1" "c' = c"
    | (cold) gas err1 vm2 c2 where "\<not> ct_Gas c < 2500" "g env ?vm1 ?c1 st mem n = Some ((gas, err1), vm2, c2, mem')"
        "vm' = vm2" "err = err1" "if err1 = None then cost = gas + 2500 \<and> c' = c2\<lparr>ct_Gas := ct_Gas c2 + 2500\<rparr> else c' = c2"
    using v a by (auto simp: makeCallVariantGasCallEIP2929_def UseGas_def Let_def
        split: if_splits Option.bind_splits option.splits)
  then show ?goal
  proof cases
    case warm
    then show ?thesis using call_base_priced [OF b] ok unfolding call_priced_def by blast
  next
    case unpaid
    then show ?thesis by simp
  next
    case cold
    have p: "call_post val env ?vm1 ?c1 st mem n gas err1 vm2 c2 mem'"
      using b ok cold(2) unfolding call_base_def by blast
    have f: "vm_frame vm vm'" using p cold(3) vm_frame_trans [of vm ?vm1 vm2] by (simp add: call_post_def)
    show ?thesis
    proof (cases err1)
      case None
      have c2: "c2 = ?c1" using p by (simp add: call_post_def)
      obtain mg base where m: "memoryGasCost mem n = ((mg, None), mem')" "unat mg \<le> base" "base < 2 ^ 56 + 34001"
          "val \<and> st ! 2 \<noteq> 0 \<longrightarrow> 9000 \<le> base" "unat gas = base + unat (evm_callGasTemp vm2)"
          "unat (evm_callGasTemp vm2) \<le> 63 * 2 ^ 58"
        using p None tw unfolding call_post_def by blast
      have "unat (gas + 2500) = unat gas + 2500" using m by (simp add: unat_word_ariths)
      then show ?thesis using cold None c2 f m by (auto simp: unat_word_ariths)
    next
      case (Some e)
      have "ct_Gas c - 2500 \<le> ct_Gas c" using cold(1) by (simp add: word_le_nat_alt unat_sub not_less)
      then show ?thesis using cold Some p f by (simp add: call_post_def)
    qed
  qed
qed

lemma call_pricedD:
  assumes "call_priced val env g" "mem_ok mem" "g env vm c st mem n = Some ((cost, err), vm', c', mem')"
  shows "ct_Gas c' \<le> ct_Gas c" "vm_frame vm vm'"
    "err = None \<Longrightarrow> c' = c \<and> (\<exists>mg. memoryGasCost mem n = ((mg, None), mem')) \<and>
      unat (evm_callGasTemp vm') + (if val \<and> st ! 2 \<noteq> 0 then 9000 else 0) \<le> unat cost"
  using assms unfolding call_priced_def by blast+

end
