(* ===== verification/Evm_Fuel.thy ===== *)
theory Evm_Fuel
  imports Evm_Meter
begin

text \<open>
  Gas bounds execution. Every round that goes on spends gas, a callee gets strictly less gas than its
  caller had, and no frame ends with more gas than it started with; so a run whose fuel exceeds its
  gas never uses the fuel up.
\<close>

section \<open>Frames that respect their gas\<close>

definition good :: "nat \<Rightarrow> run_fn \<Rightarrow> bool" where
  "good n run \<longleftrightarrow> (\<forall>c input ro vm.
     (unat (ct_Gas c) < n \<longrightarrow> run c input ro vm \<noteq> NoFuel) \<and>
     (\<forall>r c' vm'. run c input ro vm = Ret (r, c', vm') \<longrightarrow> unat (ct_Gas c') \<le> unat (ct_Gas c)))"

lemma goodD:
  assumes "good n run"
  shows "run c input ro vm = Ret (r, c', vm') \<Longrightarrow> unat (ct_Gas c') \<le> unat (ct_Gas c)"
  using assms unfolding good_def by blast

text \<open>A call or creation with \<open>gas\<close>: not out of fuel, and no more gas back than it was given.\<close>

definition gas_back :: "nat \<Rightarrow> u64 \<Rightarrow> ('a \<Rightarrow> u64) \<Rightarrow> 'a res \<Rightarrow> bool" where
  "gas_back n gas f R \<longleftrightarrow> (unat gas < n \<longrightarrow> R \<noteq> NoFuel) \<and> (\<forall>x. R = Ret x \<longrightarrow> unat (f x) \<le> unat gas)"

lemma gas_back_simps [simp]:
  "gas_back n gas f (Ret x) \<longleftrightarrow> unat (f x) \<le> unat gas" "gas_back n gas f Panic"
  by (simp_all add: gas_back_def)

lemma gas_back_or_panic:
  "(\<And>x. m = Some x \<Longrightarrow> gas_back n gas f (g x)) \<Longrightarrow> gas_back n gas f (res_bind (or_panic m) g)"
  by (cases m) auto

lemma gas_back_bind:
  assumes "gas_back n gas h m" "\<And>x. unat (h x) \<le> unat gas \<Longrightarrow> gas_back n gas f (g x)"
  shows "gas_back n gas f (res_bind m g)"
  using assms by (cases m) (auto simp: gas_back_def)

lemma good_run:
  "good n run \<Longrightarrow> gas_back n (ct_Gas c) (\<lambda>(r, c', vm'). ct_Gas c') (run c input ro vm)"
  by (auto simp: good_def gas_back_def)

lemma RunPrecompiledContract_gas:
  "unat (fst (snd (RunPrecompiledContract p input gas))) \<le> unat gas"
  by (auto simp: RunPrecompiledContract_def Let_def unat_sub_if' word_less_nat_alt split: prod.splits)

lemma call_contract_gas:
  "call_contract env typ caller addr value gas h code vm = Some (c, vm') \<Longrightarrow> ct_Gas c = gas"
  by (auto simp: call_contract_def NewContract_def AsDelegate_def SetCallCode_def Let_def
      split: Option.bind_splits if_splits ContractRef.splits)

abbreviation call_left :: "(byte list \<times> u64 \<times> evm_error option) \<times> EVM \<Rightarrow> u64" where
  "call_left r \<equiv> fst (snd (fst r))"

lemma call_body_gas:
  assumes "good n run"
  shows "gas_back n gas call_left (call_body env run typ caller addr input gas value code vm)"
proof (cases "env_precompile env addr")
  case None
  have "gas_back n gas call_left (res_bind (or_panic (call_contract env typ caller addr value gas h code vm1))
      (\<lambda>(contract, vm). res_bind (run contract input (typ = STATICCALL) vm)
                 (\<lambda>((ret, err), contract, vm). Ret ((ret, ct_Gas contract, err), vm))))" for h vm1
  proof (rule gas_back_or_panic)
    fix x assume "call_contract env typ caller addr value gas h code vm1 = Some x"
    then obtain c vm2 where x: "x = (c, vm2)" "ct_Gas c = gas" using call_contract_gas by (cases x) blast
    have "gas_back n gas (\<lambda>(r, c', vm'). ct_Gas c') (run c input (typ = STATICCALL) vm2)"
      using good_run [OF assms, of c] x(2) by simp
    then show "gas_back n gas call_left (case x of (contract, vm) \<Rightarrow> res_bind (run contract input (typ = STATICCALL) vm)
                 (\<lambda>((ret, err), contract, vm). Ret ((ret, ct_Gas contract, err), vm)))"
      unfolding x(1) prod.case by (rule gas_back_bind) auto
  qed
  then show ?thesis using None by (simp add: call_body_def split: prod.split)
qed (simp add: call_body_def RunPrecompiledContract_gas)

lemma call_settle_gas:
  "unat (call_left r) \<le> unat gas \<Longrightarrow> gas_back n gas call_left (call_settle env snapshot r)"
  by (auto simp: call_settle_def split: prod.splits intro!: gas_back_or_panic)

lemma evm_call_gas:
  assumes "good n run"
  shows "gas_back n gas call_left (evm_call env run typ caller addr input gas value bailout vm)"
proof -
  have b: "gas_back n gas call_left (res_bind (call_body env run typ caller addr input gas value code vm1)
      (call_settle env snapshot))" for code vm1 snapshot
    by (rule gas_back_bind [OF call_body_gas [OF assms]]) (rule call_settle_gas)
  show ?thesis unfolding evm_call_def Let_def
    by (auto split: prod.split intro!: gas_back_or_panic b)
qed

abbreviation create_left :: "(byte list \<times> address \<times> u64 \<times> evm_error option) \<times> EVM \<Rightarrow> u64" where
  "create_left r \<equiv> fst (snd (snd (fst r)))"

lemma create_checks_gas:
  "create_checks env caller gas value address inc vm = (Some (g, err), vm') \<Longrightarrow> unat g \<le> unat gas"
  by (auto simp: create_checks_def Let_def split: prod.splits if_splits)

lemma create_contract_gas: "ct_Gas (fst (create_contract env caller ch gas value address vm)) = gas"
  by (simp add: create_contract_def NewContract_def SetCodeOptionalHash_def Let_def)

lemma UseGas_le: "unat (ct_Gas (snd (UseGas c g))) \<le> unat (ct_Gas c)"
  by (auto simp: UseGas_def unat_sub_if' word_less_nat_alt)

lemma create_store_gas:
  "create_store env address ret err c vm = (err', c', vm') \<Longrightarrow> unat (ct_Gas c') \<le> unat (ct_Gas c)"
  using UseGas_le [of c "of_nat (length ret) * CreateDataGas"]
  by (auto simp: create_store_def Let_def split: prod.splits if_splits)

definition create_finish ::
  "Env \<Rightarrow> address \<Rightarrow> nat \<Rightarrow> (byte list \<times> evm_error option) \<times> Contract \<times> EVM \<Rightarrow>
     ((byte list \<times> address \<times> u64 \<times> evm_error option) \<times> EVM) res" where
  "create_finish env address snapshot = (\<lambda>((ret, err), contract, vm).
     (let (err, contract, vm) = create_store env address ret err contract vm in
      if err \<noteq> None \<and> (rl_IsHomestead (env_rules env) \<or> err \<noteq> Some ErrCodeStoreOutOfGas) then
        res_bind (or_panic (RevertToSnapshot (evm_ibs vm) snapshot)) (\<lambda>s.
          (let contract = (if err \<noteq> Some ErrExecutionReverted
                           then snd (UseGas contract (ct_Gas contract)) else contract)
           in Ret ((ret, address, ct_Gas contract, err), set_ibs vm s)))
      else Ret ((ret, address, ct_Gas contract, err), vm)))"

lemma create_finish_gas:
  assumes "unat (ct_Gas (fst (snd x))) \<le> unat gas"
  shows "gas_back n gas create_left (create_finish env address snapshot x)"
proof -
  obtain ret err c vm where x: "x = ((ret, err), c, vm)" by (metis prod.collapse)
  obtain err' c' vm' where st: "create_store env address ret err c vm = (err', c', vm')" by (metis prod.collapse)
  have "unat (ct_Gas c') \<le> unat gas" using create_store_gas [OF st] assms x by simp
  then show ?thesis using order_trans [OF UseGas_le [of c' "ct_Gas c'"]]
    unfolding create_finish_def x prod.case st Let_def by (auto intro!: gas_back_or_panic)
qed

lemma evm_create_gas:
  assumes "good n run"
  shows "gas_back n gas create_left (evm_create env run caller ch gas value address inc vm)"
proof -
  obtain o' vm1 where k: "create_checks env caller gas value address inc vm = (o', vm1)" by fastforce
  show ?thesis
  proof (cases o')
    case (Some a)
    then show ?thesis using k create_checks_gas [of env caller gas "value" address inc vm "fst a" "snd a" vm1]
      by (cases a) (simp add: evm_create_def)
  next
    case None
    obtain sn s where s: "Snapshot_take (evm_ibs vm1) = (sn, s)" by fastforce
    obtain c vm2 where c: "create_contract env caller ch gas value address (set_ibs vm1 s) = (c, vm2)" by fastforce
    have "ct_Gas c = gas" using create_contract_gas [of env caller ch gas "value" address "set_ibs vm1 s"] c by simp
    then have "gas_back n gas (\<lambda>(r, c', vm'). ct_Gas c') (run c [] False vm2)" using good_run [OF assms, of c] by simp
    then have "gas_back n gas create_left (res_bind (run c [] False vm2) (create_finish env address sn))"
      by (rule gas_back_bind) (rule create_finish_gas, auto)
    then show ?thesis using k None s c by (simp add: evm_create_def create_finish_def)
  qed
qed

section \<open>Operations\<close>

text \<open>One round started with gas \<open>g\<close> and a memory in order.\<close>

definition round_ok :: "nat \<Rightarrow> nat \<Rightarrow> nat \<Rightarrow> step_result res \<Rightarrow> bool" where
  "round_ok n g h R \<longleftrightarrow> (g \<le> n \<longrightarrow> R \<noteq> NoFuel) \<and>
     (\<forall>res pc vm sc. R = Ret (Continue res pc vm sc) \<longrightarrow>
        unat (ct_Gas (sc_Contract sc)) < g \<and> mem_ok (sc_Memory sc) \<and> length (sc_Stack sc) = h) \<and>
     (\<forall>res err vm sc. R = Ret (Halt res err vm sc) \<longrightarrow> unat (ct_Gas (sc_Contract sc)) \<le> g)"

definition op_sound :: "Env \<Rightarrow> operation \<Rightarrow> bool" where
  "op_sound env o' \<longleftrightarrow> (\<forall>n run pc vm sc. good n run \<longrightarrow> mem_ok (sc_Memory sc) \<longrightarrow>
     op_numPop o' \<le> length (sc_Stack sc) \<longrightarrow>
     round_ok n (unat (ct_Gas (sc_Contract sc)))
       (length (sc_Stack sc) - op_numPop o' + op_numPush o') (op_step env o' run pc vm sc))"

text \<open>
  The static conditions: the price covers the memory, something is paid unless the instruction ends
  the frame, and the declared stack effect is the real one.
\<close>

definition dyn_priced :: "operation \<Rightarrow> bool" where
  "dyn_priced o' \<longleftrightarrow> (case op_dynamicGas o' of None \<Rightarrow> True | Some g \<Rightarrow> priced (op_memorySize o' \<noteq> None) g)"

definition pays :: "operation \<Rightarrow> bool" where
  "pays o' \<longleftrightarrow> 0 < op_constantGas o' \<or> (\<exists>g. op_dynamicGas o' = Some g \<and> costly g)"

definition pure_sound :: "operation \<Rightarrow> bool" where
  "pure_sound o' \<longleftrightarrow> dyn_priced o' \<and> (\<exists>f. op_execute o' = lift_op f \<and>
     pure_ok f (op_numPop o') (op_numPush o') \<and> (halts f \<or> pays o'))"

definition call_sound :: "Env \<Rightarrow> bool \<Rightarrow> operation \<Rightarrow> bool" where
  "call_sound env val o' \<longleftrightarrow> op_numPop o' = (if val then 7 else 6) \<and> op_numPush o' = 1 \<and> 0 < op_constantGas o' \<and>
     op_execute o' \<in> (if val then {opCall, opCallCode} else {opDelegateCall, opStaticCall}) \<and>
     (\<exists>g. op_dynamicGas o' = Some g \<and> call_priced val env g)"

definition create_sound :: "operation \<Rightarrow> bool" where
  "create_sound o' \<longleftrightarrow> op_numPush o' = 1 \<and> 0 < op_constantGas o' \<and> dyn_priced o' \<and>
     (op_execute o' = opCreate \<and> op_numPop o' = 3 \<or> op_execute o' = opCreate2 \<and> op_numPop o' = 4)"

lemma memory_size_words:
  assumes "SafeMul (ToWordSize sz) 32 = (n, False)"
  shows "\<exists>k. unat n = 32 * k"
  using SafeMul_exact [OF assms] by (auto intro!: exI [of _ "unat (ToWordSize sz)"])

lemma charge_dynamicE:
  assumes "charge_dynamic env o' vm sc = Some (err, vm', sc')" "op_dynamicGas o' = Some g"
  obtains (overflow) "err = Some ErrGasUintOverflow" "vm' = vm" "sc' = sc"
    | (run) n k cost e c mem where "op_memorySize o' = None \<longrightarrow> n = 0" "unat n = 32 * k"
       "g env vm (sc_Contract sc) (sc_Stack sc) (sc_Memory sc) n = Some ((cost, e), vm', c, mem)"
       "if e = None \<and> \<not> ct_Gas c < cost
        then err = None \<and> sc' = sc\<lparr>sc_Contract := c\<lparr>ct_Gas := ct_Gas c - cost\<rparr>,
               sc_Memory := if n > 0 then mem_Resize mem n else mem\<rparr>
        else err = Some ErrOutOfGas \<and> sc' = sc\<lparr>sc_Contract := c, sc_Memory := mem\<rparr>"
proof -
  obtain n ov where m: "(case op_memorySize o' of None \<Rightarrow> Some (0, False)
             | Some f \<Rightarrow> do {
                 (sz, overflow) \<leftarrow> f (sc_Stack sc);
                 Some (if overflow then (0, True) else SafeMul (ToWordSize sz) 32) }) = Some (n, ov)"
    using assms by (auto simp: charge_dynamic_def split: Option.bind_splits)
  have n: "op_memorySize o' = None \<longrightarrow> n = 0" using m by (simp split: option.splits)
  have k: "\<exists>k. unat n = 32 * k" if "\<not> ov"
    using m that by (auto dest: memory_size_words split: option.splits Option.bind_splits if_splits)
  show ?thesis
  proof (cases ov)
    case True
    then show ?thesis using assms m overflow by (simp add: charge_dynamic_def)
  next
    case False
    then obtain k where k: "unat n = 32 * k" using k by blast
    obtain cost e vm1 c mem where d:
        "g env vm (sc_Contract sc) (sc_Stack sc) (sc_Memory sc) n = Some ((cost, e), vm1, c, mem)"
      using assms m False by (auto simp: charge_dynamic_def split: Option.bind_splits)
    have r: "charge_dynamic env o' vm sc = (if e = None \<and> \<not> ct_Gas c < cost
        then Some (None, vm1, sc\<lparr>sc_Contract := c\<lparr>ct_Gas := ct_Gas c - cost\<rparr>,
               sc_Memory := if n > 0 then mem_Resize mem n else mem\<rparr>)
        else Some (Some ErrOutOfGas, vm1, sc\<lparr>sc_Contract := c, sc_Memory := mem\<rparr>))"
      using assms(2) m False d by (auto simp: charge_dynamic_def UseGas_def)
    show ?thesis
      by (rule run [of n k cost e c mem]) (use assms(1) d n k r in \<open>auto split: if_splits\<close>)
  qed
qed

abbreviation sc_gas :: "ScopeContext \<Rightarrow> nat" where
  "sc_gas sc \<equiv> unat (ct_Gas (sc_Contract sc))"

lemma gas_minus: "\<not> a < b \<Longrightarrow> unat (a - b :: u64) + unat b = unat a"
  by (simp add: unat_sub_if' word_less_nat_alt)

lemma charge_priced:
  assumes p: "dyn_priced o'" and ok: "mem_ok (sc_Memory sc)"
    and c: "charge_dynamic env o' vm sc = Some (err, vm', sc')"
  shows "sc_gas sc' \<le> sc_gas sc \<and> (err = None \<longrightarrow> sc_Stack sc' = sc_Stack sc \<and> mem_ok (sc_Memory sc') \<and>
    ((\<exists>g. op_dynamicGas o' = Some g \<and> costly g) \<longrightarrow> sc_gas sc' < sc_gas sc))"
proof (cases "op_dynamicGas o'")
  case None
  then show ?thesis using c ok by (auto simp: charge_dynamic_def)
next
  case (Some g)
  from c Some show ?thesis
  proof (cases rule: charge_dynamicE)
    case overflow
    then show ?thesis by simp
  next
    case (run n k cost e c1 mem)
    have u: "op_memorySize o' \<noteq> None \<or> n = 0" using run(1) by blast
    have "priced (op_memorySize o' \<noteq> None) g" using p Some by (simp add: dyn_priced_def)
    note pr = pricedD [OF this ok u run(3)]
    have le: "unat (ct_Gas c1) \<le> sc_gas sc" using pr(1) by (simp add: word_le_nat_alt)
    show ?thesis
    proof (cases "e = None \<and> \<not> ct_Gas c1 < cost")
      case True
      then obtain mg where mg: "memoryGasCost (sc_Memory sc) n = ((mg, None), mem)" "c1 = sc_Contract sc" using pr(3) by blast
      have "costly g \<longrightarrow> 0 < unat cost" using run(3) True unfolding costly_def by blast
      moreover have "err = None" "sc' = sc\<lparr>sc_Contract := c1\<lparr>ct_Gas := ct_Gas c1 - cost\<rparr>,
          sc_Memory := if n > 0 then mem_Resize mem n else mem\<rparr>" using run(4) True by simp_all
      moreover have "unat (ct_Gas c1 - cost) + unat cost = unat (ct_Gas c1)" using True by (simp add: gas_minus)
      ultimately show ?thesis using le mem_ok_grow [OF ok mg(1) run(2)] Some by auto
    next
      case False
      then show ?thesis using run(4) le by auto
    qed
  qed
qed

lemma op_step_round:
  assumes dyn: "\<And>c err vm1 sc1. unat (ct_Gas c) \<le> sc_gas sc \<Longrightarrow>
      charge_dynamic env o' vm (sc\<lparr>sc_Contract := c\<rparr>) = Some (err, vm1, sc1) \<Longrightarrow> sc_gas sc1 \<le> sc_gas sc"
    and exec: "\<And>c vm1 sc1. unat (ct_Gas c) + unat (op_constantGas o') = sc_gas sc \<Longrightarrow>
      charge_dynamic env o' vm (sc\<lparr>sc_Contract := c\<rparr>) = Some (None, vm1, sc1) \<Longrightarrow>
      round_ok n (sc_gas sc) h (res_bind (op_execute o' env run pc vm1 sc1) (\<lambda>((res, err), pc, vm, sc).
            if err \<noteq> None then Ret (Halt res err vm sc) else Ret (Continue res (pc + 1) vm sc)))"
  shows "round_ok n (sc_gas sc) h (op_step env o' run pc vm sc)"
proof (cases "ct_Gas (sc_Contract sc) < op_constantGas o'")
  case True
  then show ?thesis by (simp add: op_step_def UseGas_def round_ok_def)
next
  case False
  let ?c = "(sc_Contract sc)\<lparr>ct_Gas := ct_Gas (sc_Contract sc) - op_constantGas o'\<rparr>"
  have s: "unat (ct_Gas ?c) + unat (op_constantGas o') = sc_gas sc" using gas_minus [OF False] by simp
  show ?thesis
  proof (cases "charge_dynamic env o' vm (sc\<lparr>sc_Contract := ?c\<rparr>)")
    case None
    then show ?thesis using False by (simp add: op_step_def UseGas_def round_ok_def)
  next
    case (Some r)
    obtain err vm1 sc1 where r: "r = (err, vm1, sc1)" by (cases r)
    show ?thesis
    proof (cases err)
      case None
      then show ?thesis using exec [OF s, of vm1 sc1] False Some r by (simp add: op_step_def UseGas_def)
    next
      case (Some e)
      have "sc_gas sc1 \<le> sc_gas sc"
        using dyn [of ?c err vm1 sc1] s \<open>charge_dynamic _ _ _ _ = Some r\<close> r by simp
      then show ?thesis using False \<open>charge_dynamic _ _ _ _ = Some r\<close> r Some
        by (simp add: op_step_def UseGas_def round_ok_def)
    qed
  qed
qed

lemma pure_op_sound:
  assumes "pure_sound o'" shows "op_sound env o'"
  unfolding op_sound_def
proof (intro allI impI)
  fix n run pc vm and sc :: ScopeContext
  assume ok: "mem_ok (sc_Memory sc)" and pop: "op_numPop o' \<le> length (sc_Stack sc)"
  obtain f where f: "op_execute o' = lift_op f" "pure_ok f (op_numPop o') (op_numPush o')" "halts f \<or> pays o'"
      and p: "dyn_priced o'"
    using assms by (auto simp: pure_sound_def)
  show "round_ok n (sc_gas sc) (length (sc_Stack sc) - op_numPop o' + op_numPush o') (op_step env o' run pc vm sc)"
  proof (rule op_step_round)
    fix c err vm1 sc1
    assume "unat (ct_Gas c) \<le> sc_gas sc" "charge_dynamic env o' vm (sc\<lparr>sc_Contract := c\<rparr>) = Some (err, vm1, sc1)"
    then show "sc_gas sc1 \<le> sc_gas sc" using charge_priced [OF p, of "sc\<lparr>sc_Contract := c\<rparr>"] ok by fastforce
  next
    fix c vm1 sc1
    assume c: "unat (ct_Gas c) + unat (op_constantGas o') = sc_gas sc"
      and ch: "charge_dynamic env o' vm (sc\<lparr>sc_Contract := c\<rparr>) = Some (None, vm1, sc1)"
    have k: "sc_gas sc1 \<le> unat (ct_Gas c)" "sc_Stack sc1 = sc_Stack sc" "mem_ok (sc_Memory sc1)"
        "pays o' \<longrightarrow> sc_gas sc1 < sc_gas sc"
      using charge_priced [OF p, of "sc\<lparr>sc_Contract := c\<rparr>", OF _ ch] ok c
      by (auto simp: pays_def word_less_nat_alt)
    show "round_ok n (sc_gas sc) (length (sc_Stack sc) - op_numPop o' + op_numPush o')
        (res_bind (op_execute o' env run pc vm1 sc1) (\<lambda>((res, err), pc, vm, sc).
            if err \<noteq> None then Ret (Halt res err vm sc) else Ret (Continue res (pc + 1) vm sc)))"
    proof (cases "f env pc vm1 sc1")
      case None
      then show ?thesis by (simp add: f(1) lift_op_def round_ok_def)
    next
      case (Some r)
      obtain res err pc2 vm2 sc2 where r: "r = ((res, err), pc2, vm2, sc2)" by (metis prod.collapse)
      have e: "same_frame vm1 sc1 vm2 sc2" "err = None \<Longrightarrow> length (sc_Stack sc2) + op_numPop o' = length (sc_Stack sc1) + op_numPush o'"
        using f(2) Some r unfolding pure_ok_def by blast+
      have "halts f \<Longrightarrow> err \<noteq> None" using Some r unfolding halts_def by blast
      then show ?thesis using Some r e k c f pop
        by (auto simp: lift_op_def round_ok_def same_frame_def mem_ok_def)
    qed
  qed
qed

section \<open>Calls and creations\<close>

abbreviation next_round :: "exec_result \<Rightarrow> step_result res" where
  "next_round \<equiv> (\<lambda>((res, err), pc, vm, sc).
     if err \<noteq> None then Ret (Halt res err vm sc) else Ret (Continue res (pc + 1) vm sc))"

lemma add_gas:
  assumes "unat (a :: u64) + unat b < g" "g < 2 ^ 64"
  shows "unat (a + b) = unat a + unat b"
  using assms by (simp add: unat_word_ariths)

lemma call_finish_round:
  assumes b: "gas_back n cg call_left R" and g: "sc_gas sc + unat cg < g" "g < 2 ^ 64"
    and ok: "mem_ok (sc_Memory sc)"
  shows "round_ok n g (length (ca_stack ca) + 1) (res_bind (res_bind R (call_return pc sc ca)) next_round)"
proof (cases R)
  case NoFuel
  then have "n \<le> unat cg" using b by (simp add: gas_back_def not_less)
  then show ?thesis using NoFuel g by (simp add: round_ok_def)
next
  case Panic
  then show ?thesis by (simp add: round_ok_def)
next
  case (Ret x)
  obtain ret gb err vm where x: "x = ((ret, gb, err), vm)" by (metis prod.collapse)
  have "unat gb \<le> unat cg" using b Ret x by simp
  then have add: "unat (ct_Gas (sc_Contract sc) + gb) < g" using g add_gas [of "ct_Gas (sc_Contract sc)" gb g] by simp
  show ?thesis
  proof (cases "if err = None \<or> err = Some ErrExecutionReverted
                then mem_Set (sc_Memory sc) (Uint64 (ca_retOffset ca)) (Uint64 (ca_retSize ca)) ret
                else Some (sc_Memory sc)")
    case None
    then show ?thesis using Ret x by (simp add: call_return_def round_ok_def)
  next
    case (Some m)
    have "mem_ok m" using Some ok by (auto simp: mem_ok_def dest: mem_Set_frame split: if_splits)
    then show ?thesis using Some Ret x add by (simp add: call_return_def round_ok_def st_Push_def Let_def)
  qed
qed

lemma pop_call_argsD:
  assumes "pop_call_args val sc = Some ca"
  shows "length (sc_Stack sc) = length (ca_stack ca) + (if val then 7 else 6)"
    "val \<Longrightarrow> ca_value ca = sc_Stack sc ! 2"
  using assms by (auto simp: pop_call_args_def st_Pop_Some split: Option.bind_splits if_splits)

text \<open>What a call instruction knows once it has been paid for.\<close>

lemma charge_call:
  assumes p: "call_priced val env g" "op_dynamicGas o' = Some g" and ok: "mem_ok (sc_Memory sc)"
    and c: "charge_dynamic env o' vm sc = Some (err, vm', sc')"
  shows "sc_gas sc' \<le> sc_gas sc \<and> (err = None \<longrightarrow> sc_Stack sc' = sc_Stack sc \<and> mem_ok (sc_Memory sc') \<and>
    (let extra = (if val \<and> sc_Stack sc ! 2 \<noteq> 0 then 9000 else 0)
     in sc_gas sc' + unat (evm_callGasTemp vm') + extra \<le> sc_gas sc))"
  using c p(2)
proof (cases rule: charge_dynamicE)
  case overflow
  then show ?thesis by simp
next
  case (run n k cost e c1 mem)
  note pr = call_pricedD [OF p(1) ok run(3)]
  have le: "unat (ct_Gas c1) \<le> sc_gas sc" using pr(1) by (simp add: word_le_nat_alt)
  show ?thesis
  proof (cases "e = None \<and> \<not> ct_Gas c1 < cost")
    case True
    then obtain mg where mg: "memoryGasCost (sc_Memory sc) n = ((mg, None), mem)" using pr(3) by blast
    have t: "unat (evm_callGasTemp vm') + (if val \<and> sc_Stack sc ! 2 \<noteq> 0 then 9000 else 0) \<le> unat cost"
      using pr(3) True by blast
    have "err = None" "sc' = sc\<lparr>sc_Contract := c1\<lparr>ct_Gas := ct_Gas c1 - cost\<rparr>,
          sc_Memory := if n > 0 then mem_Resize mem n else mem\<rparr>" using run(4) True by simp_all
    moreover have "unat (ct_Gas c1 - cost) + unat cost = unat (ct_Gas c1)" using True by (simp add: gas_minus)
    ultimately show ?thesis using le t mem_ok_grow [OF ok mg run(2)] by (simp add: Let_def)
  next
    case False
    then show ?thesis using run(4) le by auto
  qed
qed

text \<open>The stipend is less than the price of moving value, so the callee's gas is covered.\<close>

lemma with_stipend:
  assumes "a + unat t + (if v \<noteq> (0 :: u256) then 9000 else 0) \<le> b" "b < g" "g < 2 ^ 64"
  shows "a + unat (if v \<noteq> 0 then t + CallStipend else t) < g"
  using assms add_gas [of t CallStipend g] by auto

lemma call_round:
  assumes good: "good n run" and ca: "pop_call_args val sc = Some ca" and ok: "mem_ok (sc_Memory sc)"
    and ex: "ex \<in> (if val then {opCall, opCallCode} else {opDelegateCall, opStaticCall})"
    and b: "sc_gas sc + unat (evm_callGasTemp vm) + (if val \<and> sc_Stack sc ! 2 \<noteq> 0 then 9000 else 0) \<le> b"
      "b < g" "g < 2 ^ 64"
  shows "round_ok n g (length (ca_stack ca) + 1) (res_bind (ex env run pc vm sc) next_round)"
proof -
  let ?t = "evm_callGasTemp vm"
  have stip: "val \<Longrightarrow> sc_gas sc + unat (if ca_value ca \<noteq> 0 then ?t + CallStipend else ?t) < g"
    using with_stipend [where v = "ca_value ca", OF _ b(2,3)] b(1) pop_call_argsD(2) [OF ca] by simp
  have plain: "sc_gas sc + unat ?t < g" using b by simp
  have wp: "round_ok n g h (Ret (Halt [] (Some ErrWriteProtection) vm (with_stack sc st)))" for h st
    using plain by (simp add: round_ok_def)
  show ?thesis
  proof (cases val)
    case True
    then consider "ex = opCall" | "ex = opCallCode" using ex by auto
    then show ?thesis
      by cases (use True ca stip wp call_finish_round [OF evm_call_gas [OF good] _ b(3) ok] in
        \<open>auto simp: opCall_def opCallCode_def Call_def CallCode_def Let_def\<close>)
  next
    case False
    then consider "ex = opDelegateCall" | "ex = opStaticCall" using ex by auto
    then show ?thesis
      by cases (use False ca plain call_finish_round [OF evm_call_gas [OF good] _ b(3) ok] in
        \<open>auto simp: opDelegateCall_def opStaticCall_def DelegateCall_def StaticCall_def\<close>)
  qed
qed

lemma call_panics:
  assumes "pop_call_args val sc = None"
    "ex \<in> (if val then {opCall, opCallCode} else {opDelegateCall, opStaticCall})"
  shows "round_ok n g h (res_bind (ex env run pc vm sc) next_round)"
  using assms by (auto simp: opCall_def opCallCode_def opDelegateCall_def opStaticCall_def round_ok_def split: if_splits)

lemma call_op_sound:
  assumes "call_sound env val o'" shows "op_sound env o'"
  unfolding op_sound_def
proof (intro allI impI)
  fix n run pc vm and sc :: ScopeContext
  assume good: "good n run" and ok: "mem_ok (sc_Memory sc)"
  obtain g where g: "op_dynamicGas o' = Some g" "call_priced val env g"
      and o': "op_numPop o' = (if val then 7 else 6)" "op_numPush o' = 1" "0 < unat (op_constantGas o')"
        "op_execute o' \<in> (if val then {opCall, opCallCode} else {opDelegateCall, opStaticCall})"
    using assms by (auto simp: call_sound_def word_less_nat_alt)
  show "round_ok n (sc_gas sc) (length (sc_Stack sc) - op_numPop o' + op_numPush o') (op_step env o' run pc vm sc)"
  proof (rule op_step_round)
    fix c err vm1 sc1
    assume "unat (ct_Gas c) \<le> sc_gas sc" "charge_dynamic env o' vm (sc\<lparr>sc_Contract := c\<rparr>) = Some (err, vm1, sc1)"
    then show "sc_gas sc1 \<le> sc_gas sc" using charge_call [OF g(2,1), of "sc\<lparr>sc_Contract := c\<rparr>"] ok by fastforce
  next
    fix c vm1 sc1
    assume c: "unat (ct_Gas c) + unat (op_constantGas o') = sc_gas sc"
      and ch: "charge_dynamic env o' vm (sc\<lparr>sc_Contract := c\<rparr>) = Some (None, vm1, sc1)"
    have k: "sc_Stack sc1 = sc_Stack sc" "mem_ok (sc_Memory sc1)"
      "sc_gas sc1 + unat (evm_callGasTemp vm1) + (if val \<and> sc_Stack sc1 ! 2 \<noteq> 0 then 9000 else 0) \<le> unat (ct_Gas c)"
      using charge_call [OF g(2,1) _ ch] ok by (simp_all add: Let_def)
    have lt: "unat (ct_Gas c) < sc_gas sc" using c o'(3) by simp
    show "round_ok n (sc_gas sc) (length (sc_Stack sc) - op_numPop o' + op_numPush o')
        (res_bind (op_execute o' env run pc vm1 sc1) next_round)"
    proof (cases "pop_call_args val sc1")
      case None
      then show ?thesis using o'(4) by (rule call_panics)
    next
      case (Some ca)
      then show ?thesis
        using call_round [OF good Some k(2) o'(4) k(3) lt unat_u64_less, of env pc] pop_call_argsD(1) [OF Some] k(1) o'(1,2)
        by simp
    qed
  qed
qed

lemma create_return_round:
  assumes b: "gas_back n cg create_left R" and g: "sc_gas sc + unat cg < g" "g < 2 ^ 64" and ok: "mem_ok (sc_Memory sc)"
    and k: "\<And>res addr gb err vm. k ((res, addr, gb, err), vm) = create_return pc sc st (v addr err) (res, gb, err) vm"
  shows "round_ok n g (length st + 1) (res_bind (res_bind R k) next_round)"
proof (cases R)
  case NoFuel
  then have "n \<le> unat cg" using b by (simp add: gas_back_def not_less)
  then show ?thesis using NoFuel g by (simp add: round_ok_def)
next
  case Panic
  then show ?thesis by (simp add: round_ok_def)
next
  case (Ret x)
  obtain res addr gb err vm where x: "x = ((res, addr, gb, err), vm)" by (metis prod.collapse)
  have "unat gb \<le> unat cg" using b Ret x by simp
  then have "unat (ct_Gas (sc_Contract sc) + gb) < g" using g add_gas [of "ct_Gas (sc_Contract sc)" gb g] by simp
  then show ?thesis using Ret x ok by (simp add: k create_return_def round_ok_def st_Push_def Let_def)
qed

lemma give_gas:
  assumes "gas \<le> ct_Gas (sc_Contract sc)"
  shows "sc_gas (sc\<lparr>sc_Contract := snd (UseGas (sc_Contract sc) gas)\<rparr>) + unat gas = sc_gas sc"
proof -
  have "\<not> ct_Gas (sc_Contract sc) < gas" using assms by simp
  then show ?thesis using gas_minus [of "ct_Gas (sc_Contract sc)" gas] by (simp add: UseGas_def)
qed

lemma all_but_64th_le: "a - a div 64 \<le> (a :: u64)"
proof -
  have "a div 64 \<le> a" by (simp add: word_le_nat_alt unat_div)
  then show ?thesis by (simp add: word_le_nat_alt unat_sub unat_div)
qed

lemma create_round:
  assumes good: "good n run" and ok: "mem_ok (sc_Memory sc)" and g: "sc_gas sc < g" "g < 2 ^ 64"
    and pop: "length (sc_Stack sc) = h + 2"
  shows "round_ok n g h (res_bind (opCreate env run pc vm sc) next_round)"
proof (cases "evm_readOnly vm")
  case True
  then show ?thesis using g by (simp add: opCreate_def round_ok_def)
next
  case False
  let ?args = "do {
          (value, st) \<leftarrow> st_Pop (sc_Stack sc);
          (offset, st) \<leftarrow> st_Pop st;
          sz \<leftarrow> st_Peek st;
          input \<leftarrow> GetCopy (sc_Memory sc) (sint (Uint64 offset)) (sint (Uint64 sz));
          Some (value, nil_bytes input, tl st) }"
  show ?thesis
  proof (cases ?args)
    case None
    then show ?thesis using False by (simp add: opCreate_def round_ok_def)
  next
    case (Some a)
    obtain val inp st where a: "a = (val, inp, st)" by (metis prod.collapse)
    have st: "h = length st + 1" using Some a pop by (auto simp: op_shapes split: Option.bind_splits)
    let ?g = "ct_Gas (sc_Contract sc)"
    let ?gas = "if rl_IsTangerineWhistle (env_rules env) then ?g - ?g div 64 else ?g"
    let ?sc = "sc\<lparr>sc_Contract := snd (UseGas (sc_Contract sc) ?gas)\<rparr>"
    have gv: "sc_gas ?sc + unat ?gas < g" using give_gas [of ?gas sc] all_but_64th_le [of ?g] g(1) by simp
    have r: "gas_back n ?gas create_left (Create env run (as_ref (sc_Contract ?sc)) inp ?gas val vm)"
      by (simp add: Create_def evm_create_gas [OF good] split: prod.split)
    have e: "opCreate env run pc vm sc = res_bind (Create env run (as_ref (sc_Contract ?sc)) inp ?gas val vm)
        (\<lambda>((res, addr, returnGas, suberr), vm). create_return pc ?sc st (create_value env addr suberr)
          (res, returnGas, suberr) vm)"
      unfolding opCreate_def Some a Let_def using False by simp
    show ?thesis unfolding e st by (rule create_return_round [OF r gv g(2)]) (use ok in auto)
  qed
qed

lemma create2_round:
  assumes good: "good n run" and ok: "mem_ok (sc_Memory sc)" and g: "sc_gas sc < g" "g < 2 ^ 64"
    and pop: "length (sc_Stack sc) = h + 3"
  shows "round_ok n g h (res_bind (opCreate2 env run pc vm sc) next_round)"
proof (cases "evm_readOnly vm")
  case True
  then show ?thesis using g by (simp add: opCreate2_def round_ok_def)
next
  case False
  let ?args = "do {
          (endowment, st) \<leftarrow> st_Pop (sc_Stack sc);
          (offset, st) \<leftarrow> st_Pop st;
          (sz, st) \<leftarrow> st_Pop st;
          (salt, st) \<leftarrow> st_Pop st;
          input \<leftarrow> GetCopy (sc_Memory sc) (sint (Uint64 offset)) (sint (Uint64 sz));
          Some (endowment, salt, nil_bytes input, st) }"
  show ?thesis
  proof (cases ?args)
    case None
    then show ?thesis using False by (simp add: opCreate2_def round_ok_def)
  next
    case (Some a)
    obtain val salt inp st where a: "a = (val, salt, inp, st)" by (metis prod.collapse)
    have st: "h = length st + 1" using Some a pop by (auto simp: op_shapes split: Option.bind_splits)
    let ?gas = "ct_Gas (sc_Contract sc) - ct_Gas (sc_Contract sc) div 64"
    let ?sc = "sc\<lparr>sc_Contract := snd (UseGas (sc_Contract sc) ?gas)\<rparr>"
    have gv: "sc_gas ?sc + unat ?gas < g"
      using give_gas [of ?gas sc] all_but_64th_le [of "ct_Gas (sc_Contract sc)"] g(1) by simp
    have r: "gas_back n ?gas create_left (Create2 env run (as_ref (sc_Contract ?sc)) inp ?gas val salt vm)"
      by (simp add: Create2_def evm_create_gas [OF good] Let_def)
    have e: "opCreate2 env run pc vm sc = res_bind (Create2 env run (as_ref (sc_Contract ?sc)) inp ?gas val salt vm)
        (\<lambda>((res, addr, returnGas, suberr), vm). create_return pc ?sc st
          (if suberr \<noteq> None then 0 else ucast addr) (res, returnGas, suberr) vm)"
      unfolding opCreate2_def Some a Let_def using False by simp
    show ?thesis unfolding e st by (rule create_return_round [OF r gv g(2)]) (use ok in auto)
  qed
qed

lemma create_op_sound:
  assumes "create_sound o'" shows "op_sound env o'"
  unfolding op_sound_def
proof (intro allI impI)
  fix n run pc vm and sc :: ScopeContext
  assume good: "good n run" and ok: "mem_ok (sc_Memory sc)" and pop: "op_numPop o' \<le> length (sc_Stack sc)"
  have p: "dyn_priced o'" and o': "op_numPush o' = 1" "0 < unat (op_constantGas o')"
      "op_execute o' = opCreate \<and> op_numPop o' = 3 \<or> op_execute o' = opCreate2 \<and> op_numPop o' = 4"
    using assms by (auto simp: create_sound_def word_less_nat_alt)
  show "round_ok n (sc_gas sc) (length (sc_Stack sc) - op_numPop o' + op_numPush o') (op_step env o' run pc vm sc)"
  proof (rule op_step_round)
    fix c err vm1 sc1
    assume "unat (ct_Gas c) \<le> sc_gas sc" "charge_dynamic env o' vm (sc\<lparr>sc_Contract := c\<rparr>) = Some (err, vm1, sc1)"
    then show "sc_gas sc1 \<le> sc_gas sc" using charge_priced [OF p, of "sc\<lparr>sc_Contract := c\<rparr>"] ok by fastforce
  next
    fix c vm1 sc1
    assume c: "unat (ct_Gas c) + unat (op_constantGas o') = sc_gas sc"
      and ch: "charge_dynamic env o' vm (sc\<lparr>sc_Contract := c\<rparr>) = Some (None, vm1, sc1)"
    have k: "sc_gas sc1 < sc_gas sc" "sc_Stack sc1 = sc_Stack sc" "mem_ok (sc_Memory sc1)"
      using charge_priced [OF p, of "sc\<lparr>sc_Contract := c\<rparr>", OF _ ch] ok c o'(2) by auto
    show "round_ok n (sc_gas sc) (length (sc_Stack sc) - op_numPop o' + op_numPush o')
        (res_bind (op_execute o' env run pc vm1 sc1) next_round)"
      using o'(3) create_round [OF good k(3,1) unat_u64_less] create2_round [OF good k(3,1) unat_u64_less] k(2) o'(1) pop
      by auto
  qed
qed

end
