(* ===== verification/Evm_Tables.thy ===== *)
theory Evm_Tables
  imports Evm_Fuel
begin

text \<open>
  Every fork's instruction table is sound: building it does not panic, each entry's declared stack
  effect is the real one, each entry is paid for or ends the frame, and its stack limit is the
  one that keeps the stack at 1024 items.
\<close>

section \<open>Sound operations\<close>

definition op_good :: "Env \<Rightarrow> operation \<Rightarrow> bool" where
  "op_good env o' \<longleftrightarrow> (op_memorySize o' \<noteq> None \<longrightarrow> op_dynamicGas o' \<noteq> None) \<and>
     (pure_sound o' \<or> call_sound env True o' \<or> call_sound env False o' \<or> create_sound o')"

lemma op_good_sound: "op_good env o' \<Longrightarrow> op_sound env o'"
  by (auto simp: op_good_def intro: pure_op_sound call_op_sound create_op_sound)

lemmas op_simps = const_op_def dyn_op_def push_op_def dup_op_def swap_op_def

lemma good_const:
  "pure_ok f p q \<Longrightarrow> 0 < g \<Longrightarrow> op_good env (const_op (lift_op f) g p q)"
  by (auto simp: op_good_def pure_sound_def dyn_priced_def pays_def op_simps)

lemma good_const_halt:
  "pure_ok f p q \<Longrightarrow> halts f \<Longrightarrow> op_good env (const_op (lift_op f) g p q)"
  by (auto simp: op_good_def pure_sound_def dyn_priced_def op_simps)

lemma good_dyn:
  "pure_ok f p q \<Longrightarrow> priced (m \<noteq> None) g \<Longrightarrow> 0 < k \<or> costly g \<or> halts f \<Longrightarrow>
    op_good env (dyn_op (lift_op f) k g m p q)"
  by (auto simp: op_good_def pure_sound_def dyn_priced_def pays_def op_simps)

lemma good_call:
  "call_priced True env g \<Longrightarrow> 0 < k \<Longrightarrow> op_good env (dyn_op opCall k g m 7 1)"
  "call_priced True env g \<Longrightarrow> 0 < k \<Longrightarrow> op_good env (dyn_op opCallCode k g m 7 1)"
  "call_priced False env g \<Longrightarrow> 0 < k \<Longrightarrow> op_good env (dyn_op opDelegateCall k g m 6 1)"
  "call_priced False env g \<Longrightarrow> 0 < k \<Longrightarrow> op_good env (dyn_op opStaticCall k g m 6 1)"
  by (auto simp: op_good_def call_sound_def op_simps)

lemma good_create:
  "priced (m \<noteq> None) g \<Longrightarrow> 0 < k \<Longrightarrow> op_good env (dyn_op opCreate k g m 3 1)"
  "priced (m \<noteq> None) g \<Longrightarrow> 0 < k \<Longrightarrow> op_good env (dyn_op opCreate2 k g m 4 1)"
  by (auto simp: op_good_def create_sound_def dyn_priced_def op_simps)

lemma good_push: "op_good env (push_op n)" "op_good env (dup_op n)" "op_good env (swap_op n)"
    "op_good env ((const_op (lift_op opPush1) GasFastestStep 0 1)\<lparr>op_isPush := True, op_opNum := 1\<rparr>)"
  using makePush_ok makeDup_ok [of n] makeSwap_ok [of n]
  by (auto simp: op_good_def pure_sound_def dyn_priced_def pays_def op_simps)

lemma log_effects: "pure_ok (makeLog 0) 2 0" "pure_ok (makeLog 1) 3 0" "pure_ok (makeLog 2) 4 0"
    "pure_ok (makeLog 3) 5 0" "pure_ok (makeLog 4) 6 0"
  using makeLog_ok [of 0] makeLog_ok [of 1] makeLog_ok [of 2] makeLog_ok [of 3] makeLog_ok [of 4] by (simp_all add: eval_nat_numeral)

lemmas base_priced = call_base_priced [OF call_base_call] call_base_priced [OF call_base_code]
  call_base_priced [OF call_base_plain(1)] call_base_priced [OF call_base_plain(2)]

lemmas table_rules = good_const good_const_halt good_dyn good_call good_create good_push effects halting log_effects
  priced_memory priced_aliases priced_log priced_exp priced_sstore priced_access priced_extcodecopy
  costly_log costly_exp costly_sstore costly_sload base_priced

section \<open>Frontier\<close>

lemma frontier_good:
  "\<forall>(b, o') \<in> set frontier_arith. op_good env o'" "\<forall>(b, o') \<in> set frontier_env. op_good env o'"
  "\<forall>(b, o') \<in> set frontier_mem. op_good env o'" "\<forall>(b, o') \<in> set frontier_push_lo. op_good env o'"
  "\<forall>(b, o') \<in> set frontier_push_hi. op_good env o'" "\<forall>(b, o') \<in> set frontier_dup. op_good env o'"
  "\<forall>(b, o') \<in> set frontier_swap. op_good env o'" "\<forall>(b, o') \<in> set frontier_log. op_good env o'"
  "\<forall>(b, o') \<in> set frontier_sys. op_good env o'"
  by (simp_all add: frontier_arith_def frontier_env_def frontier_mem_def frontier_push_lo_def frontier_push_hi_def
      frontier_dup_def frontier_swap_def frontier_log_def frontier_sys_def table_rules
      del: One_nat_def)

section \<open>Building a table\<close>

text \<open>A table up to the stack limits that validation fills in.\<close>

definition core :: "JumpTable \<Rightarrow> JumpTable" where
  "core jt = (\<lambda>b. (jt b)\<lparr>op_maxStack := 0\<rparr>)"

lemma core_upd: "core (jt(b := o')) = (core jt)(b := o'\<lparr>op_maxStack := 0\<rparr>)"
  by (auto simp: core_def)

lemma core_apply: "(jt b)\<lparr>op_maxStack := 0\<rparr> = core jt b"
  by (simp add: core_def)

lemma op_good_core: "op_good env (o'\<lparr>op_maxStack := m\<rparr>) = op_good env o'"
  by (simp add: op_good_def pure_sound_def call_sound_def create_sound_def dyn_priced_def pays_def
      cong: option.case_cong)

lemma op_updates:
  "(dyn_op e k g m p q)\<lparr>op_constantGas := k'\<rparr> = dyn_op e k' g m p q"
  "(dyn_op e k g m p q)\<lparr>op_dynamicGas := Some g'\<rparr> = dyn_op e k g' m p q"
  "(dyn_op e k g m p q)\<lparr>op_maxStack := 0\<rparr> = dyn_op e k g m p q"
  "(const_op e k p q)\<lparr>op_constantGas := k'\<rparr> = const_op e k' p q"
  "(const_op e k p q)\<lparr>op_dynamicGas := Some g\<rparr> = dyn_op e k g None p q"
  "(const_op e k p q)\<lparr>op_maxStack := 0\<rparr> = const_op e k p q"
  by (simp_all add: op_simps)

lemma op_update_order:
  "(o'\<lparr>op_constantGas := k\<rparr>)\<lparr>op_maxStack := 0\<rparr> = (o'\<lparr>op_maxStack := 0\<rparr>)\<lparr>op_constantGas := k\<rparr>"
  "(o'\<lparr>op_dynamicGas := d\<rparr>)\<lparr>op_maxStack := 0\<rparr> = (o'\<lparr>op_maxStack := 0\<rparr>)\<lparr>op_dynamicGas := d\<rparr>"
  by simp_all

definition table_inv :: "Env \<Rightarrow> (byte \<times> operation) list \<Rightarrow> JumpTable \<Rightarrow> bool" where
  "table_inv env L jt \<longleftrightarrow> (\<forall>b. op_good env (core jt b)) \<and>
     (\<forall>b. op_maxStack (jt b) = maxStack (op_numPop (jt b)) (op_numPush (jt b))) \<and>
     list_all (\<lambda>(b, o'). core jt b = o') L"

lemma validate_inv:
  assumes "\<forall>b. op_good env (core jt b)" "list_all (\<lambda>(b, o'). core jt b = o') L"
  shows "\<exists>jt'. validateAndFillMaxStack jt = Some jt' \<and> table_inv env L jt'"
proof -
  let ?jt = "\<lambda>i. (jt i)\<lparr>op_maxStack := maxStack (op_numPop (jt i)) (op_numPush (jt i))\<rparr>"
  have g: "op_good env (jt b)" for b using assms(1) by (simp add: core_def op_good_core)
  have "op_memorySize (jt b) \<noteq> None \<longrightarrow> op_dynamicGas (jt b) \<noteq> None" for b
    using g [of b] unfolding op_good_def by blast
  then have "validateAndFillMaxStack jt = Some ?jt"
    unfolding validateAndFillMaxStack_def list_ex_iff by (simp del: not_None_eq) blast
  moreover have "core ?jt = core jt" by (auto simp: core_def)
  ultimately show ?thesis using assms by (simp add: table_inv_def)
qed

text \<open>Entries later forks reprice.\<close>

definition frontier_slots :: "(byte \<times> operation) list" where
  "frontier_slots =
   [(OP_EXP, dyn_op (lift_op opExp) 0 gasExpFrontier None 2 1),
    (OP_BALANCE, const_op (lift_op opBalance) BalanceGasFrontier 1 1),
    (OP_EXTCODESIZE, const_op (lift_op opExtCodeSize) ExtcodeSizeGasFrontier 1 1),
    (OP_EXTCODECOPY, dyn_op (lift_op opExtCodeCopy) ExtcodeCopyBaseFrontier gasExtCodeCopy (Some memoryExtCodeCopy) 4 0),
    (OP_SLOAD, const_op (lift_op opSload) SloadGasFrontier 1 1),
    (OP_SSTORE, dyn_op (lift_op opSstore) 0 gasSStore None 2 0),
    (OP_CREATE, dyn_op opCreate CreateGas gasCreate (Some memoryCreate) 3 1),
    (OP_CALL, dyn_op opCall CallGasFrontier gasCall (Some memoryCall) 7 1),
    (OP_CALLCODE, dyn_op opCallCode CallGasFrontier gasCallCode (Some memoryCall) 7 1),
    (OP_SELFDESTRUCT, dyn_op (lift_op opSelfdestruct) 0 gasSelfdestruct None 1 0)]"

lemma frontier_lookup:
  "list_all (\<lambda>(b, o'). map_of frontier_ops b = Some o') frontier_slots"
  by (simp add: frontier_slots_def frontier_ops_def frontier_arith_def frontier_env_def frontier_mem_def
      frontier_push_lo_def frontier_push_hi_def frontier_dup_def frontier_swap_def frontier_log_def frontier_sys_def
      OP_JUMPDEST_def OP_PUSH1_def upt_rec)

section \<open>The forks\<close>

lemma core_set: "core (set_const b g jt) = set_const b g (core jt)" "core (set_dyn b d jt) = set_dyn b d (core jt)"
  by (auto simp: core_def)

lemma core_core: "core (core jt) = core jt"
  by (simp add: core_def)

lemmas stage_simps = core_upd core_set core_apply core_core op_updates op_update_order table_inv_def

lemma frontier_table: "\<exists>jt. newFrontierInstructionSet = Some jt \<and> table_inv env frontier_slots jt"
  unfolding newFrontierInstructionSet_def
proof (rule validate_inv)
  let ?jt = "\<lambda>b. case map_of frontier_ops b of Some o' \<Rightarrow> o' | None \<Rightarrow> const_op (lift_op opUndefined) 0 0 0"
  have "\<forall>(b, o') \<in> set frontier_ops. op_good env o'"
    unfolding frontier_ops_def set_append ball_Un by (intro conjI frontier_good)
  then have "op_good env (?jt b)" for b
    by (auto dest!: map_of_SomeD simp: table_rules split: option.split)
  then show "\<forall>b. op_good env (core ?jt b)" by (simp add: core_def op_good_core)
  show "list_all (\<lambda>(b, o'). core ?jt b = o') frontier_slots"
    using frontier_lookup by (simp add: frontier_slots_def core_def op_updates)
qed

lemma stage_step:
  assumes "prev = Some jt" "\<forall>b. op_good env (core (f jt) b)" "list_all (\<lambda>(b, o'). core (f jt) b = o') L"
  shows "\<exists>jt'. (do { jt \<leftarrow> prev; validateAndFillMaxStack (f jt) }) = Some jt' \<and> table_inv env L jt'"
  using assms validate_inv by simp

definition homestead_slots :: "(byte \<times> operation) list" where
  "homestead_slots =
   (OP_DELEGATECALL, dyn_op opDelegateCall CallGasFrontier gasDelegateCall (Some memoryDelegateCall) 6 1) # frontier_slots"

lemma homestead_table: "\<exists>jt. newHomesteadInstructionSet = Some jt \<and> table_inv env homestead_slots jt"
proof -
  obtain jt where j: "newFrontierInstructionSet = Some jt" and i: "table_inv env frontier_slots jt"
    using frontier_table by blast
  show ?thesis unfolding newHomesteadInstructionSet_def using i
    by (intro stage_step [OF j])
      (simp_all add: stage_simps homestead_slots_def frontier_slots_def table_rules del: One_nat_def)
qed

definition tangerine_slots :: "(byte \<times> operation) list" where
  "tangerine_slots =
   [(OP_EXP, dyn_op (lift_op opExp) 0 gasExpFrontier None 2 1),
    (OP_BALANCE, const_op (lift_op opBalance) BalanceGasEIP150 1 1),
    (OP_EXTCODESIZE, const_op (lift_op opExtCodeSize) ExtcodeSizeGasEIP150 1 1),
    (OP_EXTCODECOPY, dyn_op (lift_op opExtCodeCopy) ExtcodeCopyBaseEIP150 gasExtCodeCopy (Some memoryExtCodeCopy) 4 0),
    (OP_SLOAD, const_op (lift_op opSload) SloadGasEIP150 1 1),
    (OP_SSTORE, dyn_op (lift_op opSstore) 0 gasSStore None 2 0),
    (OP_CREATE, dyn_op opCreate CreateGas gasCreate (Some memoryCreate) 3 1),
    (OP_CALL, dyn_op opCall CallGasEIP150 gasCall (Some memoryCall) 7 1),
    (OP_CALLCODE, dyn_op opCallCode CallGasEIP150 gasCallCode (Some memoryCall) 7 1),
    (OP_DELEGATECALL, dyn_op opDelegateCall CallGasEIP150 gasDelegateCall (Some memoryDelegateCall) 6 1),
    (OP_SELFDESTRUCT, dyn_op (lift_op opSelfdestruct) 0 gasSelfdestruct None 1 0)]"

lemma tangerine_table: "\<exists>jt. newTangerineWhistleInstructionSet = Some jt \<and> table_inv env tangerine_slots jt"
proof -
  obtain jt where j: "newHomesteadInstructionSet = Some jt" and i: "table_inv env homestead_slots jt"
    using homestead_table by blast
  show ?thesis unfolding newTangerineWhistleInstructionSet_def tangerine_prices_def using i
    by (intro stage_step [OF j])
      (simp_all add: stage_simps homestead_slots_def frontier_slots_def tangerine_slots_def table_rules del: One_nat_def)
qed

definition spurious_slots :: "(byte \<times> operation) list" where
  "spurious_slots = tl tangerine_slots"

definition byzantium_slots :: "(byte \<times> operation) list" where
  "byzantium_slots =
   (OP_STATICCALL, dyn_op opStaticCall CallGasEIP150 gasStaticCall (Some memoryStaticCall) 6 1) # spurious_slots"

definition constantinople_slots :: "(byte \<times> operation) list" where
  "constantinople_slots =
   (OP_EXTCODEHASH, const_op (lift_op opExtCodeHash) ExtcodeHashGasConstantinople 1 1) #
   (OP_CREATE2, dyn_op opCreate2 Create2Gas gasCreate2 (Some memoryCreate2) 4 1) # byzantium_slots"

definition istanbul_slots :: "(byte \<times> operation) list" where
  "istanbul_slots =
   [(OP_BALANCE, const_op (lift_op opBalance) BalanceGasEIP1884 1 1),
    (OP_EXTCODESIZE, const_op (lift_op opExtCodeSize) ExtcodeSizeGasEIP150 1 1),
    (OP_EXTCODEHASH, const_op (lift_op opExtCodeHash) ExtcodeHashGasEIP1884 1 1),
    (OP_EXTCODECOPY, dyn_op (lift_op opExtCodeCopy) ExtcodeCopyBaseEIP150 gasExtCodeCopy (Some memoryExtCodeCopy) 4 0),
    (OP_SLOAD, const_op (lift_op opSload) SloadGasEIP2200 1 1),
    (OP_SSTORE, dyn_op (lift_op opSstore) 0 gasSStoreEIP2200 None 2 0),
    (OP_CREATE, dyn_op opCreate CreateGas gasCreate (Some memoryCreate) 3 1),
    (OP_CREATE2, dyn_op opCreate2 Create2Gas gasCreate2 (Some memoryCreate2) 4 1),
    (OP_CALL, dyn_op opCall CallGasEIP150 gasCall (Some memoryCall) 7 1),
    (OP_CALLCODE, dyn_op opCallCode CallGasEIP150 gasCallCode (Some memoryCall) 7 1),
    (OP_DELEGATECALL, dyn_op opDelegateCall CallGasEIP150 gasDelegateCall (Some memoryDelegateCall) 6 1),
    (OP_STATICCALL, dyn_op opStaticCall CallGasEIP150 gasStaticCall (Some memoryStaticCall) 6 1),
    (OP_SELFDESTRUCT, dyn_op (lift_op opSelfdestruct) 0 gasSelfdestruct None 1 0)]"

definition berlin_slots :: "(byte \<times> operation) list" where
  "berlin_slots =
   [(OP_SSTORE, dyn_op (lift_op opSstore) 0 gasSStoreEIP2929 None 2 0),
    (OP_CREATE, dyn_op opCreate CreateGas gasCreate (Some memoryCreate) 3 1),
    (OP_CREATE2, dyn_op opCreate2 Create2Gas gasCreate2 (Some memoryCreate2) 4 1),
    (OP_SELFDESTRUCT, dyn_op (lift_op opSelfdestruct) SelfdestructGasEIP150 gasSelfdestructEIP2929 None 1 0)]"

definition london_slots :: "(byte \<times> operation) list" where
  "london_slots =
   [(OP_CREATE, dyn_op opCreate CreateGas gasCreate (Some memoryCreate) 3 1),
    (OP_CREATE2, dyn_op opCreate2 Create2Gas gasCreate2 (Some memoryCreate2) 4 1)]"

lemmas slot_lists = tangerine_slots_def spurious_slots_def byzantium_slots_def constantinople_slots_def
  istanbul_slots_def berlin_slots_def london_slots_def

lemma eip2929_rules:
  "priced False gasSStoreEIP2929" "costly gasSStoreEIP2929" "priced False gasSStoreEIP3529" "costly gasSStoreEIP3529"
  "priced False gasSelfdestructEIP2929" "priced False gasSelfdestructEIP3529"
  "rl_IsTangerineWhistle (env_rules env) \<Longrightarrow> call_priced True env gasCallEIP2929"
  "rl_IsTangerineWhistle (env_rules env) \<Longrightarrow> call_priced True env gasCallCodeEIP2929"
  "rl_IsTangerineWhistle (env_rules env) \<Longrightarrow> call_priced False env gasDelegateCallEIP2929"
  "rl_IsTangerineWhistle (env_rules env) \<Longrightarrow> call_priced False env gasStaticCallEIP2929"
  by (simp_all add: gasSStoreEIP2929_def gasSStoreEIP3529_def gasSelfdestructEIP2929_def gasSelfdestructEIP3529_def
      gasCallEIP2929_def gasCallCodeEIP2929_def gasDelegateCallEIP2929_def gasStaticCallEIP2929_def priced_sstore
      costly_sstore priced_access call_variant_priced call_base_call call_base_code call_base_plain)

lemma spurious_table:
  "\<exists>jt. newSpuriousDragonInstructionSet = Some jt \<and> table_inv env spurious_slots jt"
proof -
  obtain jt where j: "newTangerineWhistleInstructionSet = Some jt" and i: "table_inv env tangerine_slots jt"
    using tangerine_table by blast
  show ?thesis unfolding newSpuriousDragonInstructionSet_def using i
    by (intro stage_step [OF j])
      (simp_all add: stage_simps slot_lists table_rules del: One_nat_def)
qed

lemma byzantium_table:
  "\<exists>jt. newByzantiumInstructionSet = Some jt \<and> table_inv env byzantium_slots jt"
proof -
  obtain jt where j: "newSpuriousDragonInstructionSet = Some jt" and i: "table_inv env spurious_slots jt"
    using spurious_table by blast
  show ?thesis unfolding newByzantiumInstructionSet_def byzantium_ops_def using i
    by (intro stage_step [OF j])
      (simp_all add: stage_simps slot_lists table_rules del: One_nat_def)
qed

lemma constantinople_table:
  "\<exists>jt. newConstantinopleInstructionSet = Some jt \<and> table_inv env constantinople_slots jt"
proof -
  obtain jt where j: "newByzantiumInstructionSet = Some jt" and i: "table_inv env byzantium_slots jt"
    using byzantium_table by blast
  show ?thesis unfolding newConstantinopleInstructionSet_def constantinople_ops_def using i
    by (intro stage_step [OF j])
      (simp_all add: stage_simps slot_lists table_rules del: One_nat_def)
qed

lemma istanbul_table:
  "\<exists>jt. newIstanbulInstructionSet = Some jt \<and> table_inv env istanbul_slots jt"
proof -
  obtain jt where j: "newConstantinopleInstructionSet = Some jt" and i: "table_inv env constantinople_slots jt"
    using constantinople_table by blast
  show ?thesis unfolding newIstanbulInstructionSet_def enable2200_def enable1884_def enable1344_def using i
    by (intro stage_step [OF j])
      (simp_all add: stage_simps slot_lists table_rules del: One_nat_def)
qed

lemma enable2929_slots:
  "enable2929 jt = jt(
     OP_SSTORE := (jt OP_SSTORE)\<lparr>op_dynamicGas := Some gasSStoreEIP2929\<rparr>,
     OP_SLOAD := (jt OP_SLOAD)\<lparr>op_constantGas := 0, op_dynamicGas := Some gasSLoadEIP2929\<rparr>,
     OP_EXTCODECOPY := (jt OP_EXTCODECOPY)\<lparr>op_constantGas := 100, op_dynamicGas := Some gasExtCodeCopyEIP2929\<rparr>,
     OP_EXTCODESIZE := (jt OP_EXTCODESIZE)\<lparr>op_constantGas := 100, op_dynamicGas := Some gasEip2929AccountCheck\<rparr>,
     OP_EXTCODEHASH := (jt OP_EXTCODEHASH)\<lparr>op_constantGas := 100, op_dynamicGas := Some gasEip2929AccountCheck\<rparr>,
     OP_BALANCE := (jt OP_BALANCE)\<lparr>op_constantGas := 100, op_dynamicGas := Some gasEip2929AccountCheck\<rparr>,
     OP_CALL := (jt OP_CALL)\<lparr>op_constantGas := 100, op_dynamicGas := Some gasCallEIP2929\<rparr>,
     OP_CALLCODE := (jt OP_CALLCODE)\<lparr>op_constantGas := 100, op_dynamicGas := Some gasCallCodeEIP2929\<rparr>,
     OP_STATICCALL := (jt OP_STATICCALL)\<lparr>op_constantGas := 100, op_dynamicGas := Some gasStaticCallEIP2929\<rparr>,
     OP_DELEGATECALL := (jt OP_DELEGATECALL)\<lparr>op_constantGas := 100, op_dynamicGas := Some gasDelegateCallEIP2929\<rparr>,
     OP_SELFDESTRUCT := (jt OP_SELFDESTRUCT)\<lparr>op_constantGas := 5000, op_dynamicGas := Some gasSelfdestructEIP2929\<rparr>)"
  unfolding enable2929_def by (simp add: Let_def)

lemma berlin_table:
  assumes tw: "rl_IsTangerineWhistle (env_rules env)"
  shows "\<exists>jt. newBerlinInstructionSet = Some jt \<and> table_inv env berlin_slots jt"
proof -
  obtain jt where j: "newIstanbulInstructionSet = Some jt" and i: "table_inv env istanbul_slots jt"
    using istanbul_table by blast
  show ?thesis unfolding newBerlinInstructionSet_def enable2929_slots using i tw
    by (intro stage_step [OF j])
      (simp_all add: stage_simps slot_lists table_rules eip2929_rules del: One_nat_def)
qed

lemma london_table:
  assumes tw: "rl_IsTangerineWhistle (env_rules env)"
  shows "\<exists>jt. newLondonInstructionSet = Some jt \<and> table_inv env london_slots jt"
proof -
  obtain jt where j: "newBerlinInstructionSet = Some jt" and i: "table_inv env berlin_slots jt"
    using berlin_table [OF tw] by blast
  show ?thesis unfolding newLondonInstructionSet_def enable3198_def enable3529_def using i tw
    by (intro stage_step [OF j])
      (simp_all add: stage_simps slot_lists table_rules eip2929_rules del: One_nat_def)
qed

lemma shanghai_table:
  assumes tw: "rl_IsTangerineWhistle (env_rules env)"
  shows "\<exists>jt. newShanghaiInstructionSet = Some jt \<and> table_inv env [] jt"
proof -
  obtain jt where j: "newLondonInstructionSet = Some jt" and i: "table_inv env london_slots jt"
    using london_table [OF tw] by blast
  show ?thesis unfolding newShanghaiInstructionSet_def enable3860_def enable3855_def using i tw
    by (intro stage_step [OF j])
      (simp_all add: stage_simps slot_lists table_rules eip2929_rules del: One_nat_def)
qed

lemma cancun_table:
  assumes tw: "rl_IsTangerineWhistle (env_rules env)"
  shows "\<exists>jt. newCancunInstructionSet = Some jt \<and> table_inv env [] jt"
proof -
  obtain jt where j: "newShanghaiInstructionSet = Some jt" and i: "table_inv env [] jt"
    using shanghai_table [OF tw] by blast
  show ?thesis unfolding newCancunInstructionSet_def using i tw
    by (intro stage_step [OF j])
      (simp_all add: stage_simps slot_lists table_rules eip2929_rules del: One_nat_def)
qed

lemma prague_table:
  assumes tw: "rl_IsTangerineWhistle (env_rules env)"
  shows "\<exists>jt. newPragueInstructionSet = Some jt \<and> table_inv env [] jt"
proof -
  obtain jt where j: "newCancunInstructionSet = Some jt" and i: "table_inv env [] jt"
    using cancun_table [OF tw] by blast
  show ?thesis unfolding newPragueInstructionSet_def using i tw
    by (intro stage_step [OF j])
      (simp_all add: stage_simps slot_lists table_rules eip2929_rules del: One_nat_def)
qed

end
