(* ===== verification/Evm_Props.thy ===== *)
theory Evm_Props
  imports Evm_Tables State_Props
begin

text \<open>
  The interpreter as a whole: it always ends, its result does not depend on the fuel, gas never
  grows, the stack never exceeds 1024 items, and the recorded memory fee is always the fee of the
  memory in use.
\<close>

section \<open>Chosen tables\<close>

text \<open>The forks are cumulative as far as this needs: access-list pricing comes with EIP 150.\<close>

definition rules_fit :: "Rules \<Rightarrow> bool" where
  "rules_fit r \<longleftrightarrow> (rl_IsBerlin r \<or> rl_IsLondon r \<or> rl_IsShanghai r \<or> rl_IsCancun r \<or> rl_IsPrague r \<longrightarrow>
     rl_IsTangerineWhistle r)"

lemma table_inv_weaken: "table_inv env L jt \<Longrightarrow> table_inv env [] jt"
  by (simp add: table_inv_def)

lemma select_table_inv:
  assumes "rules_fit (env_rules env)"
  shows "\<exists>jt. select_table (env_rules env) = Some jt \<and> table_inv env [] jt"
proof -
  have old: "\<exists>jt. t = Some jt \<and> table_inv env [] jt" if "\<exists>jt. t = Some jt \<and> table_inv env L jt" for t L
    using that table_inv_weaken by blast
  have new: "rl_IsTangerineWhistle (env_rules env)"
    if "rl_IsBerlin (env_rules env) \<or> rl_IsLondon (env_rules env) \<or> rl_IsShanghai (env_rules env) \<or>
      rl_IsCancun (env_rules env) \<or> rl_IsPrague (env_rules env)"
    using assms that by (simp add: rules_fit_def)
  show ?thesis unfolding select_table_def
    using old [OF frontier_table] old [OF homestead_table] old [OF tangerine_table] old [OF spurious_table]
      old [OF byzantium_table] old [OF constantinople_table] old [OF istanbul_table]
      old [OF berlin_table [OF new]] old [OF london_table [OF new]] shanghai_table [OF new] cancun_table [OF new]
      prague_table [OF new]
    by simp
qed

lemma table_inv_sound: "table_inv env L jt \<Longrightarrow> op_sound env (jt b)"
  by (rule op_good_sound) (simp add: table_inv_def core_def op_good_core)

section \<open>Rounds\<close>

lemma interp_step_round:
  assumes t: "table_inv env L jt" and good: "good n run" and ok: "mem_ok (sc_Memory sc)"
  shows "round_ok n (sc_gas sc) (length (sc_Stack sc) - op_numPop (jt (GetOp (sc_Contract sc) pc)) +
      op_numPush (jt (GetOp (sc_Contract sc) pc))) (interp_step env jt run pc vm sc)"
proof -
  let ?o = "jt (GetOp (sc_Contract sc) pc)"
  show ?thesis
  proof (cases "length (sc_Stack sc) < op_numPop ?o \<or> op_maxStack ?o < int (length (sc_Stack sc))")
    case True
    then show ?thesis by (auto simp: interp_step_def round_ok_def st_Len_def Let_def)
  next
    case False
    then have "interp_step env jt run pc vm sc = op_step env ?o run pc vm sc"
      by (simp add: interp_step_def st_Len_def Let_def)
    then show ?thesis using table_inv_sound [OF t, of "GetOp (sc_Contract sc) pc"] good ok False
      by (simp add: op_sound_def)
  qed
qed

text \<open>A round that goes on found room on the stack.\<close>

lemma interp_step_stack:
  assumes t: "table_inv env L jt" and good: "good n run" and ok: "mem_ok (sc_Memory sc)"
    and s: "interp_step env jt run pc vm sc = Ret (Continue res pc' vm' sc')"
  shows "length (sc_Stack sc') \<le> StackLimit \<and> mem_ok (sc_Memory sc') \<and> sc_gas sc' < sc_gas sc"
proof -
  let ?o = "jt (GetOp (sc_Contract sc) pc)"
  have r: "sc_gas sc' < sc_gas sc" "mem_ok (sc_Memory sc')"
      "length (sc_Stack sc') = length (sc_Stack sc) - op_numPop ?o + op_numPush ?o"
    using interp_step_round [OF t good ok, of pc vm] s by (auto simp: round_ok_def)
  have "op_maxStack ?o = maxStack (op_numPop ?o) (op_numPush ?o)" using t by (simp add: table_inv_def)
  moreover have "op_numPop ?o \<le> length (sc_Stack sc)" "int (length (sc_Stack sc)) \<le> op_maxStack ?o"
    using s by (auto simp: interp_step_def st_Len_def Let_def not_less split: if_splits)
  ultimately show ?thesis using r by (simp add: maxStack_def)
qed

section \<open>Termination\<close>

lemma run_frame_good:
  assumes "\<And>vm sc. mem_ok (sc_Memory sc) \<Longrightarrow> (sc_gas sc < n \<longrightarrow> loop vm sc \<noteq> NoFuel) \<and>
      (\<forall>r vm' sc'. loop vm sc = Ret (r, vm', sc') \<longrightarrow> sc_gas sc' \<le> sc_gas sc)"
  shows "good n (run_frame loop)"
  unfolding good_def
proof (intro allI)
  fix c :: Contract and input ro and vm :: EVM
  let ?vm = "vm\<lparr>evm_depth := evm_depth vm + 1, evm_readOnly := (evm_readOnly vm \<or> ro \<and> \<not> evm_readOnly vm),
                        evm_returnData := []\<rparr>"
  let ?sc = "\<lparr>sc_Memory = mem_Reset NewMemory, sc_Stack = [], sc_Contract = c\<lparr>ct_Input := input\<rparr>\<rparr>"
  note l = assms [of ?sc ?vm]
  show "(unat (ct_Gas c) < n \<longrightarrow> run_frame loop c input ro vm \<noteq> NoFuel) \<and>
     (\<forall>r c' vm'. run_frame loop c input ro vm = Ret (r, c', vm') \<longrightarrow> unat (ct_Gas c') \<le> unat (ct_Gas c))"
    using l by (auto simp: run_frame_def Let_def mem_ok_Reset res_bind_Ret res_bind_NoFuel split: prod.splits)
qed

lemma interp_loop_ok:
  assumes t: "table_inv env L jt"
  shows "mem_ok (sc_Memory sc) \<Longrightarrow>
    (sc_gas sc < n \<longrightarrow> interp_loop n env jt steps res pc vm sc \<noteq> NoFuel) \<and>
    (\<forall>r vm' sc'. interp_loop n env jt steps res pc vm sc = Ret (r, vm', sc') \<longrightarrow> sc_gas sc' \<le> sc_gas sc)"
proof (induction n arbitrary: steps res pc vm sc)
  case 0
  then show ?case by simp
next
  case (Suc n)
  let ?run = "run_frame (interp_loop n env jt 0 [] 0)"
  have good: "good n ?run" by (rule run_frame_good) (rule Suc.IH)
  have r: "round_ok n (sc_gas sc) (length (sc_Stack sc) - op_numPop (jt (GetOp (sc_Contract sc) pc)) +
      op_numPush (jt (GetOp (sc_Contract sc) pc))) (interp_step env jt ?run pc vm sc)"
    by (rule interp_step_round [OF t good Suc.prems])
  show ?case
  proof (cases "interp_step env jt ?run pc vm sc")
    case NoFuel
    then show ?thesis using r by (simp add: round_ok_def)
  next
    case Panic
    then show ?thesis by simp
  next
    case (Ret x)
    show ?thesis
    proof (cases x)
      case (Halt res' err vm' sc')
      then show ?thesis using Ret r by (simp add: round_ok_def)
    next
      case (Continue res' pc' vm' sc')
      then have k: "sc_gas sc' < sc_gas sc" "mem_ok (sc_Memory sc')" using Ret r by (simp_all add: round_ok_def)
      have ih: "(sc_gas sc' < n \<longrightarrow> interp_loop n env jt (Suc steps) res' pc' vm' sc' \<noteq> NoFuel) \<and>
          (\<forall>r vm1 sc1. interp_loop n env jt (Suc steps) res' pc' vm' sc' = Ret (r, vm1, sc1) \<longrightarrow> sc_gas sc1 \<le> sc_gas sc')"
        by (rule Suc.IH [OF k(2)])
      then show ?thesis using Ret Continue k(1) by auto
    qed
  qed
qed

lemma Run_good: "table_inv env L jt \<Longrightarrow> good n (Run n env jt)"
  unfolding Run_def by (rule run_frame_good) (rule interp_loop_ok)

section \<open>Fuel does not change the result\<close>

definition res_le :: "'a res \<Rightarrow> 'a res \<Rightarrow> bool" where
  "res_le a b \<longleftrightarrow> a = NoFuel \<or> a = b"

definition run_le :: "run_fn \<Rightarrow> run_fn \<Rightarrow> bool" where
  "run_le run run' \<longleftrightarrow> (\<forall>c input ro vm. res_le (run c input ro vm) (run' c input ro vm))"

named_theorems fuel_mono \<open>constructs that respect the order by fuel\<close>

lemma res_le_refl [fuel_mono]: "res_le a a"
  by (simp add: res_le_def)

lemma res_le_bind [fuel_mono]:
  "res_le a b \<Longrightarrow> (\<And>x. res_le (f x) (g x)) \<Longrightarrow> res_le (res_bind a f) (res_bind b g)"
  unfolding res_le_def by (cases a) fastforce+

lemma res_le_if [fuel_mono]: "res_le a a' \<Longrightarrow> res_le b b' \<Longrightarrow> res_le (if c then a else b) (if c then a' else b')"
  by simp

lemma res_le_prod [fuel_mono]: "(\<And>x y. res_le (f x y) (g x y)) \<Longrightarrow> res_le (case_prod f p) (case_prod g p)"
  by (cases p) simp

lemma res_le_option [fuel_mono]:
  "res_le a a' \<Longrightarrow> (\<And>x. res_le (f x) (g x)) \<Longrightarrow> res_le (case_option a f p) (case_option a' g p)"
  by (cases p) simp_all

lemma res_le_step [fuel_mono]:
  "(\<And>a b c d. res_le (f a b c d) (f' a b c d)) \<Longrightarrow> (\<And>a b c d. res_le (g a b c d) (g' a b c d)) \<Longrightarrow>
   res_le (case_step_result f g r) (case_step_result f' g' r)"
  by (cases r) simp_all

lemma res_le_let [fuel_mono]: "(\<And>x. res_le (f x) (g x)) \<Longrightarrow> res_le (Let a f) (Let a g)"
  by (simp add: Let_def)

lemma run_leD: "run_le run run' \<Longrightarrow> res_le (run c input ro vm) (run' c input ro vm)"
  by (simp add: run_le_def)

lemma evm_call_mono [fuel_mono]:
  "run_le run run' \<Longrightarrow> res_le (evm_call env run typ caller addr input gas v b vm) (evm_call env run' typ caller addr input gas v b vm)"
  unfolding evm_call_def call_body_def by (intro fuel_mono run_leD)

lemma evm_create_mono [fuel_mono]:
  "run_le run run' \<Longrightarrow> res_le (evm_create env run caller ch gas v a i vm) (evm_create env run' caller ch gas v a i vm)"
  unfolding evm_create_def by (intro fuel_mono run_leD)

lemma opCall_mono: "run_le run run' \<Longrightarrow> res_le (opCall env run pc vm sc) (opCall env run' pc vm sc)"
  unfolding opCall_def Call_def by (intro fuel_mono)

lemma opCallCode_mono: "run_le run run' \<Longrightarrow> res_le (opCallCode env run pc vm sc) (opCallCode env run' pc vm sc)"
  unfolding opCallCode_def CallCode_def by (intro fuel_mono)

lemma opDelegateCall_mono:
  "run_le run run' \<Longrightarrow> res_le (opDelegateCall env run pc vm sc) (opDelegateCall env run' pc vm sc)"
  unfolding opDelegateCall_def DelegateCall_def by (intro fuel_mono)

lemma opStaticCall_mono:
  "run_le run run' \<Longrightarrow> res_le (opStaticCall env run pc vm sc) (opStaticCall env run' pc vm sc)"
  unfolding opStaticCall_def StaticCall_def by (intro fuel_mono)

lemma opCreate_mono: "run_le run run' \<Longrightarrow> res_le (opCreate env run pc vm sc) (opCreate env run' pc vm sc)"
  unfolding opCreate_def Create_def by (intro fuel_mono)

lemma opCreate2_mono: "run_le run run' \<Longrightarrow> res_le (opCreate2 env run pc vm sc) (opCreate2 env run' pc vm sc)"
  unfolding opCreate2_def Create2_def by (intro fuel_mono)

lemmas exec_mono = opCall_mono opCallCode_mono opDelegateCall_mono opStaticCall_mono opCreate_mono opCreate2_mono

lemma op_good_mono:
  assumes "op_good env o'" "run_le run run'"
  shows "res_le (op_execute o' env run pc vm sc) (op_execute o' env run' pc vm sc)"
proof -
  consider f where "op_execute o' = lift_op f"
    | "op_execute o' \<in> {opCall, opCallCode, opDelegateCall, opStaticCall, opCreate, opCreate2}"
    using assms(1) by (auto simp: op_good_def pure_sound_def call_sound_def create_sound_def)
  then show ?thesis
  proof cases
    case 1
    then show ?thesis by (simp add: lift_op_def res_le_refl)
  next
    case 2
    then show ?thesis using exec_mono [OF assms(2)] by auto
  qed
qed

lemma op_step_mono:
  "op_good env o' \<Longrightarrow> run_le run run' \<Longrightarrow> res_le (op_step env o' run pc vm sc) (op_step env o' run' pc vm sc)"
  unfolding op_step_def by (intro fuel_mono op_good_mono)

lemma interp_step_mono:
  assumes t: "table_inv env L jt" and le: "run_le run run'"
  shows "res_le (interp_step env jt run pc vm sc) (interp_step env jt run' pc vm sc)"
proof -
  have "op_good env (jt b)" for b using t by (simp add: table_inv_def core_def op_good_core)
  from op_step_mono [OF this le] show ?thesis
    unfolding interp_step_def Let_def by (intro fuel_mono)
qed

lemma run_frame_mono:
  assumes "\<And>vm sc. res_le (loop vm sc) (loop' vm sc)"
  shows "run_le (run_frame loop) (run_frame loop')"
  unfolding run_le_def run_frame_def by (intro allI fuel_mono assms)

lemma interp_loop_mono:
  assumes t: "table_inv env L jt"
  shows "n \<le> m \<Longrightarrow> res_le (interp_loop n env jt steps res pc vm sc) (interp_loop m env jt steps res pc vm sc)"
proof (induction n arbitrary: m steps res pc vm sc)
  case 0
  then show ?case by (simp add: res_le_def)
next
  case (Suc n)
  then obtain k where k: "m = Suc k" "n \<le> k" by (cases m) auto
  have "run_le (run_frame (interp_loop n env jt 0 [] 0)) (run_frame (interp_loop k env jt 0 [] 0))"
    by (rule run_frame_mono) (rule Suc.IH [OF k(2)])
  then show ?case unfolding k interp_loop.simps
    by (intro fuel_mono Suc.IH [OF k(2)] interp_step_mono [OF t])
qed

lemma Run_mono: "table_inv env L jt \<Longrightarrow> n \<le> m \<Longrightarrow> run_le (Run n env jt) (Run m env jt)"
  unfolding Run_def by (rule run_frame_mono) (rule interp_loop_mono)

lemma Run_fuel_enough:
  assumes "table_inv env L jt" "unat (ct_Gas c) < n" "n \<le> m"
  shows "Run m env jt c input ro vm = Run n env jt c input ro vm"
  using Run_mono [OF assms(1,3)] Run_good [OF assms(1)] assms(2)
  by (metis good_def run_le_def res_le_def)

section \<open>Frames\<close>

text \<open>
  The frames a run of a contract goes through, counted: the first one is empty, and every round of
  the loop that does not end leads to the next.
\<close>

definition first_frame :: "Contract \<Rightarrow> byte list \<Rightarrow> ScopeContext" where
  "first_frame c input = \<lparr>sc_Memory = mem_Reset NewMemory, sc_Stack = [], sc_Contract = c\<lparr>ct_Input := input\<rparr>\<rparr>"

inductive frame_reach ::
  "Env \<Rightarrow> JumpTable \<Rightarrow> run_fn \<Rightarrow> EVM \<Rightarrow> ScopeContext \<Rightarrow> nat \<Rightarrow> u64 \<Rightarrow> EVM \<Rightarrow> ScopeContext \<Rightarrow> bool"
  for env jt run vm0 sc0 where
  start: "frame_reach env jt run vm0 sc0 0 0 vm0 sc0"
| round: "frame_reach env jt run vm0 sc0 k pc vm sc \<Longrightarrow>
    interp_step env jt run pc vm sc = Ret (Continue res pc' vm' sc') \<Longrightarrow>
    frame_reach env jt run vm0 sc0 (Suc k) pc' vm' sc'"

lemma frame_reach_inv:
  assumes "frame_reach env jt run vm0 (first_frame c input) k pc vm sc" "table_inv env L jt" "good n run"
  shows "length (sc_Stack sc) \<le> StackLimit \<and> mem_ok (sc_Memory sc) \<and> k + sc_gas sc \<le> unat (ct_Gas c)"
  using assms(1)
proof induction
  case start
  then show ?case by (simp add: first_frame_def mem_ok_Reset)
next
  case (round k pc vm sc res pc' vm' sc')
  then show ?case using interp_step_stack [OF assms(2,3) _ round.hyps(2)] by auto
qed

section \<open>Properties\<close>

lemma NewEVMInterpreter_inv:
  assumes "rules_fit (env_rules env)" "cfg_ExtraEips (env_config env) = []"
  shows "\<exists>jt. NewEVMInterpreter (env_rules env) (env_config env) = Some (jt, []) \<and> table_inv env [] jt"
  using select_table_inv [OF assms(1)] assms(2) by (auto simp: NewEVMInterpreter_def)

lemma interpreter_table:
  assumes "rules_fit (env_rules env)" "cfg_ExtraEips (env_config env) = []"
    "NewEVMInterpreter (env_rules env) (env_config env) = Some (jt, eips)"
  shows "table_inv env [] jt"
  using NewEVMInterpreter_inv [OF assms(1,2)] assms(3) by auto

text \<open>A London chain with the node's transfer functions and no precompiled contract, a contract to run on it.\<close>

definition demo_rules :: Rules where
  "demo_rules = \<lparr>rl_ChainID = 97, rl_IsHomestead = True, rl_IsTangerineWhistle = True, rl_IsSpuriousDragon = True,
     rl_IsByzantium = True, rl_IsConstantinople = True, rl_IsPetersburg = True, rl_IsIstanbul = True,
     rl_IsBerlin = True, rl_IsLondon = True, rl_IsShanghai = False, rl_IsCancun = False, rl_IsPrague = False,
     rl_IsNano = False, rl_IsMoran = False, rl_IsEip1559FeeCollector = False, rl_IsParlia = False,
     rl_IsStarknet = False, rl_IsAura = False, rl_IsBeijing = False\<rparr>"

definition demo_config :: Config where
  "demo_config = \<lparr>cfg_NoRecursion = False, cfg_NoBaseFee = False, cfg_SkipAnalysis = False,
     cfg_RestoreState = False, cfg_ExtraEips = []\<rparr>"

definition demo_env :: Env where
  "demo_env = \<lparr>env_context = \<lparr>bc_CanTransfer = CanTransfer, bc_Transfer = Transfer, bc_GetHash = (\<lambda>_. 0),
       bc_Coinbase = 1, bc_GasLimit = 30000000, bc_MaxGasLimit = False, bc_BlockNumber = 10, bc_Time = 20,
       bc_Difficulty = Some 1, bc_BaseFee = Some 7, bc_PrevRanDao = None\<rparr>,
     env_txContext = \<lparr>tx_TxHash = 0, tx_Origin = 9, tx_GasPrice = Some 7\<rparr>,
     env_rules = demo_rules, env_config = demo_config, env_precompile = (\<lambda>_. None)\<rparr>"

definition demo_vm :: EVM where
  "demo_vm = \<lparr>evm_ibs = New demo_ext demo_reader, evm_callGasTemp = 0, evm_abort = False, evm_readOnly = False,
     evm_returnData = [], evm_depth = 0, evm_jumpdests = Map.empty\<rparr>"

text \<open>\<^verbatim>\<open>JUMPDEST PUSH1 0 JUMP\<close>, a loop, with 100 units of gas.\<close>

definition demo_contract :: Contract where
  "demo_contract = \<lparr>ct_CallerAddress = 9, ct_caller = AccountRef 9, ct_self = 7, ct_analysis = None,
     ct_skipAnalysis = False, ct_Code = [0x5b, 0x60, 0, 0x56], ct_CodeHash = 0, ct_CodeAddr = Some 7,
     ct_Input = [], ct_Gas = 100, ct_value = Some 0\<rparr>"

lemma demo_fits: "rules_fit (env_rules demo_env)" "cfg_ExtraEips (env_config demo_env) = []"
  by (simp_all add: rules_fit_def demo_env_def demo_rules_def demo_config_def)

text \<open>The same node before any fork, and \<^verbatim>\<open>JUMPDEST STOP\<close> to run on it.\<close>

definition frontier_rules :: Rules where
  "frontier_rules = demo_rules\<lparr>rl_IsHomestead := False, rl_IsTangerineWhistle := False, rl_IsSpuriousDragon := False,
     rl_IsByzantium := False, rl_IsConstantinople := False, rl_IsPetersburg := False, rl_IsIstanbul := False,
     rl_IsBerlin := False, rl_IsLondon := False\<rparr>"

definition old_env :: Env where
  "old_env = demo_env\<lparr>env_rules := frontier_rules\<rparr>"

definition stop_contract :: Contract where
  "stop_contract = demo_contract\<lparr>ct_Code := [0x5b, 0]\<rparr>"

lemma old_fits: "rules_fit (env_rules old_env)" "cfg_ExtraEips (env_config old_env) = []"
  "env_rules old_env = frontier_rules" "env_config old_env = demo_config"
  by (simp_all add: rules_fit_def old_env_def frontier_rules_def demo_env_def demo_rules_def demo_config_def)

lemma old_table:
  obtains jt where "NewEVMInterpreter frontier_rules demo_config = Some (jt, [])"
    "jt 0 = (const_op (lift_op opStop) 0 0 0)\<lparr>op_maxStack := 1024\<rparr>"
    "jt 0x5b = (const_op (lift_op opJumpdest) 1 0 0)\<lparr>op_maxStack := 1024\<rparr>"
    "jt 0x58 = (const_op (lift_op opPc) GasQuickStep 0 1)\<lparr>op_maxStack := 1023\<rparr>"
proof -
  obtain jt where jt: "newFrontierInstructionSet = Some jt" using frontier_table by blast
  have "NewEVMInterpreter frontier_rules demo_config = Some (jt, [])"
    by (simp add: NewEVMInterpreter_def select_table_def frontier_rules_def demo_rules_def demo_config_def jt)
  moreover have m: "map_of frontier_ops 0 = Some (const_op (lift_op opStop) 0 0 0)"
    "map_of frontier_ops 0x5b = Some (const_op (lift_op opJumpdest) 1 0 0)"
    "map_of frontier_ops 0x58 = Some (const_op (lift_op opPc) GasQuickStep 0 1)"
    by (simp_all add: frontier_ops_def frontier_arith_def frontier_env_def frontier_mem_def OP_JUMPDEST_def)
  ultimately show thesis using that jt
    by (auto simp: newFrontierInstructionSet_def validateAndFillMaxStack_def const_op_def maxStack_def split: if_splits)
qed

lemma old_steps:
  assumes "jt 0 = (const_op (lift_op opStop) 0 0 0)\<lparr>op_maxStack := 1024\<rparr>"
    "jt 0x5b = (const_op (lift_op opJumpdest) 1 0 0)\<lparr>op_maxStack := 1024\<rparr>"
  shows "\<exists>vm' sc'. interp_step old_env jt run 0 vm (first_frame stop_contract []) = Ret (Continue [] 1 vm' sc')"
    "\<exists>c' vm'. Run (Suc (Suc n)) old_env jt stop_contract [] False demo_vm = Ret (([], None), c', vm')"
  using assms by (simp_all add: interp_step_def op_step_def charge_dynamic_def GetOp_def UseGas_def lift_op_def const_op_def
      opStop_def opJumpdest_def first_frame_def stop_contract_def demo_contract_def st_Len_def Run_def run_frame_def demo_vm_def)

text \<open>\<^verbatim>\<open>JUMPDEST PC STOP\<close> on the same node: two rounds lead to a stack of one item.\<close>

definition pc_contract :: Contract where
  "pc_contract = demo_contract\<lparr>ct_Code := [0x5b, 0x58, 0]\<rparr>"

lemma pc_rounds:
  assumes "jt 0x5b = (const_op (lift_op opJumpdest) 1 0 0)\<lparr>op_maxStack := 1024\<rparr>"
    "jt 0x58 = (const_op (lift_op opPc) GasQuickStep 0 1)\<lparr>op_maxStack := 1023\<rparr>"
  shows "\<exists>vm sc. frame_reach old_env jt run demo_vm (first_frame pc_contract []) 2 2 vm sc \<and> st_Len (sc_Stack sc) = 1"
proof -
  let ?sc = "(first_frame pc_contract [])\<lparr>sc_Contract := (sc_Contract (first_frame pc_contract []))\<lparr>ct_Gas := 99\<rparr>\<rparr>"
  have r: "interp_step old_env jt run 0 demo_vm (first_frame pc_contract []) = Ret (Continue [] 1 demo_vm ?sc)"
    using assms(1) by (simp add: interp_step_def op_step_def charge_dynamic_def GetOp_def UseGas_def lift_op_def const_op_def
        opJumpdest_def first_frame_def pc_contract_def demo_contract_def st_Len_def)
  have "\<exists>vm sc. interp_step old_env jt run 1 demo_vm ?sc = Ret (Continue [] 2 vm sc) \<and> st_Len (sc_Stack sc) = 1"
    using assms(2) by (simp add: interp_step_def op_step_def charge_dynamic_def GetOp_def UseGas_def lift_op_def const_op_def
        opPc_def push_value_def st_Push_def first_frame_def pc_contract_def demo_contract_def st_Len_def)
  then show ?thesis
    using frame_reach.round [OF frame_reach.round [OF frame_reach.start r]] by (metis One_nat_def Suc_1)
qed

text \<open>
  C9: on a chain whose forks come in order (none from Berlin on is active without EIP 150), and with no
  extra EIPs configured, the interpreter is always built, and a run of it ends:
  with more rounds allowed than the contract has gas the loop never runs out of them, and allowing
  more changes nothing. This covers every contract, every nested call and creation and every
  instruction table, endless loops in the code included.
\<close>

theorem Run_terminates:
  assumes "rules_fit (env_rules env)" "cfg_ExtraEips (env_config env) = []"
  shows "\<exists>jt. NewEVMInterpreter (env_rules env) (env_config env) = Some (jt, []) \<and>
    (\<forall>fuel c input ro vm. unat (ct_Gas c) < fuel \<longrightarrow> Run fuel env jt c input ro vm \<noteq> NoFuel \<and>
       (\<forall>k. Run (fuel + k) env jt c input ro vm = Run fuel env jt c input ro vm))"
proof -
  obtain jt where jt: "NewEVMInterpreter (env_rules env) (env_config env) = Some (jt, [])" "table_inv env [] jt"
    using NewEVMInterpreter_inv [OF assms] by blast
  have "Run fuel env jt c input ro vm \<noteq> NoFuel" if "unat (ct_Gas c) < fuel" for fuel c input ro vm
    using Run_good [OF jt(2), of fuel] that by (simp add: good_def)
  then show ?thesis using jt Run_fuel_enough [OF jt(2)] by (metis le_add1)
qed

theorem Run_terminates_witness:
  "\<exists>jt. NewEVMInterpreter demo_rules demo_config = Some (jt, []) \<and>
     Run 101 demo_env jt demo_contract [] False demo_vm \<noteq> NoFuel"
proof -
  have "unat (ct_Gas demo_contract) < 101" by (simp add: demo_contract_def)
  then show ?thesis using Run_terminates [OF demo_fits]
    by (metis Env.select_convs(3,4) demo_env_def)
qed

text \<open>
  C10: on a chain whose forks come in order, and with no extra EIPs configured, no execution ends with
  more gas than it was given. A frame never gains gas, and what a call or a creation hands back is at
  most what was passed to it, although the caller's gas is increased by unchecked additions.
\<close>

theorem gas_never_grows:
  assumes "rules_fit (env_rules env)" "cfg_ExtraEips (env_config env) = []"
    and "NewEVMInterpreter (env_rules env) (env_config env) = Some (jt, eips)"
  shows "(Run fuel env jt c input ro vm = Ret ((ret, err), c', vm') \<longrightarrow> ct_Gas c' \<le> ct_Gas c) \<and>
    (evm_call env (Run fuel env jt) typ caller addr input gas v bailout vm = Ret ((ret, left, err), vm') \<longrightarrow> left \<le> gas) \<and>
    (evm_create env (Run fuel env jt) caller ch gas w addr inc vm = Ret ((ret, a, left, err), vm') \<longrightarrow> left \<le> gas)"
proof -
  have g: "good fuel (Run fuel env jt)" by (rule Run_good [OF interpreter_table [OF assms]])
  show ?thesis
    using goodD [OF g, of c "input" ro vm] evm_call_gas [OF g, of gas env "typ" caller addr "input" v bailout vm]
      evm_create_gas [OF g, of gas env caller ch w addr inc vm]
    by (auto simp: gas_back_def word_le_nat_alt)
qed

theorem gas_never_grows_witness:
  "\<exists>jt c' vm'. NewEVMInterpreter frontier_rules demo_config = Some (jt, []) \<and>
     Run 101 old_env jt stop_contract [] False demo_vm = Ret (([], None), c', vm') \<and> ct_Gas c' \<le> 100"
proof -
  obtain jt where jt: "NewEVMInterpreter frontier_rules demo_config = Some (jt, [])"
    "jt 0 = (const_op (lift_op opStop) 0 0 0)\<lparr>op_maxStack := 1024\<rparr>"
    "jt 0x5b = (const_op (lift_op opJumpdest) 1 0 0)\<lparr>op_maxStack := 1024\<rparr>"
    by (rule old_table)
  obtain c' vm' where r: "Run 101 old_env jt stop_contract [] False demo_vm = Ret (([], None), c', vm')"
    using old_steps(2) [OF jt(2,3), of 99] by auto
  have "ct_Gas c' \<le> ct_Gas stop_contract"
    using gas_never_grows [OF old_fits(1,2), of jt "[]" 101 stop_contract "[]" False demo_vm "[]" None c' vm'] jt(1) r
    by (simp add: old_fits)
  then show ?thesis using jt(1) r by (auto simp: stop_contract_def demo_contract_def)
qed

text \<open>
  C11: on a chain whose forks come in order, and with no extra EIPs configured, take any state that
  rounds of the interpreter lead to from the start of a contract, its nested calls and creations
  included: the stack has at most 1024 items, the memory is a whole number of words whose quadratic
  fee is exactly the one recorded as paid, and each round has cost at least one unit of gas.
\<close>

theorem frame_invariant:
  assumes "rules_fit (env_rules env)" "cfg_ExtraEips (env_config env) = []"
    and "NewEVMInterpreter (env_rules env) (env_config env) = Some (jt, eips)"
    and "frame_reach env jt (Run fuel env jt) vm0 (first_frame c input) k pc vm sc"
  shows "st_Len (sc_Stack sc) \<le> 1024 \<and> k + unat (ct_Gas (sc_Contract sc)) \<le> unat (ct_Gas c) \<and>
    (\<exists>w. mem_Len (sc_Memory sc) = 32 * w \<and> unat (m_lastGasCost (sc_Memory sc)) = 3 * w + w * w div 512)"
proof -
  have t: "table_inv env [] jt" by (rule interpreter_table [OF assms(1-3)])
  show ?thesis using frame_reach_inv [OF assms(4) t Run_good [OF t]]
    by (auto simp: mem_ok_def mem_fee_def st_Len_def)
qed

theorem frame_invariant_witness:
  "\<exists>jt vm sc. NewEVMInterpreter frontier_rules demo_config = Some (jt, []) \<and>
     frame_reach old_env jt (Run 101 old_env jt) demo_vm (first_frame pc_contract []) 2 2 vm sc \<and>
     st_Len (sc_Stack sc) = 1 \<and> 2 + unat (ct_Gas (sc_Contract sc)) \<le> 100"
proof -
  obtain jt where jt: "NewEVMInterpreter frontier_rules demo_config = Some (jt, [])"
    "jt 0 = (const_op (lift_op opStop) 0 0 0)\<lparr>op_maxStack := 1024\<rparr>"
    "jt 0x5b = (const_op (lift_op opJumpdest) 1 0 0)\<lparr>op_maxStack := 1024\<rparr>"
    "jt 0x58 = (const_op (lift_op opPc) GasQuickStep 0 1)\<lparr>op_maxStack := 1023\<rparr>"
    by (rule old_table)
  obtain vm sc where s: "frame_reach old_env jt (Run 101 old_env jt) demo_vm (first_frame pc_contract []) 2 2 vm sc"
      "st_Len (sc_Stack sc) = 1"
    using pc_rounds [OF jt(3,4)] by blast
  have "2 + unat (ct_Gas (sc_Contract sc)) \<le> unat (ct_Gas pc_contract)"
    using frame_invariant [OF old_fits(1,2) _ s(1), of "[]"] jt(1) by (simp add: old_fits)
  then show ?thesis using jt(1) s by (auto simp: pc_contract_def demo_contract_def)
qed

text \<open>
  C12: the jump tables are typed. On a chain whose forks come in order, with no extra EIPs configured,
  and from a state whose memory is paid for, the declared stack limit of an instruction follows
  from the operands it declares, and a round that goes on has executed an instruction that found its
  operands and room for its results, and that took and left exactly the declared numbers.
\<close>

theorem instruction_stack_effect:
  assumes "rules_fit (env_rules env)" "cfg_ExtraEips (env_config env) = []"
    and "NewEVMInterpreter (env_rules env) (env_config env) = Some (jt, eips)"
    and "o' = jt (GetOp (sc_Contract sc) pc)" "mem_ok (sc_Memory sc)"
    and "interp_step env jt (Run fuel env jt) pc vm sc = Ret (Continue res pc' vm' sc')"
  shows "op_numPop o' \<le> st_Len (sc_Stack sc) \<and> int (st_Len (sc_Stack sc)) \<le> op_maxStack o' \<and>
    op_maxStack o' = 1024 + int (op_numPop o') - int (op_numPush o') \<and>
    st_Len (sc_Stack sc') + op_numPop o' = st_Len (sc_Stack sc) + op_numPush o'"
proof -
  have t: "table_inv env [] jt" by (rule interpreter_table [OF assms(1-3)])
  have "op_maxStack o' = maxStack (op_numPop o') (op_numPush o')" using t assms(4) by (simp add: table_inv_def)
  moreover have k: "op_numPop o' \<le> length (sc_Stack sc)" "int (length (sc_Stack sc)) \<le> op_maxStack o'"
    using assms(4,6) by (auto simp: interp_step_def st_Len_def Let_def not_less split: if_splits)
  moreover have "length (sc_Stack sc') = length (sc_Stack sc) - op_numPop o' + op_numPush o'"
    using interp_step_round [OF t Run_good [OF t, of fuel] assms(5), of pc vm] assms(4,6) by (simp add: round_ok_def)
  ultimately show ?thesis by (simp add: st_Len_def maxStack_def)
qed

theorem instruction_stack_effect_witness:
  "\<exists>jt sc'. NewEVMInterpreter frontier_rules demo_config = Some (jt, []) \<and>
     op_maxStack (jt (GetOp stop_contract 0)) = 1024 \<and> st_Len (sc_Stack sc') = 0 \<and>
     (\<exists>vm'. interp_step old_env jt (Run 101 old_env jt) 0 demo_vm (first_frame stop_contract []) = Ret (Continue [] 1 vm' sc'))"
proof -
  obtain jt where jt: "NewEVMInterpreter frontier_rules demo_config = Some (jt, [])"
    "jt 0 = (const_op (lift_op opStop) 0 0 0)\<lparr>op_maxStack := 1024\<rparr>"
    "jt 0x5b = (const_op (lift_op opJumpdest) 1 0 0)\<lparr>op_maxStack := 1024\<rparr>"
    by (rule old_table)
  let ?sc = "first_frame stop_contract []"
  obtain vm' sc' where s: "interp_step old_env jt (Run 101 old_env jt) 0 demo_vm ?sc = Ret (Continue [] 1 vm' sc')"
    using old_steps(1) [OF jt(2,3)] by blast
  have m: "mem_ok (sc_Memory ?sc)" by (simp add: first_frame_def mem_ok_Reset)
  have g: "jt (GetOp stop_contract 0) = (const_op (lift_op opJumpdest) 1 0 0)\<lparr>op_maxStack := 1024\<rparr>"
    using jt by (simp add: GetOp_def stop_contract_def)
  have "st_Len (sc_Stack sc') = 0"
    using instruction_stack_effect [OF old_fits(1,2) _ refl m s, of "[]"] jt
    by (simp add: old_fits first_frame_def st_Len_def GetOp_def stop_contract_def const_op_def)
  then show ?thesis using jt(1) g s by (auto simp: const_op_def)
qed

end
