(* ===== verification/Rlp_Props.thy ===== *)
theory Rlp_Props
  imports Rlp
begin

text \<open>
  The encoder against the definition of RLP: the buffer with separate list headers writes exactly
  the recursive encoding, splitting an encoding gives back what was encoded, the three ways of
  writing an integer agree, and the encoding determines the value.
\<close>

section \<open>Integers\<close>

lemma word_to_bytes_Suc:
  fixes w :: u64
  shows "word_to_bytes (Suc k) w = word_to_bytes k (drop_bit 8 w) @ [ucast w]"
  by (auto simp: word_to_bytes_def drop_bit_drop_bit intro!: arg_cong [where f = ucast] arg_cong2 [where f = drop_bit])

lemma be_u64_snoc: "be_u64 (bs @ [b]) = be_u64 bs * 256 + ucast b"
  by (simp add: be_u64_def)

lemma unat_low_byte: "unat (ucast (ucast w :: byte) :: u64) = unat (w :: u64) mod 256"
  by (simp add: unsigned_ucast_eq take_bit_take_bit) (simp add: take_bit_eq_mod unat_mod_distrib)

lemma unat_drop: "unat (drop_bit n (w :: u64)) = unat w div 2 ^ n"
  unfolding unat_drop_bit_eq by (rule drop_bit_eq_div)

lemma be_u64_word_to_bytes: "unat w < 2 ^ (8 * k) \<Longrightarrow> be_u64 (word_to_bytes k w) = w"
proof (induction k arbitrary: w)
  case 0
  then show ?case by (simp add: be_u64_def word_to_bytes_def unat_eq_zero)
next
  case (Suc k)
  have d: "unat (drop_bit 8 w) = unat w div 256" using unat_drop [of 8 w] by simp
  have "unat (drop_bit 8 w) < 2 ^ (8 * k)"
    using Suc.prems unfolding d by (simp add: div_less_iff_less_mult power_add mult.commute)
  then have "be_u64 (word_to_bytes (Suc k) w) = drop_bit 8 w * 256 + ucast (ucast w :: byte)"
    using Suc.IH by (simp add: word_to_bytes_Suc be_u64_snoc)
  also have "\<dots> = of_nat (unat (drop_bit 8 w) * 256 + unat (ucast (ucast w :: byte) :: u64))" by simp
  also have "\<dots> = of_nat (unat w)" unfolding d unat_low_byte div_mult_mod_eq ..
  also have "\<dots> = w" by simp
  finally show ?case .
qed

lemma hd_word_to_bytes:
  fixes w :: u64
  assumes "0 < k" "2 ^ (8 * (k - 1)) \<le> unat w" "unat w < 2 ^ (8 * k)"
  shows "hd (word_to_bytes k w) \<noteq> 0"
proof -
  let ?h = "drop_bit (8 * (k - 1)) w"
  have u: "unat ?h = unat w div 2 ^ (8 * (k - 1))" by (rule unat_drop)
  have "8 * k = 8 * (k - 1) + 8" using assms(1) by simp
  then have "unat w < 2 ^ (8 * (k - 1)) * 256" using assms(3) by (simp add: power_add)
  then have "unat ?h < 256" unfolding u by (simp add: div_less_iff_less_mult mult.commute)
  moreover have "0 < unat ?h" unfolding u using assms(2) by (simp add: div_greater_zero_iff)
  ultimately have "unat (ucast ?h :: byte) \<noteq> 0" by (simp add: unsigned_ucast_eq take_bit_eq_mod)
  then have "(ucast ?h :: byte) \<noteq> 0" by (metis unat_0)
  moreover have "hd (word_to_bytes k w) = ucast ?h"
    using assms(1) by (simp add: word_to_bytes_def hd_map upt_conv_Cons)
  ultimately show ?thesis by simp
qed

lemma putint_form:
  assumes "i \<noteq> 0"
  obtains k where "1 \<le> k" "k \<le> 8" "putint i = word_to_bytes k i" "2 ^ (8 * (k - 1)) \<le> unat i" "unat i < 2 ^ (8 * k)"
proof -
  have lt: "i < n \<longleftrightarrow> unat i < unat n" for n by (simp add: word_less_nat_alt)
  have p: "0 < unat i" using assms by (simp add: unat_gt_0)
  consider "i < 2 ^ 8" | "\<not> i < 2 ^ 8" "i < 2 ^ 16" | "\<not> i < 2 ^ 16" "i < 2 ^ 24" | "\<not> i < 2 ^ 24" "i < 2 ^ 32"
    | "\<not> i < 2 ^ 32" "i < 2 ^ 40" | "\<not> i < 2 ^ 40" "i < 2 ^ 48" | "\<not> i < 2 ^ 48" "i < 2 ^ 56" | "\<not> i < 2 ^ 56"
    by blast
  then show thesis
  proof cases
    case 1 then show thesis using that [of 1] p by (simp add: putint_def lt)
  next
    case 2 then show thesis using that [of 2] by (simp add: putint_def lt)
  next
    case 3 then show thesis using that [of 3] by (simp add: putint_def lt)
  next
    case 4 then show thesis using that [of 4] by (simp add: putint_def lt)
  next
    case 5 then show thesis using that [of 5] by (simp add: putint_def lt)
  next
    case 6 then show thesis using that [of 6] by (simp add: putint_def lt)
  next
    case 7 then show thesis using that [of 7] by (simp add: putint_def lt)
  next
    case 8 then show thesis using that [of 8] unsigned_less [of i] by (simp add: putint_def lt)
  qed
qed

lemma intsize_eq:
  assumes "1 \<le> k" "2 ^ (8 * (k - 1)) \<le> unat i" "unat i < 2 ^ (8 * k)"
  shows "intsize i = k"
proof -
  have "8 * (k - 1) < nat_bits (unat i)" "nat_bits (unat i) \<le> 8 * k"
    using assms by (simp_all add: less_nat_bits nat_bits_le)
  then show ?thesis unfolding intsize_def using assms(1) by linarith
qed

lemma length_putint: "i \<noteq> 0 \<Longrightarrow> length (putint i) = intsize i"
  by (rule putint_form [of i]) (auto simp: intsize_eq)

lemma putint_range: "i \<noteq> 0 \<Longrightarrow> 1 \<le> length (putint i) \<and> length (putint i) \<le> 8"
  by (rule putint_form [of i]) auto

lemma be_u64_putint: "i \<noteq> 0 \<Longrightarrow> be_u64 (putint i) = i"
  by (rule putint_form [of i]) (auto simp: be_u64_word_to_bytes)

lemma hd_putint: "i \<noteq> 0 \<Longrightarrow> hd (putint i) \<noteq> 0"
  by (rule putint_form [of i]) (auto simp: hd_word_to_bytes simp del: One_nat_def)

section \<open>The definition of RLP\<close>

definition rlp_string :: "byte list \<Rightarrow> byte list" where
  "rlp_string b = (if length b = 1 \<and> hd b \<le> 0x7F then b else puthead 0x80 0xB7 (of_nat (length b)) @ b)"

text \<open>An integer is the string of its big-endian bytes without leading zeros.\<close>

definition int_bytes :: "u64 \<Rightarrow> byte list" where
  "int_bytes i = (if i = 0 then [] else putint i)"

fun rlp :: "rlp_val \<Rightarrow> byte list" where
  "rlp (RString b) = rlp_string b"
| "rlp (RUint i) = rlp_string (int_bytes i)"
| "rlp (RList vs) = puthead 0xC0 0xF7 (of_nat (length (concat (map rlp vs)))) @ concat (map rlp vs)"

lemma unat_size: "n < 2 ^ 64 \<Longrightarrow> unat (of_nat n :: u64) = n"
  by (simp add: unsigned_of_nat take_bit_nat_eq_self)

lemma of_nat_small: "n < 2 ^ 64 \<Longrightarrow> (of_nat n :: u64) < 56 \<longleftrightarrow> n < 56"
  by (simp add: word_less_nat_alt unat_size)

lemma of_nat_pos: "\<not> n < 56 \<Longrightarrow> n < 2 ^ 64 \<Longrightarrow> (of_nat n :: u64) \<noteq> 0"
  by (metis unat_size unat_0 zero_less_numeral)

lemma byte_of_size: "(ucast (of_nat n :: u64) :: byte) = of_nat n"
  by transfer (simp add: take_bit_take_bit)

lemma puthead_size:
  assumes "n < 2 ^ 64"
  shows "puthead s l (of_nat n) =
    (if n < 56 then [s + of_nat n] else (l + of_nat (length (putint (of_nat n)))) # putint (of_nat n))"
  using assms by (simp add: puthead_def of_nat_small byte_of_size)

lemma singleton_hd: "length b = 1 \<Longrightarrow> [hd b] = b"
  by (cases b) auto

lemma encodeString_rlp:
  "length b < 2 ^ 64 \<Longrightarrow> encodeString w b = eb_append w (rlp_string b)"
  using singleton_hd [of b]
  by (auto simp: encodeString_def rlp_string_def encodeStringHeader_def eb_append_def puthead_size)

lemma int_bytes_length: "length (int_bytes i) \<le> 8"
  using putint_range [of i] by (auto simp: int_bytes_def)

lemma encodeUint_rlp: "encodeUint w i = eb_append w (rlp_string (int_bytes i))"
proof -
  have one: "putint i = [ucast i]" if "i < 256" using that by (simp add: putint_def word_to_bytes_def)
  have byte: "(ucast i :: byte) \<le> 0x7F \<longleftrightarrow> i < 128" if "i < 256"
    using that by (simp add: word_le_nat_alt word_less_nat_alt unsigned_ucast_eq take_bit_eq_mod) linarith
  have long: "length (putint i) \<noteq> 1" if "\<not> i < 256"
  proof (rule putint_form [of i])
    show "i \<noteq> 0" using that by auto
  next
    fix k assume k: "1 \<le> k" "putint i = word_to_bytes k i" "unat i < 2 ^ (8 * k)"
    have "k \<noteq> 1" using k(3) that by (auto simp: word_less_nat_alt)
    then show ?thesis using k(2) by simp
  qed
  have n: "length (putint i) < 56" if "i \<noteq> 0" using putint_range [OF that] by simp
  have p: "puthead 0x80 0xB7 (of_nat (length (putint i))) = [0x80 + of_nat (length (putint i))]" if "i \<noteq> 0"
    using n [OF that] by (simp add: puthead_size)
  have big: "\<not> i < 128" if "\<not> i < 256" using that by (simp add: word_less_nat_alt)
  consider "i = 0" | "i \<noteq> 0" "i < 256" | "i \<noteq> 0" "\<not> i < 256" by blast
  then show ?thesis
  proof cases
    case 1
    then show ?thesis by (simp add: encodeUint_def rlp_string_def int_bytes_def puthead_def eb_append_def)
  next
    case 2
    then show ?thesis using one byte p by (simp add: encodeUint_def rlp_string_def int_bytes_def eb_append_def)
  next
    case 3
    then show ?thesis using long big p by (simp add: encodeUint_def rlp_string_def int_bytes_def eb_append_def)
  qed
qed

section \<open>The buffer\<close>

text \<open>
  What a value adds to the buffer at offset \<open>o'\<close> of the string data: its strings, and a header for
  every list in it.
\<close>

fun str_of :: "rlp_val \<Rightarrow> byte list" where
  "str_of (RString b) = rlp (RString b)"
| "str_of (RUint i) = rlp (RUint i)"
| "str_of (RList vs) = concat (map str_of vs)"

fun heads_of :: "nat \<Rightarrow> rlp_val \<Rightarrow> listhead list" and heads_list :: "nat \<Rightarrow> rlp_val list \<Rightarrow> listhead list" where
  "heads_of o' (RString b) = []"
| "heads_of o' (RUint i) = []"
| "heads_of o' (RList vs) =
     \<lparr>lh_offset = int o', lh_size = int (length (concat (map rlp vs)))\<rparr> # heads_list o' vs"
| "heads_list o' [] = []"
| "heads_list o' (v # vs) = heads_of o' v @ heads_list (o' + length (str_of v)) vs"

definition grow :: "encbuf \<Rightarrow> byte list \<Rightarrow> listhead list \<Rightarrow> int \<Rightarrow> encbuf" where
  "grow w s hs n = w\<lparr>eb_str := eb_str w @ s, eb_lheads := eb_lheads w @ hs, eb_lhsize := eb_lhsize w + n\<rparr>"

lemma eb_append_grow: "eb_append w s = grow w s [] 0"
  by (simp add: eb_append_def grow_def)

lemma listEnd_grow:
  assumes "n = length body" "n < 2 ^ 64"
  shows "listEnd (grow w s (\<lparr>lh_offset = int (length (eb_str w)), lh_size = eb_lhsize w\<rparr> # hs) (int n - int (length s)))
      (length (eb_lheads w)) =
    Some (grow w s (\<lparr>lh_offset = int (length (eb_str w)), lh_size = int n\<rparr> # hs)
      (int (length (puthead 0xC0 0xF7 (of_nat n) @ body)) - int (length s)))"
proof -
  have "intsize (word_of_int (int n)) = length (putint (of_nat n))" if "\<not> n < 56"
    using length_putint [OF of_nat_pos [OF that assms(2)]] by simp
  then show ?thesis using assms
    by (auto simp: listEnd_def grow_def go_index_def nth_append list_update_append eb_size_def puthead_size Let_def)
qed

lemma concat_small: "v \<in> set vs \<Longrightarrow> length (rlp v) \<le> length (concat (map rlp vs))"
  by (induction vs) auto

lemma write_grow:
  "length (rlp v) < 2 ^ 64 \<Longrightarrow> write_val v w =
     Some (grow w (str_of v) (heads_of (length (eb_str w)) v) (int (length (rlp v)) - int (length (str_of v))))"
  "length (concat (map rlp vs)) < 2 ^ 64 \<Longrightarrow> write_vals vs w =
     Some (grow w (concat (map str_of vs)) (heads_list (length (eb_str w)) vs)
       (int (length (concat (map rlp vs))) - int (length (concat (map str_of vs)))))"
proof (induction v w and vs w rule: write_val_write_vals.induct)
  case (1 b w)
  have "length b \<le> length (rlp (RString b))" by (simp add: rlp_string_def)
  then show ?case using 1 by (simp add: encodeString_rlp eb_append_grow)
next
  case (2 i w)
  then show ?case by (simp add: encodeUint_rlp eb_append_grow)
next
  case (3 vs w)
  let ?body = "concat (map rlp vs)"
  let ?h = "\<lparr>lh_offset = int (length (eb_str w)), lh_size = eb_lhsize w\<rparr>"
  have n: "length ?body < 2 ^ 64" using 3(2) by simp
  have "write_vals vs (snd (eb_list w)) =
      Some (grow (snd (eb_list w)) (concat (map str_of vs)) (heads_list (length (eb_str (snd (eb_list w)))) vs)
        (int (length ?body) - int (length (concat (map str_of vs)))))"
    by (rule 3(1) [OF refl _ n, of "fst (eb_list w)"]) simp
  also have "\<dots> = Some (grow w (concat (map str_of vs)) (?h # heads_list (length (eb_str w)) vs)
        (int (length ?body) - int (length (concat (map str_of vs)))))"
    by (simp add: eb_list_def grow_def)
  finally show ?case using listEnd_grow [OF refl n] by (simp add: eb_list_def)
next
  case (4 w)
  then show ?case by (simp add: grow_def)
next
  case (5 v vs w)
  then show ?case by (simp add: grow_def add.commute)
qed

text \<open>The output: headers inserted into the string data at their offsets.\<close>

fun merge :: "listhead list \<Rightarrow> byte list \<Rightarrow> nat \<Rightarrow> byte list" where
  "merge [] str p = drop p str"
| "merge (h # hs) str p = take (nat (lh_offset h) - p) (drop p str) @ lh_encode h @ merge hs str (nat (lh_offset h))"

fun placed :: "listhead list \<Rightarrow> nat \<Rightarrow> nat \<Rightarrow> bool" where
  "placed [] p n \<longleftrightarrow> p \<le> n"
| "placed (h # hs) p n \<longleftrightarrow> int p \<le> lh_offset h \<and> placed hs (nat (lh_offset h)) n"

lemma placed_le: "placed hs p n \<Longrightarrow> p \<le> n"
  by (induction hs arbitrary: p) force+

lemma placed_weaken: "placed hs p n \<Longrightarrow> q \<le> p \<Longrightarrow> placed hs q n"
  by (cases hs) auto

lemma merge_skip:
  assumes "placed hs q (length str)" "p \<le> q"
  shows "merge hs str p = take (q - p) (drop p str) @ merge hs str q"
proof (cases hs)
  case Nil
  then show ?thesis using assms by (metis append_take_drop_id drop_drop le_add_diff_inverse2 merge.simps(1))
next
  case (Cons h hs')
  let ?o = "nat (lh_offset h)"
  have "q \<le> ?o" using assms Cons by auto
  then have "?o - p = (q - p) + (?o - q)" "drop q str = drop (q - p) (drop p str)" using assms(2) by simp_all
  then have "take (?o - p) (drop p str) = take (q - p) (drop p str) @ take (?o - q) (drop q str)"
    by (simp only: take_add)
  then show ?thesis using Cons by simp
qed

lemma placed_heads:
  "placed hs (o' + length (str_of v)) n \<Longrightarrow> placed (heads_of o' v @ hs) o' n"
  "placed hs (o' + length (concat (map str_of vs))) n \<Longrightarrow> placed (heads_list o' vs @ hs) o' n"
  by (induction o' v and o' vs arbitrary: hs and hs rule: heads_of_heads_list.induct)
    (auto simp: add.assoc intro: placed_weaken)

lemma lh_encode_list: "lh_encode \<lparr>lh_offset = x, lh_size = int n\<rparr> = puthead 0xC0 0xF7 (of_nat n)"
  by (simp add: lh_encode_def)

lemma merge_heads:
  "str = pre @ str_of v @ post \<Longrightarrow> o' = length pre \<Longrightarrow> placed hs (o' + length (str_of v)) (length str) \<Longrightarrow>
     merge (heads_of o' v @ hs) str o' = rlp v @ merge hs str (o' + length (str_of v))"
  "str = pre @ concat (map str_of vs) @ post \<Longrightarrow> o' = length pre \<Longrightarrow>
     placed hs (o' + length (concat (map str_of vs))) (length str) \<Longrightarrow>
     merge (heads_list o' vs @ hs) str o' = concat (map rlp vs) @ merge hs str (o' + length (concat (map str_of vs)))"
proof (induction o' v and o' vs arbitrary: pre post hs and pre post hs rule: heads_of_heads_list.induct)
  case (1 o' b)
  then show ?case using merge_skip [OF 1(3), of o'] by simp
next
  case (2 o' i)
  then show ?case using merge_skip [OF 2(3), of o'] by simp
next
  case (3 o' vs)
  then show ?case using 3(1) [of pre post hs] by (simp add: lh_encode_list)
next
  case (4 o')
  then show ?case by simp
next
  case (5 o' v vs)
  let ?hs = "heads_list (o' + length (str_of v)) vs @ hs"
  have p: "placed hs (o' + length (str_of v) + length (concat (map str_of vs))) (length str)"
    using 5(5) by (simp add: add.assoc)
  have "merge (heads_of o' v @ ?hs) str o' = rlp v @ merge ?hs str (o' + length (str_of v))"
    by (rule 5(1) [of pre "concat (map str_of vs) @ post"]) (use 5(3,4) placed_heads(2) [OF p] in auto)
  moreover have "merge ?hs str (o' + length (str_of v)) =
      concat (map rlp vs) @ merge hs str (o' + length (str_of v) + length (concat (map str_of vs)))"
    by (rule 5(2) [of "pre @ str_of v" post]) (use 5(3,4) p in auto)
  ultimately show ?case by (simp add: add.assoc)
qed

text \<open>The loop writes the merged bytes into a buffer they exactly fill.\<close>

lemma write_at_exact:
  "pos + length bs \<le> length out \<Longrightarrow> write_at out pos bs = Some (take pos out @ bs @ drop (pos + length bs) out)"
  by (simp add: write_at_def)

lemma copy_to_exact:
  "pos + length bs \<le> length out \<Longrightarrow> copy_to out pos bs = Some (take pos out @ bs @ drop (pos + length bs) out)"
  by (simp add: copy_to_def write_at_exact)

lemma take_front: "take (length a + length b + length c) (a @ b @ c @ d) = a @ b @ c"
  by simp

lemma toBytes_loop_merge:
  "placed hs p (length str) \<Longrightarrow> pos + length (merge hs str p) = length out \<Longrightarrow>
     toBytes_loop hs str out p pos = Some (take pos out @ merge hs str p)"
proof (induction hs arbitrary: p pos out)
  case Nil
  then show ?case by (simp add: copy_to_exact)
next
  case (Cons h hs)
  let ?o = "nat (lh_offset h)"
  let ?piece = "take (?o - p) (drop p str)"
  have o: "int p \<le> lh_offset h" "lh_offset h \<le> int (length str)" "placed hs ?o (length str)"
    using Cons.prems(1) placed_le by fastforce+
  have n: "length ?piece = ?o - p" using o by auto
  have fit: "pos + (?o - p) + length (lh_encode h) + length (merge hs str ?o) = length out"
    using Cons.prems(2) n by simp
  have m: "min (length ?piece) (length out - pos) = ?o - p" using n fit by linarith
  let ?out1 = "take pos out @ ?piece @ drop (pos + (?o - p)) out"
  let ?out2 = "take pos out @ ?piece @ lh_encode h @ drop (pos + (?o - p) + length (lh_encode h)) out"
  have c: "copy_to out pos ?piece = Some ?out1"
    using copy_to_exact [of pos ?piece out, unfolded n] fit by simp
  have w: "write_at ?out1 (pos + (?o - p)) (lh_encode h) = Some ?out2"
    using n fit by (simp add: write_at_exact add.commute)
  have "toBytes_loop hs str ?out2 ?o (pos + (?o - p) + length (lh_encode h)) =
      Some (take (pos + (?o - p) + length (lh_encode h)) ?out2 @ merge hs str ?o)"
    by (rule Cons.IH [OF o(3)]) (use n fit in simp)
  moreover have "p + (?o - p) = ?o" "pos \<le> length out" using o(1) fit by simp_all
  then have "toBytes_loop (h # hs) str out p pos =
      toBytes_loop hs str ?out2 ?o (pos + (?o - p) + length (lh_encode h))"
    unfolding toBytes_loop.simps Let_def m c by (simp only: o if_True simp_thms Option.bind.simps w)
  moreover have "take (pos + (?o - p) + length (lh_encode h)) ?out2 = take pos out @ ?piece @ lh_encode h"
  proof -
    have "length (take pos out) = pos" using fit by simp
    then show ?thesis using take_front [of "take pos out" ?piece "lh_encode h"] n by (simp only:)
  qed
  ultimately show ?case by simp
qed

lemma EncodeToBytes_rlp:
  assumes "length (rlp v) < 2 ^ 64"
  shows "EncodeToBytes v = Some (rlp v)"
proof -
  have w: "write_val v eb_reset = Some (grow eb_reset (str_of v) (heads_of 0 v)
      (int (length (rlp v)) - int (length (str_of v))))"
    using write_grow(1) [OF assms, of eb_reset] by (simp add: eb_reset_def)
  have p: "placed (heads_of 0 v) 0 (length (str_of v))" using placed_heads(1) [of "[]" 0 v] by simp
  have m: "merge (heads_of 0 v) (str_of v) 0 = rlp v"
    using merge_heads(1) [of "str_of v" "[]" v "[]" 0 "[]"] by simp
  show ?thesis unfolding EncodeToBytes_def w
    using toBytes_loop_merge [OF p, of 0 "replicate (length (rlp v)) 0"]
    by (simp add: toBytes_def grow_def eb_size_def eb_reset_def m)
qed

section \<open>Splitting\<close>

lemma unat_byte: "n < 256 \<Longrightarrow> unat (of_nat n :: byte) = n"
  by (simp add: unsigned_of_nat take_bit_nat_eq_self)

lemma ucast_byte: "n < 256 \<Longrightarrow> (ucast (of_nat n :: byte) :: u64) = of_nat n"
  by (simp add: unsigned_of_nat take_bit_nat_eq_self)

lemma tag_byte:
  fixes t b :: byte
  assumes "unat t + n < 256"
  shows "t + of_nat n < b \<longleftrightarrow> unat t + n < unat b" "t + of_nat n - t = of_nat n"
proof -
  have "unat (t + of_nat n) = unat t + n" using assms by (simp add: unat_add_lem [THEN iffD1] unat_byte unat_word_ariths)
  then show "t + of_nat n < b \<longleftrightarrow> unat t + n < unat b" by (simp add: word_less_nat_alt)
qed simp

lemma room:
  assumes "t + n + m < 2 ^ 64"
  shows "\<not> (of_nat (t + n + m) - of_nat t :: u64) < of_nat n"
proof -
  have "(of_nat (t + n + m) - of_nat t :: u64) = of_nat (n + m)" by simp
  moreover have "\<not> (of_nat (n + m) :: u64) < of_nat n"
    using assms by (simp add: word_less_nat_alt unat_size del: of_nat_add)
  ultimately show ?thesis by simp
qed

lemma readSize_putint:
  assumes "\<not> n < 56" "n < 2 ^ 64"
  shows "readSize (putint (of_nat n) @ ys) (of_nat (length (putint (of_nat n)))) = Inl (of_nat n)"
proof -
  let ?p = "putint (of_nat n)"
  note nz = of_nat_pos [OF assms]
  have k: "1 \<le> length ?p" "length ?p \<le> 8" using putint_range [OF nz] by auto
  then have u: "unat (of_nat (length ?p) :: byte) = length ?p" by (simp add: unat_byte)
  moreover have "(1 :: byte) \<le> of_nat (length ?p)" "(of_nat (length ?p) :: byte) \<le> 8"
    using k by (simp_all add: word_le_nat_alt u)
  moreover have "hd (?p @ ys) \<noteq> 0" using hd_putint [OF nz] k by (auto simp: hd_append)
  ultimately show ?thesis using assms be_u64_putint [OF nz] by (simp add: readSize_def Let_def of_nat_small)
qed

lemma readKind_head:
  assumes c: "n = length c" "t = length (puthead s l (of_nat n))" "t + n + length rest < 2 ^ 64"
    and k: "(k, s, l) \<in> {(KString, 0x80, 0xB7), (KList, 0xC0, 0xF7)}"
    and nb: "k = KString \<Longrightarrow> \<not> (n = 1 \<and> hd c \<le> 0x7F)"
  shows "readKind (puthead s l (of_nat n) @ c @ rest) = Inl (k, of_nat t, of_nat n)"
proof (cases "n < 56")
  case True
  have fin: "\<not> (of_nat (Suc (n + length rest)) - 1 :: u64) < of_nat n"
    using room [of 1 n "length rest"] c(2,3) True by (simp add: puthead_size)
  have hd: "puthead s l (of_nat n) = [s + of_nat n]" using True by (simp add: puthead_size)
  have one: "\<not> (n = 1 \<and> 0 < length (c @ rest) \<and> (c @ rest) ! 0 < 128)" if "k = KString"
    using nb [OF that] c(1) by (cases c) (auto simp: word_less_nat_alt word_le_nat_alt)
  have one': "of_nat n = (1 :: byte) \<longleftrightarrow> n = 1"
    using True by (simp add: word_unat_eq_iff unat_byte)
  have t: "t = 1" using c(2) hd by simp
  have u: "(ucast (of_nat n :: byte) :: u64) = of_nat n" using True by (simp add: ucast_byte)
  consider "k = KString" "s = 0x80" "l = 0xB7" | "k = KList" "s = 0xC0" "l = 0xF7" using k by auto
  then show ?thesis
  proof cases
    case 1
    then show ?thesis unfolding hd using True fin one one' c(1) u by (simp add: readKind_def t Let_def tag_byte)
  next
    case 2
    then show ?thesis unfolding hd using True fin c(1) u by (simp add: readKind_def t Let_def tag_byte)
  qed
next
  case False
  let ?p = "putint (of_nat n)"
  have n: "n < 2 ^ 64" using c(3) by simp
  have p: "1 \<le> length ?p" "length ?p \<le> 8" using putint_range [OF of_nat_pos [OF False n]] by auto
  have hd: "puthead s l (of_nat n) = (l + of_nat (length ?p)) # ?p" using False n by (simp add: puthead_size)
  have t: "t = Suc (length ?p)" using c(2) hd by simp
  have fin: "\<not> (of_nat (Suc (length ?p + (n + length rest))) - (of_nat (length ?p) + 1) :: u64) < of_nat n"
    using room [of t n "length rest"] c(3) unfolding t by (simp add: add.assoc add.commute)
  have u: "(ucast (of_nat (length ?p) :: byte) :: u64) = of_nat (length ?p)" using p by (simp add: ucast_byte)
  have ne: "?p \<noteq> []" using p(1) by auto
  note r = readSize_putint [OF False n, of "c @ rest"]
  consider "k = KString" "s = 0x80" "l = 0xB7" | "k = KList" "s = 0xC0" "l = 0xF7" using k by auto
  then show ?thesis
  proof cases
    case 1
    then show ?thesis unfolding hd using p ne fin c(1) u r by (simp add: readKind_def t Let_def tag_byte)
  next
    case 2
    then show ?thesis unfolding hd using p ne fin c(1) u r by (simp add: readKind_def t Let_def tag_byte)
  qed
qed

text \<open>What splitting an encoding must give: the kind and the content of a value.\<close>

fun bytes_of :: "rlp_val \<Rightarrow> byte list" where
  "bytes_of (RString b) = b"
| "bytes_of (RUint i) = int_bytes i"
| "bytes_of (RList vs) = concat (map rlp vs)"

fun kind_of :: "rlp_val \<Rightarrow> rlp_kind" where
  "kind_of (RList vs) = KList"
| "kind_of v = (if length (bytes_of v) = 1 \<and> hd (bytes_of v) \<le> 0x7F then KByte else KString)"

lemma rlp_kind_of:
  "rlp v = (case kind_of v of KByte \<Rightarrow> bytes_of v
     | KString \<Rightarrow> puthead 0x80 0xB7 (of_nat (length (bytes_of v))) @ bytes_of v
     | KList \<Rightarrow> puthead 0xC0 0xF7 (of_nat (length (bytes_of v))) @ bytes_of v)"
  by (cases v) (simp_all add: rlp_string_def)

lemma readKind_rlp:
  assumes "length (rlp v @ rest) < 2 ^ 64"
  obtains t where "readKind (rlp v @ rest) = Inl (kind_of v, of_nat t, of_nat (length (bytes_of v)))"
    "rlp v = take t (rlp v) @ bytes_of v" "t \<le> length (rlp v)"
proof (cases "kind_of v")
  case KByte
  then obtain b where b: "bytes_of v = [b]" "b \<le> 0x7F" by (cases v) (auto simp: length_Suc_conv split: if_splits)
  have "b < 0x80" using b(2) by (simp add: word_less_nat_alt word_le_nat_alt)
  then have "readKind (rlp v @ rest) = Inl (kind_of v, 0, 1)"
    using assms room [of 0 1 "length rest"] b(1) KByte by (simp add: rlp_kind_of readKind_def Let_def)
  then show ?thesis using that [of 0] b(1) KByte by (simp add: rlp_kind_of)
next
  case KString
  then have "\<not> (length (bytes_of v) = 1 \<and> hd (bytes_of v) \<le> 0x7F)" by (cases v) (auto split: if_splits)
  then show ?thesis using that KString assms readKind_head [OF refl refl, where s = "0x80" and l = "0xB7" and c = "bytes_of v" and rest = rest and k = KString]
    by (simp add: rlp_kind_of)
next
  case KList
  then show ?thesis using that assms readKind_head [OF refl refl, where s = "0xC0" and l = "0xF7" and c = "bytes_of v" and rest = rest and k = KList]
    by (simp add: rlp_kind_of)
qed

lemma Split_rlp:
  assumes "length (rlp v @ rest) < 2 ^ 64"
  shows "Split (rlp v @ rest) = Inl (kind_of v, bytes_of v, rest)"
proof (rule readKind_rlp [OF assms])
  fix t
  assume r: "readKind (rlp v @ rest) = Inl (kind_of v, of_nat t, of_nat (length (bytes_of v)))"
    and s: "rlp v = take t (rlp v) @ bytes_of v" and t: "t \<le> length (rlp v)"
  have "drop t (rlp v) = bytes_of v" using s by (metis append_take_drop_id same_append_eq)
  moreover have "length (rlp v) = t + length (bytes_of v)" using arg_cong [OF s, of length] t by simp
  ultimately show ?thesis using r assms unfolding Split_def by (simp add: unat_size)
qed

section \<open>Integers written three ways\<close>

lemma rlp_uint:
  "rlp (RUint i) = (if i = 0 then [0x80] else if i < 128 then [ucast i]
     else (0x80 + of_nat (length (putint i))) # putint i)"
  using encodeUint_rlp [of eb_reset i] by (simp add: encodeUint_def eb_append_def eb_reset_def split: if_splits)

lemma AppendUint64_rlp: "AppendUint64 b i = b @ rlp (RUint i)"
  by (simp add: AppendUint64_def rlp_uint putint_def del: rlp.simps)

lemma drop_word_to_bytes: "k \<le> n \<Longrightarrow> drop (n - k) (word_to_bytes n w) = word_to_bytes k w"
  by (rule nth_equalityI) (auto simp: word_to_bytes_def)

lemma EncodeInt_rlp: "EncodeInt i = rlp (RUint i)"
proof (cases "i = 0")
  case True
  then show ?thesis by (simp add: EncodeInt_def rlp_uint intsize_def del: rlp.simps)
next
  case False
  then obtain k where k: "1 \<le> k" "k \<le> 8" "putint i = word_to_bytes k i" "2 ^ (8 * (k - 1)) \<le> unat i" "unat i < 2 ^ (8 * k)"
    by (rule putint_form)
  then have "intsize i = k" by (simp add: intsize_eq)
  moreover have "0 < i" using False by (simp add: word_gt_0)
  ultimately show ?thesis using k False drop_word_to_bytes [OF k(2), of i] by (simp add: EncodeInt_def rlp_uint del: rlp.simps)
qed

lemma IntSize_rlp: "IntSize i = length (rlp (RUint i))"
proof -
  have "i \<noteq> 0" if "\<not> i < 128" using that by auto
  then show ?thesis by (auto simp: IntSize_def rlp_uint length_putint simp del: rlp.simps)
qed

lemma SplitUint64_rlp:
  assumes "length rest < 2 ^ 32"
  shows "SplitUint64 (rlp (RUint i) @ rest) = Inl (i, rest)"
proof -
  have len: "length (rlp (RUint i)) \<le> 9" using putint_range [of i] by (simp add: rlp_uint del: rlp.simps)
  then have sp: "SplitString (rlp (RUint i) @ rest) = Inl (int_bytes i, rest)"
    using Split_rlp [of "RUint i" rest] assms by (auto simp: SplitString_def simp del: rlp.simps)
  show ?thesis
  proof (cases "i < 256")
    case True
    then have "putint i = [ucast i]" by (simp add: putint_def word_to_bytes_def)
    moreover have "(ucast (ucast i :: byte) :: u64) = i"
      using True by (simp add: word_unat_eq_iff unat_low_byte word_less_nat_alt)
    moreover have "(ucast i :: byte) \<noteq> 0" if "i \<noteq> 0" using calculation(2) that by auto
    ultimately show ?thesis using sp by (simp add: SplitUint64_def int_bytes_def)
  next
    case False
    then have n: "\<not> unat i < 56" "unat i < 2 ^ 64" "i \<noteq> 0"
      using unsigned_less [of i] by (auto simp: word_less_nat_alt)
    have "length (putint i) \<noteq> 1"
      by (rule putint_form [OF n(3)]) (use False in \<open>auto simp: word_less_nat_alt\<close>)
    then show ?thesis using sp putint_range [OF n(3)] readSize_putint [OF n(1,2), of "[]"] n(3)
      by (auto simp: SplitUint64_def int_bytes_def)
  qed
qed

section \<open>The encoding determines the value\<close>

text \<open>An integer and the string of its bytes have the same encoding; nothing else is confused.\<close>

fun plain :: "rlp_val \<Rightarrow> rlp_val" where
  "plain (RString b) = RString b"
| "plain (RUint i) = RString (int_bytes i)"
| "plain (RList vs) = RList (map plain vs)"

lemma rlp_prefix_free:
  assumes "rlp v @ r = rlp v' @ r'" "length (rlp v @ r) < 2 ^ 64"
  shows "kind_of v = kind_of v' \<and> bytes_of v = bytes_of v' \<and> rlp v = rlp v' \<and> r = r'"
  using Split_rlp [OF assms(2)] Split_rlp [of v' r'] assms by (auto simp: rlp_kind_of)

lemma rlp_nonempty: "rlp v \<noteq> []"
  by (cases "kind_of v"; cases v) (auto simp: rlp_kind_of puthead_def split: if_splits)

lemma concat_rlp_inj:
  assumes "\<And>v v'. v \<in> set vs \<Longrightarrow> length (rlp v) < 2 ^ 64 \<Longrightarrow> rlp v = rlp v' \<Longrightarrow> plain v = plain v'"
  shows "concat (map rlp vs) = concat (map rlp ws) \<Longrightarrow> length (concat (map rlp vs)) < 2 ^ 64 \<Longrightarrow> map plain vs = map plain ws"
  using assms
proof (induction vs arbitrary: ws)
  case Nil
  then show ?case using rlp_nonempty by (cases ws) auto
next
  case (Cons v vs)
  then obtain w ws' where ws: "ws = w # ws'" using rlp_nonempty by (cases ws) auto
  have "rlp v = rlp w" "concat (map rlp vs) = concat (map rlp ws')"
    using rlp_prefix_free [of v "concat (map rlp vs)" w "concat (map rlp ws')"] Cons.prems(1,2) ws by auto
  then show ?case using Cons.IH [of ws'] Cons.prems ws by auto
qed

lemma rlp_inj: "rlp v = rlp v' \<Longrightarrow> length (rlp v) < 2 ^ 64 \<Longrightarrow> plain v = plain v'"
proof (induction v arbitrary: v')
  case (RList vs)
  have k: "kind_of v' = KList" "bytes_of v' = concat (map rlp vs)"
    using rlp_prefix_free [of "RList vs" "[]" v' "[]"] RList.prems by auto
  then obtain ws where ws: "v' = RList ws" by (cases v') (auto split: if_splits)
  have "map plain vs = map plain ws"
    by (rule concat_rlp_inj) (use RList k ws in auto)
  then show ?case using ws by simp
next
  case (RString b)
  then show ?case using rlp_prefix_free [of "RString b" "[]" v' "[]"] by (cases v') (auto split: if_splits)
next
  case (RUint i)
  then show ?case using rlp_prefix_free [of "RUint i" "[]" v' "[]"] by (cases v') (auto split: if_splits)
qed

text \<open>Counting the values of a list's content.\<close>

lemma CountValues_rlp: "length (concat (map rlp vs)) < 2 ^ 64 \<Longrightarrow> CountValues (concat (map rlp vs)) = Inl (length vs)"
proof (induction vs)
  case Nil
  then show ?case by (simp add: CountValues.simps)
next
  case (Cons v vs)
  let ?rest = "concat (map rlp vs)"
  have b: "length (rlp v @ ?rest) < 2 ^ 64" using Cons.prems by simp
  then obtain t where t: "readKind (rlp v @ ?rest) = Inl (kind_of v, of_nat t, of_nat (length (bytes_of v)))"
    "rlp v = take t (rlp v) @ bytes_of v" "t \<le> length (rlp v)" by (rule readKind_rlp)
  have l: "length (rlp v) = t + length (bytes_of v)" using arg_cong [OF t(2), of length] t(3) by simp
  have "CountValues ?rest = Inl (length vs)" by (rule Cons.IH) (use Cons.prems in simp)
  then show ?case using t(1) l b rlp_nonempty [of v]
    by (subst CountValues.simps) (simp add: unat_size)
qed

lemma EncodeString_rlp:
  assumes "length b < 2 ^ 64"
  shows "EncodeString b = rlp (RString b)"
proof -
  have big: "EncodeStringSizePrefix n = puthead 0x80 0xB7 (of_nat n)" if n: "n < 2 ^ 64" for n
  proof (cases "n < 56")
    case True
    then show ?thesis using n by (simp add: EncodeStringSizePrefix_def puthead_size)
  next
    case False
    let ?w = "of_nat n :: u64"
    have u: "unat ?w = n" using n by (rule unat_size)
    obtain k where k: "1 \<le> k" "k \<le> 8" "putint ?w = word_to_bytes k ?w" "2 ^ (8 * (k - 1)) \<le> unat ?w" "unat ?w < 2 ^ (8 * k)"
      by (rule putint_form [OF of_nat_pos [OF False n]])
    then have "(nat_bits n + 7) div 8 = k" using intsize_eq [OF k(1,4,5)] by (simp add: intsize_def u)
    then show ?thesis using False n k(2,3) drop_word_to_bytes [OF k(2), of ?w]
      by (simp add: EncodeStringSizePrefix_def puthead_size add.commute)
  qed
  have "hd b \<le> 0x7F \<longleftrightarrow> \<not> 128 \<le> hd b" by (simp add: word_le_nat_alt) linarith
  then show ?thesis using assms big [of "length b"] by (auto simp: EncodeString_def rlp_string_def puthead_def)
qed

section \<open>Properties\<close>

text \<open>A list of a long string, an integer and an empty list.\<close>

definition demo_val :: rlp_val where
  "demo_val = RList [RString [0x61, 0x62], RUint 1024, RList []]"

lemma demo_bytes: "rlp demo_val = [0xC7, 0x82, 0x61, 0x62, 0x82, 4, 0, 0xC0]"
  by (simp add: demo_val_def rlp_string_def int_bytes_def putint_def word_to_bytes_def puthead_def upt_rec)

text \<open>
  C13: the encoder refines the definition of RLP. For every value whose encoding fits 64 bits,
  writing the strings and the list headers into separate buffers, patching the sizes when a list
  ends and merging the two does not panic and yields the recursive encoding, byte for byte.
\<close>

theorem EncodeToBytes_refines_rlp:
  assumes "length (rlp v) < 2 ^ 64"
  shows "EncodeToBytes v = Some (rlp v)"
  using assms by (rule EncodeToBytes_rlp)

theorem EncodeToBytes_refines_rlp_witness:
  "EncodeToBytes demo_val = Some [0xC7, 0x82, 0x61, 0x62, 0x82, 4, 0, 0xC0]"
  using EncodeToBytes_refines_rlp [of demo_val] by (simp add: demo_bytes)

text \<open>
  C14: encoding and splitting is a round trip: splitting an encoding, whatever follows it, gives the
  kind, the content and exactly the bytes after it, and counting the values of a list's content gives
  the length of the list.
\<close>

theorem Split_EncodeToBytes:
  assumes "length (rlp v) + length rest < 2 ^ 64"
  shows "\<exists>out. EncodeToBytes v = Some out \<and> Split (out @ rest) = Inl (kind_of v, bytes_of v, rest) \<and>
    (\<forall>vs. v = RList vs \<longrightarrow> CountValues (bytes_of v) = Inl (length vs))"
  using assms EncodeToBytes_rlp [of v] Split_rlp [of v rest] by (auto intro: CountValues_rlp)

theorem Split_EncodeToBytes_witness:
  "Split ([0xC7, 0x82, 0x61, 0x62, 0x82, 4, 0, 0xC0] @ [1, 2]) =
     Inl (KList, [0x82, 0x61, 0x62, 0x82, 4, 0, 0xC0], [1, 2])"
proof -
  obtain out where out: "EncodeToBytes demo_val = Some out"
    "Split (out @ [1, 2]) = Inl (kind_of demo_val, bytes_of demo_val, [1, 2])"
    using Split_EncodeToBytes [of demo_val "[1, 2]"] by (auto simp: demo_bytes)
  have "out = rlp demo_val" using EncodeToBytes_rlp [of demo_val] out(1) by (simp add: demo_bytes)
  moreover have "kind_of demo_val = KList" "bytes_of demo_val = drop 1 (rlp demo_val)"
    by (simp add: demo_val_def) (simp add: demo_bytes, simp add: demo_val_def rlp_string_def int_bytes_def
      putint_def word_to_bytes_def puthead_def upt_rec)
  ultimately show ?thesis using out(2) by (simp add: demo_bytes)
qed

text \<open>
  C15: the independent implementations of writing an integer (\<^verbatim>\<open>AppendUint64\<close>, \<^verbatim>\<open>EncodeInt\<close> and the
  encoder) and a string agree with each other and with \<^verbatim>\<open>IntSize\<close>, and \<^verbatim>\<open>SplitUint64\<close> reads the
  integer back.
\<close>

theorem integer_encodings_agree:
  assumes "length b < 2 ^ 63" "length rest < 2 ^ 32"
  shows "AppendUint64 b i = b @ EncodeInt i \<and> EncodeToBytes (RUint i) = Some (EncodeInt i) \<and>
    IntSize i = length (EncodeInt i) \<and> SplitUint64 (EncodeInt i @ rest) = Inl (i, rest) \<and>
    EncodeToBytes (RString b) = Some (EncodeString b)"
proof -
  have "length (rlp (RUint i)) < 2 ^ 64"
    using putint_range [of i] by (auto simp: rlp_uint simp del: rlp.simps)
  moreover have "length (rlp (RString b)) < 2 ^ 64"
  proof -
    have "length (puthead 0x80 0xB7 (of_nat (length b))) \<le> 9"
      using assms(1) putint_range [OF of_nat_pos, of "length b"] by (simp add: puthead_size)
    then show ?thesis using assms(1) by (simp add: rlp_string_def)
  qed
  ultimately show ?thesis using assms
    by (simp add: AppendUint64_rlp EncodeInt_rlp IntSize_rlp SplitUint64_rlp EncodeToBytes_rlp EncodeString_rlp
        del: rlp.simps)
qed

theorem integer_encodings_agree_witness:
  "AppendUint64 [7] 1024 = [7, 0x82, 4, 0] \<and> SplitUint64 ([0x82, 4, 0] @ [9]) = Inl (1024, [9])"
proof -
  have "EncodeInt 1024 = [0x82, 4, 0]"
    unfolding EncodeInt_rlp by (simp add: rlp_string_def int_bytes_def putint_def word_to_bytes_def puthead_def upt_rec)
  moreover have p: "length [7 :: byte] < 2 ^ 63" "length [9 :: byte] < 2 ^ 32" by simp_all
  note w = integer_encodings_agree [OF p, of 1024]
  have "AppendUint64 [7] 1024 = [7] @ EncodeInt 1024" using w by blast
  moreover have "SplitUint64 (EncodeInt 1024 @ [9]) = Inl (1024, [9])" using w by blast
  ultimately show ?thesis by simp
qed

text \<open>
  C16: the encoding determines the value: two values with the same encoding have the same lists and
  the same strings, an integer counting as the string of its bytes.
\<close>

theorem EncodeToBytes_injective:
  assumes "EncodeToBytes v = EncodeToBytes v'" "length (rlp v) < 2 ^ 64" "length (rlp v') < 2 ^ 64"
  shows "plain v = plain v'"
proof -
  have "rlp v = rlp v'" using assms by (simp add: EncodeToBytes_rlp)
  then show ?thesis using assms(2) by (rule rlp_inj)
qed

theorem EncodeToBytes_injective_witness:
  "EncodeToBytes (RList [RUint 97]) = EncodeToBytes (RList [RString [97]]) \<and>
   plain (RList [RUint 97]) = plain (RList [RString [97]])"
proof -
  have r: "rlp (RList [RUint 97]) = [0xC1, 97]" "rlp (RList [RString [97]]) = [0xC1, 97]"
    by (simp_all add: rlp_string_def int_bytes_def putint_def word_to_bytes_def puthead_def upt_rec)
  have e: "EncodeToBytes (RList [RUint 97]) = EncodeToBytes (RList [RString [97]])"
    using EncodeToBytes_rlp [of "RList [RUint 97]"] EncodeToBytes_rlp [of "RList [RString [97]]"] unfolding r by simp
  show ?thesis using e EncodeToBytes_injective [OF e] unfolding r by simp
qed

end
