(* ===== verification/Chain_Config.thy ===== *)
theory Chain_Config
  imports Evm_Machine
begin

text \<open>
  The chain configuration (\<^verbatim>\<open>params/config.go\<close>): when a fork is active, the rules of a block, the check
  of the order of the forks and the check whether a stored chain is compatible with a new
  configuration. Fork blocks are \<^verbatim>\<open>*big.Int\<close>: an optional unbounded integer, of which \<^verbatim>\<open>Uint64\<close> reads
  the low 64 bits of the magnitude.
\<close>

section \<open>Configuration\<close>

record ChainConfig =
  cc_ChainID :: "int option"
  cc_HomesteadBlock :: "int option"
  cc_DAOForkBlock :: "int option"
  cc_DAOForkSupport :: bool
  cc_TangerineWhistleBlock :: "int option"
  cc_SpuriousDragonBlock :: "int option"
  cc_ByzantiumBlock :: "int option"
  cc_ConstantinopleBlock :: "int option"
  cc_PetersburgBlock :: "int option"
  cc_IstanbulBlock :: "int option"
  cc_MuirGlacierBlock :: "int option"
  cc_BerlinBlock :: "int option"
  cc_LondonBlock :: "int option"
  cc_ArrowGlacierBlock :: "int option"
  cc_GrayGlacierBlock :: "int option"
  cc_MergeNetsplitBlock :: "int option"
  cc_ShanghaiBlock :: "int option"
  cc_CancunBlock :: "int option"
  cc_PragueTime :: "int option"
  cc_NanoBlock :: "int option"
  cc_MoranBlock :: "int option"
  cc_BeijingBlock :: "int option"
  cc_Eip1559FeeCollector :: "address option"
  cc_Eip1559FeeCollectorTransition :: "int option"
  cc_Aura :: bool
  cc_Parlia :: bool
  cc_Bor :: bool

definition big_Uint64 :: "int \<Rightarrow> u64" where
  "big_Uint64 x = word_of_int \<bar>x\<bar>"

definition isForked :: "int option \<Rightarrow> u64 \<Rightarrow> bool" where
  "isForked s head = (case s of None \<Rightarrow> False | Some b \<Rightarrow> big_Uint64 b \<le> head)"

definition configNumEqual :: "int option \<Rightarrow> int option \<Rightarrow> bool" where
  "configNumEqual x y =
     (case x of None \<Rightarrow> y = None | Some a \<Rightarrow> (case y of None \<Rightarrow> False | Some b \<Rightarrow> a = b))"

definition isForkIncompatible :: "int option \<Rightarrow> int option \<Rightarrow> u64 \<Rightarrow> bool" where
  "isForkIncompatible s1 s2 head \<longleftrightarrow> (isForked s1 head \<or> isForked s2 head) \<and> \<not> configNumEqual s1 s2"

definition IsPetersburg :: "ChainConfig \<Rightarrow> u64 \<Rightarrow> bool" where
  "IsPetersburg c num \<longleftrightarrow> isForked (cc_PetersburgBlock c) num \<or>
     cc_PetersburgBlock c = None \<and> isForked (cc_ConstantinopleBlock c) num"

definition IsEip1559FeeCollector :: "ChainConfig \<Rightarrow> u64 \<Rightarrow> bool" where
  "IsEip1559FeeCollector c num \<longleftrightarrow> cc_Eip1559FeeCollector c \<noteq> None \<and> isForked (cc_Eip1559FeeCollectorTransition c) num"

text \<open>\<^verbatim>\<open>IsPrague\<close> is documented to take a time; it is given the block number like the others.\<close>

definition ChainConfig_Rules :: "ChainConfig \<Rightarrow> u64 \<Rightarrow> Rules" where
  "ChainConfig_Rules c num =
     \<lparr>rl_ChainID = (case cc_ChainID c of None \<Rightarrow> 0 | Some i \<Rightarrow> i),
      rl_IsHomestead = isForked (cc_HomesteadBlock c) num,
      rl_IsTangerineWhistle = isForked (cc_TangerineWhistleBlock c) num,
      rl_IsSpuriousDragon = isForked (cc_SpuriousDragonBlock c) num,
      rl_IsByzantium = isForked (cc_ByzantiumBlock c) num,
      rl_IsConstantinople = isForked (cc_ConstantinopleBlock c) num,
      rl_IsPetersburg = IsPetersburg c num,
      rl_IsIstanbul = isForked (cc_IstanbulBlock c) num,
      rl_IsBerlin = isForked (cc_BerlinBlock c) num,
      rl_IsLondon = isForked (cc_LondonBlock c) num,
      rl_IsShanghai = isForked (cc_ShanghaiBlock c) num,
      rl_IsCancun = isForked (cc_CancunBlock c) num,
      rl_IsPrague = isForked (cc_PragueTime c) num,
      rl_IsNano = isForked (cc_NanoBlock c) num,
      rl_IsMoran = isForked (cc_MoranBlock c) num,
      rl_IsEip1559FeeCollector = IsEip1559FeeCollector c num,
      rl_IsParlia = cc_Parlia c,
      rl_IsStarknet = False,
      rl_IsAura = cc_Aura c,
      rl_IsBeijing = isForked (cc_BeijingBlock c) num\<rparr>"

section \<open>The order of the forks\<close>

record fork =
  fk_name :: string
  fk_block :: "int option"
  fk_optional :: bool

abbreviation required :: "string \<Rightarrow> int option \<Rightarrow> fork" where
  "required n b \<equiv> \<lparr>fk_name = n, fk_block = b, fk_optional = False\<rparr>"

abbreviation optional :: "string \<Rightarrow> int option \<Rightarrow> fork" where
  "optional n b \<equiv> \<lparr>fk_name = n, fk_block = b, fk_optional = True\<rparr>"

definition fork_list :: "ChainConfig \<Rightarrow> fork list" where
  "fork_list c =
   [required ''homesteadBlock'' (cc_HomesteadBlock c),
    optional ''daoForkBlock'' (cc_DAOForkBlock c),
    required ''eip150Block'' (cc_TangerineWhistleBlock c),
    required ''eip155Block'' (cc_SpuriousDragonBlock c),
    required ''byzantiumBlock'' (cc_ByzantiumBlock c),
    required ''constantinopleBlock'' (cc_ConstantinopleBlock c),
    required ''petersburgBlock'' (cc_PetersburgBlock c),
    required ''istanbulBlock'' (cc_IstanbulBlock c),
    optional ''muirGlacierBlock'' (cc_MuirGlacierBlock c),
    required ''berlinBlock'' (cc_BerlinBlock c),
    required ''londonBlock'' (cc_LondonBlock c),
    optional ''arrowGlacierBlock'' (cc_ArrowGlacierBlock c),
    optional ''grayGlacierBlock'' (cc_GrayGlacierBlock c),
    optional ''mergeNetsplitBlock'' (cc_MergeNetsplitBlock c),
    required ''shanghaiBlock'' (cc_ShanghaiBlock c),
    required ''cancunBlock'' (cc_CancunBlock c)]"

datatype fork_error = NotEnabled string string int | WrongOrder string int string int

text \<open>The loop; the zero value of \<^verbatim>\<open>lastFork\<close> has an empty name.\<close>

fun fork_order_loop :: "fork \<Rightarrow> fork list \<Rightarrow> fork_error option" where
  "fork_order_loop lastFork [] = None"
| "fork_order_loop lastFork (cur # rest) =
     (let err = (if fk_name lastFork = [] then None
                 else (case (fk_block lastFork, fk_block cur) of
                         (None, Some b) \<Rightarrow> Some (NotEnabled (fk_name lastFork) (fk_name cur) b)
                       | (Some a, Some b) \<Rightarrow>
                           if a > b then Some (WrongOrder (fk_name lastFork) a (fk_name cur) b) else None
                       | _ \<Rightarrow> None))
      in if err \<noteq> None then err
         else fork_order_loop (if \<not> fk_optional cur \<or> fk_block cur \<noteq> None then cur else lastFork) rest)"

definition CheckConfigForkOrder :: "ChainConfig \<Rightarrow> fork_error option" where
  "CheckConfigForkOrder c =
     (if (case cc_ChainID c of Some i \<Rightarrow> big_Uint64 i = 77 | None \<Rightarrow> False) then None
      else fork_order_loop (required [] None) (fork_list c))"

section \<open>Compatibility\<close>

record ConfigCompatError =
  ce_What :: string
  ce_StoredConfig :: "int option"
  ce_NewConfig :: "int option"
  ce_RewindTo :: u64

definition newCompatError :: "string \<Rightarrow> int option \<Rightarrow> int option \<Rightarrow> ConfigCompatError" where
  "newCompatError what storedblock newblock =
     (let rew = (case storedblock of None \<Rightarrow> newblock
                 | Some s \<Rightarrow> (case newblock of None \<Rightarrow> storedblock
                              | Some n \<Rightarrow> if s < n then storedblock else newblock))
      in \<lparr>ce_What = what, ce_StoredConfig = storedblock, ce_NewConfig = newblock,
          ce_RewindTo = (case rew of Some r \<Rightarrow> if r > 0 then big_Uint64 r - 1 else 0 | None \<Rightarrow> 0)\<rparr>)"

text \<open>The checks in order: the condition, and what is reported of the two configurations.\<close>

definition compat_checks ::
  "ChainConfig \<Rightarrow> ChainConfig \<Rightarrow> u64 \<Rightarrow> (bool \<times> string \<times> int option \<times> int option) list" where
  "compat_checks c n head =
   (let chk = (\<lambda>what f. (isForkIncompatible (f c) (f n) head, what, f c, f n)) in
   [chk ''Homestead fork block'' cc_HomesteadBlock,
    chk ''DAO fork block'' cc_DAOForkBlock,
    (isForked (cc_DAOForkBlock c) head \<and> cc_DAOForkSupport c \<noteq> cc_DAOForkSupport n,
      ''DAO fork support flag'', cc_DAOForkBlock c, cc_DAOForkBlock n),
    chk ''Tangerine Whistle fork block'' cc_TangerineWhistleBlock,
    chk ''Spurious Dragon fork block'' cc_SpuriousDragonBlock,
    (isForked (cc_SpuriousDragonBlock c) head \<and> \<not> configNumEqual (cc_ChainID c) (cc_ChainID n),
      ''EIP155 chain ID'', cc_SpuriousDragonBlock c, cc_SpuriousDragonBlock n),
    chk ''Byzantium fork block'' cc_ByzantiumBlock,
    chk ''Constantinople fork block'' cc_ConstantinopleBlock,
    (isForkIncompatible (cc_PetersburgBlock c) (cc_PetersburgBlock n) head \<and>
       isForkIncompatible (cc_ConstantinopleBlock c) (cc_PetersburgBlock n) head,
      ''Petersburg fork block'', cc_PetersburgBlock c, cc_PetersburgBlock n),
    chk ''Istanbul fork block'' cc_IstanbulBlock,
    chk ''Muir Glacier fork block'' cc_MuirGlacierBlock,
    chk ''Berlin fork block'' cc_BerlinBlock,
    chk ''London fork block'' cc_LondonBlock,
    chk ''Arrow Glacier fork block'' cc_ArrowGlacierBlock,
    chk ''Gray Glacier fork block'' cc_GrayGlacierBlock,
    chk ''Merge netsplit block'' cc_MergeNetsplitBlock,
    chk ''Shanghai fork block'' cc_ShanghaiBlock,
    chk ''Cancun fork block'' cc_CancunBlock])"

definition checkCompatible :: "ChainConfig \<Rightarrow> ChainConfig \<Rightarrow> u64 \<Rightarrow> ConfigCompatError option" where
  "checkCompatible c newcfg head =
     map_option (\<lambda>(_, what, s, n). newCompatError what s n) (find fst (compat_checks c newcfg head))"

text \<open>\<open>None\<close> is a loop that does not end; \<open>Some None\<close> is a compatible configuration.\<close>

partial_function (option) compat_loop ::
  "ChainConfig \<Rightarrow> ChainConfig \<Rightarrow> u64 \<Rightarrow> ConfigCompatError option \<Rightarrow> ConfigCompatError option option" where
  "compat_loop c newcfg bhead lasterr =
     (case checkCompatible c newcfg bhead of
        None \<Rightarrow> Some lasterr
      | Some err \<Rightarrow>
          if (case lasterr of None \<Rightarrow> False | Some l \<Rightarrow> ce_RewindTo err = ce_RewindTo l) then Some lasterr
          else compat_loop c newcfg (ce_RewindTo err) (Some err))"

definition CheckCompatible :: "ChainConfig \<Rightarrow> ChainConfig \<Rightarrow> u64 \<Rightarrow> ConfigCompatError option option" where
  "CheckCompatible c newcfg height = compat_loop c newcfg height None"

end
