(* ===== verification/Config_Props.thy ===== *)
theory Config_Props
  imports Chain_Config Evm_Props
begin

text \<open>
  What the checks of a configuration guarantee: forks that pass the order check are active in order at
  every block, so the interpreter's hypothesis on the rules holds; and the search for the block to
  rewind to ends, at a block where the two configurations agree.
\<close>

section \<open>Fork blocks in range\<close>

definition block64 :: "int option \<Rightarrow> bool" where
  "block64 s = (case s of None \<Rightarrow> True | Some b \<Rightarrow> 0 \<le> b \<and> b < 2 ^ 64)"

text \<open>Fork blocks are block numbers; the checks read them through \<^verbatim>\<open>Uint64\<close>.\<close>

definition config64 :: "ChainConfig \<Rightarrow> bool" where
  "config64 c \<longleftrightarrow> list_all (block64 \<circ> fk_block) (fork_list c)"

lemma isForked_block64: "block64 s \<Longrightarrow> isForked s n \<longleftrightarrow> (\<exists>b. s = Some b \<and> b \<le> uint n)"
  by (auto simp: isForked_def block64_def big_Uint64_def word_le_def uint_word_of_int_eq take_bit_eq_mod
      split: option.splits)

section \<open>Order\<close>

lemma fork_order_Cons:
  "fork_order_loop lastFork (cur # rest) = None \<Longrightarrow>
     fork_order_loop (if \<not> fk_optional cur \<or> fk_block cur \<noteq> None then cur else lastFork) rest = None"
  unfolding fork_order_loop.simps Let_def by (metis option.distinct(1))

lemma fork_order_below:
  assumes "fork_order_loop lastFork fs = None" "fk_name lastFork \<noteq> []" "\<forall>f \<in> set fs. fk_name f \<noteq> []"
    and "f \<in> set fs" "fk_block f = Some b"
  shows "\<exists>a. fk_block lastFork = Some a \<and> a \<le> b"
  using assms
proof (induction fs arbitrary: lastFork)
  case (Cons cur rest)
  have direct: "\<exists>a. fk_block lastFork = Some a \<and> a \<le> d" if "fk_block cur = Some d" for d
    using Cons.prems(1,2) that by (cases "fk_block lastFork") (auto simp: Let_def split: if_splits)
  show ?case
  proof (cases "f = cur")
    case True
    then show ?thesis using direct Cons.prems(5) by simp
  next
    case False
    let ?l = "if \<not> fk_optional cur \<or> fk_block cur \<noteq> None then cur else lastFork"
    have "fork_order_loop ?l rest = None" by (rule fork_order_Cons [OF Cons.prems(1)])
    moreover have "fk_name ?l \<noteq> []" using Cons.prems(2,3) by simp
    ultimately obtain a where a: "fk_block ?l = Some a" "a \<le> b"
      using Cons.IH Cons.prems(3-5) False by (metis list.set_intros(2) set_ConsD)
    then show ?thesis using direct by (cases "?l = cur") (auto intro: order_trans split: if_splits)
  qed
qed simp

lemma fork_order_pair:
  assumes "fork_order_loop lastFork (xs @ f # ys) = None" "\<forall>x \<in> set (xs @ f # ys). fk_name x \<noteq> []"
    and "\<not> fk_optional f" "g \<in> set ys" "fk_block g = Some b"
  shows "\<exists>a. fk_block f = Some a \<and> a \<le> b"
  using assms
proof (induction xs arbitrary: lastFork)
  case Nil
  then have "fork_order_loop f ys = None" using fork_order_Cons [of lastFork f ys] by simp
  then show ?case by (rule fork_order_below) (use Nil in auto)
next
  case (Cons x xs)
  then have "fork_order_loop (if \<not> fk_optional x \<or> fk_block x \<noteq> None then x else lastFork) (xs @ f # ys) = None"
    using fork_order_Cons [of lastFork x "xs @ f # ys"] by simp
  then show ?case by (rule Cons.IH) (use Cons.prems in auto)
qed

lemma fork_before:
  assumes "CheckConfigForkOrder c = None" "map_option big_Uint64 (cc_ChainID c) \<noteq> Some 77" "config64 c"
    and "fork_list c = xs @ f # ys" "\<not> fk_optional f" "g \<in> set ys" "isForked (fk_block g) num"
  shows "isForked (fk_block f) num"
proof -
  have loop: "fork_order_loop (required [] None) (xs @ f # ys) = None"
    using assms(1,2,4) by (auto simp: CheckConfigForkOrder_def split: option.splits if_splits)
  have names: "\<forall>x \<in> set (xs @ f # ys). fk_name x \<noteq> []"
    unfolding assms(4) [symmetric] by (simp add: fork_list_def)
  have r: "block64 (fk_block f)" "block64 (fk_block g)"
    using assms(3,6) unfolding config64_def assms(4) by (auto simp: list_all_iff)
  obtain b where b: "fk_block g = Some b" "b \<le> uint num" using assms(7) r(2) by (auto simp: isForked_block64)
  obtain a where "fk_block f = Some a" "a \<le> b"
    using fork_order_pair [OF loop names assms(5,6) b(1)] by blast
  then show ?thesis using b(2) r(1) by (simp add: isForked_block64)
qed

lemma required_order:
  assumes "CheckConfigForkOrder c = None" "map_option big_Uint64 (cc_ChainID c) \<noteq> Some 77" "config64 c"
  shows "isForked (cc_CancunBlock c) num \<Longrightarrow> isForked (cc_ShanghaiBlock c) num"
    "isForked (cc_ShanghaiBlock c) num \<Longrightarrow> isForked (cc_LondonBlock c) num"
    "isForked (cc_LondonBlock c) num \<Longrightarrow> isForked (cc_BerlinBlock c) num"
    "isForked (cc_BerlinBlock c) num \<Longrightarrow> isForked (cc_IstanbulBlock c) num"
    "isForked (cc_IstanbulBlock c) num \<Longrightarrow> isForked (cc_PetersburgBlock c) num"
    "isForked (cc_PetersburgBlock c) num \<Longrightarrow> isForked (cc_ConstantinopleBlock c) num"
    "isForked (cc_ConstantinopleBlock c) num \<Longrightarrow> isForked (cc_ByzantiumBlock c) num"
    "isForked (cc_ByzantiumBlock c) num \<Longrightarrow> isForked (cc_SpuriousDragonBlock c) num"
    "isForked (cc_SpuriousDragonBlock c) num \<Longrightarrow> isForked (cc_TangerineWhistleBlock c) num"
    "isForked (cc_TangerineWhistleBlock c) num \<Longrightarrow> isForked (cc_HomesteadBlock c) num"
proof -
  have step: "isForked (fk_block (fork_list c ! j)) num \<Longrightarrow> isForked (fk_block (fork_list c ! i)) num"
    if "i < j" "j < length (fork_list c)" "\<not> fk_optional (fork_list c ! i)" for i j
  proof -
    let ?L = "fork_list c"
    have "drop (Suc i) ?L ! (j - Suc i) = ?L ! j" "j - Suc i < length (drop (Suc i) ?L)" using that by simp_all
    then have "?L ! j \<in> set (drop (Suc i) ?L)" by (metis nth_mem)
    moreover have "?L = take i ?L @ ?L ! i # drop (Suc i) ?L" using that by (simp add: id_take_nth_drop)
    ultimately show "isForked (fk_block (?L ! j)) num \<Longrightarrow> isForked (fk_block (?L ! i)) num"
      using fork_before [OF assms _ that(3)] by blast
  qed
  note s = step [unfolded fork_list_def]
  show "isForked (cc_CancunBlock c) num \<Longrightarrow> isForked (cc_ShanghaiBlock c) num" using s [of 14 15] by simp
  show "isForked (cc_ShanghaiBlock c) num \<Longrightarrow> isForked (cc_LondonBlock c) num" using s [of 10 14] by simp
  show "isForked (cc_LondonBlock c) num \<Longrightarrow> isForked (cc_BerlinBlock c) num" using s [of 9 10] by simp
  show "isForked (cc_BerlinBlock c) num \<Longrightarrow> isForked (cc_IstanbulBlock c) num" using s [of 7 9] by simp
  show "isForked (cc_IstanbulBlock c) num \<Longrightarrow> isForked (cc_PetersburgBlock c) num" using s [of 6 7] by simp
  show "isForked (cc_PetersburgBlock c) num \<Longrightarrow> isForked (cc_ConstantinopleBlock c) num" using s [of 5 6] by simp
  show "isForked (cc_ConstantinopleBlock c) num \<Longrightarrow> isForked (cc_ByzantiumBlock c) num" using s [of 4 5] by simp
  show "isForked (cc_ByzantiumBlock c) num \<Longrightarrow> isForked (cc_SpuriousDragonBlock c) num" using s [of 3 4] by simp
  show "isForked (cc_SpuriousDragonBlock c) num \<Longrightarrow> isForked (cc_TangerineWhistleBlock c) num" using s [of 2 3] by simp
  show "isForked (cc_TangerineWhistleBlock c) num \<Longrightarrow> isForked (cc_HomesteadBlock c) num" using s [of 0 2] by simp
qed

section \<open>Compatibility\<close>

lemma compat_check_forked:
  assumes "(True, what, s, n) \<in> set (compat_checks c c' head)"
  shows "isForked s head \<or> isForked n head"
  using assms by (auto simp: compat_checks_def Let_def isForkIncompatible_def)

lemma compat_check_block64:
  assumes "(b, what, s, n) \<in> set (compat_checks c c' head)" "config64 c" "config64 c'"
  shows "block64 s" "block64 n"
  using assms by (auto simp: compat_checks_def Let_def config64_def fork_list_def)

lemma newCompatError_rewind:
  assumes "isForked s head \<or> isForked n head" "block64 s" "block64 n"
  shows "ce_RewindTo (newCompatError what s n) < head \<or> ce_RewindTo (newCompatError what s n) = 0"
proof -
  define P where "P x \<longleftrightarrow> x < head \<or> x = 0" for x
  have r: "P (big_Uint64 b - 1)" if "0 < b" "b \<le> uint head" for b
  proof -
    have "uint head < 2 ^ 64" using uint_bounded [of head] by simp
    then have u: "uint (big_Uint64 b) = b" using that by (simp add: big_Uint64_def uint_word_of_int_eq take_bit_eq_mod)
    then have "uint (big_Uint64 b - 1) = b - 1" using that by (simp add: uint_sub_if')
    then show ?thesis using that by (simp add: P_def word_less_def)
  qed
  moreover have "P 0" by (simp add: P_def)
  ultimately have "P (ce_RewindTo (newCompatError what s n))"
    using assms by (auto simp: newCompatError_def Let_def isForked_block64 split: option.splits)
  then show ?thesis by (simp add: P_def)
qed

lemma checkCompatible_rewind:
  assumes "checkCompatible c c' head = Some err" "config64 c" "config64 c'"
  shows "ce_RewindTo err < head \<or> ce_RewindTo err = 0"
proof -
  obtain b what s n where f: "find fst (compat_checks c c' head) = Some (b, what, s, n)" "err = newCompatError what s n"
    using assms(1) by (auto simp: checkCompatible_def)
  then have m: "(b, what, s, n) \<in> set (compat_checks c c' head)" "b"
    by (auto simp: find_Some_iff) (metis fst_conv)
  then show ?thesis
    using compat_check_forked compat_check_block64 [OF m(1) assms(2,3)] newCompatError_rewind f(2) by metis
qed

lemma compat_loop_returns:
  assumes c: "config64 c" "config64 c'" and l: "case lasterr of None \<Rightarrow> True | Some l \<Rightarrow> ce_RewindTo l = head"
  shows "\<exists>r. compat_loop c c' head lasterr = Some r \<and> (r = None \<longleftrightarrow> lasterr = None \<and> checkCompatible c c' head = None) \<and>
    (\<forall>e. r = Some e \<longrightarrow> ce_RewindTo e = 0 \<or> checkCompatible c c' (ce_RewindTo e) = None)"
  using l
proof (induction "unat head" arbitrary: head lasterr rule: less_induct)
  case less
  show ?case
  proof (cases "checkCompatible c c' head")
    case None
    then show ?thesis using less.prems by (subst compat_loop.simps) (auto split: option.splits)
  next
    case (Some err)
    show ?thesis
    proof (cases "case lasterr of None \<Rightarrow> False | Some l \<Rightarrow> ce_RewindTo err = ce_RewindTo l")
      case True
      then show ?thesis using Some less.prems checkCompatible_rewind [OF Some c]
        by (subst compat_loop.simps) (auto split: option.splits)
    next
      case False
      let ?h = "ce_RewindTo err"
      have e: "compat_loop c c' head lasterr = compat_loop c c' ?h (Some err)"
        using Some False by (subst compat_loop.simps) (auto split: option.splits)
      show ?thesis
      proof (cases "?h < head")
        case True
        then have "unat ?h < unat head" by (simp add: word_less_nat_alt)
        from less.hyps [OF this, of "Some err"] show ?thesis unfolding e using Some by auto
      next
        case zero: False
        then have h: "?h = 0" using checkCompatible_rewind [OF Some c] by blast
        have "compat_loop c c' ?h (Some err) = Some (Some err)"
        proof (cases "checkCompatible c c' ?h")
          case None
          then show ?thesis by (subst compat_loop.simps) simp
        next
          case (Some err')
          then have "ce_RewindTo err' = 0" using checkCompatible_rewind [OF Some c] h by simp
          then show ?thesis using Some h by (subst compat_loop.simps) simp
        qed
        then show ?thesis unfolding e using Some h by auto
      qed
    qed
  qed
qed

text \<open>The loop sees the two configurations only through the check.\<close>

lemma compat_loop_returns_same:
  assumes "compat_loop c n head lasterr = Some r" "\<forall>h. checkCompatible c' n' h = checkCompatible c n h"
  shows "compat_loop c' n' head lasterr = Some r"
proof -
  have "\<forall>c' n'. (\<forall>h. checkCompatible c' n' h = checkCompatible c n h) \<longrightarrow> compat_loop c' n' head lasterr = Some r"
  proof (rule compat_loop.raw_induct [OF _ assms(1)])
    fix loop c n head lasterr r
    assume IH: "\<And>c n head lasterr r. loop c n head lasterr = Some r \<Longrightarrow>
        \<forall>c' n'. (\<forall>h. checkCompatible c' n' h = checkCompatible c n h) \<longrightarrow> compat_loop c' n' head lasterr = Some r"
      and r: "(case checkCompatible c n head of None \<Rightarrow> Some lasterr
        | Some err \<Rightarrow> if (case lasterr of None \<Rightarrow> False | Some l \<Rightarrow> ce_RewindTo err = ce_RewindTo l) then Some lasterr
            else loop c n (ce_RewindTo err) (Some err)) = Some r"
    show "\<forall>c' n'. (\<forall>h. checkCompatible c' n' h = checkCompatible c n h) \<longrightarrow> compat_loop c' n' head lasterr = Some r"
    proof (intro allI impI)
      fix c' n'
      assume e: "\<forall>h. checkCompatible c' n' h = checkCompatible c n h"
      have step: "compat_loop c' n' head' lasterr' = Some r" if "loop c n head' lasterr' = Some r" for head' lasterr'
        using IH [OF that] e by blast
      show "compat_loop c' n' head lasterr = Some r"
        unfolding compat_loop.simps [of c' n' head] e [rule_format] using r step
        by (cases "checkCompatible c n head") (simp_all split: if_splits)
    qed
  qed
  then show ?thesis using assms(2) by blast
qed

lemma compat_loop_cong:
  assumes "\<And>h. checkCompatible c n h = checkCompatible c' n' h"
  shows "compat_loop c n head lasterr = compat_loop c' n' head lasterr"
proof (cases "compat_loop c n head lasterr")
  case None
  have "compat_loop c' n' head lasterr \<noteq> Some r" for r
    using compat_loop_returns_same [of c' n' head lasterr r c n] assms None by auto
  then have "compat_loop c' n' head lasterr = None" by (cases "compat_loop c' n' head lasterr") blast+
  then show ?thesis using None by simp
next
  case (Some r)
  then show ?thesis using compat_loop_returns_same [OF Some, of c' n'] assms by simp
qed

lemma fork_list_Prague: "fork_list (c\<lparr>cc_PragueTime := t\<rparr>) = fork_list c"
  by (simp add: fork_list_def)

lemma compat_checks_Prague:
  "compat_checks (c\<lparr>cc_PragueTime := t\<rparr>) (c'\<lparr>cc_PragueTime := t'\<rparr>) head = compat_checks c c' head"
  by (simp add: compat_checks_def)

section \<open>Properties\<close>

text \<open>The configuration of \<^verbatim>\<open>chainspecs/mainnet.json\<close>.\<close>

definition mainnet :: ChainConfig where
  "mainnet = \<lparr>cc_ChainID = Some 1, cc_HomesteadBlock = Some 1150000, cc_DAOForkBlock = Some 1920000,
     cc_DAOForkSupport = True, cc_TangerineWhistleBlock = Some 2463000, cc_SpuriousDragonBlock = Some 2675000,
     cc_ByzantiumBlock = Some 4370000, cc_ConstantinopleBlock = Some 7280000, cc_PetersburgBlock = Some 7280000,
     cc_IstanbulBlock = Some 9069000, cc_MuirGlacierBlock = Some 9200000, cc_BerlinBlock = Some 12244000,
     cc_LondonBlock = Some 12965000, cc_ArrowGlacierBlock = Some 13773000, cc_GrayGlacierBlock = Some 15050000,
     cc_MergeNetsplitBlock = None, cc_ShanghaiBlock = None, cc_CancunBlock = None, cc_PragueTime = None,
     cc_NanoBlock = None, cc_MoranBlock = None, cc_BeijingBlock = None, cc_Eip1559FeeCollector = None,
     cc_Eip1559FeeCollectorTransition = None, cc_Aura = False, cc_Parlia = False, cc_Bor = False\<rparr>"

lemma mainnet_checks:
  "CheckConfigForkOrder mainnet = None" "map_option big_Uint64 (cc_ChainID mainnet) \<noteq> Some 77" "config64 mainnet"
  by (simp_all add: CheckConfigForkOrder_def fork_list_def mainnet_def big_Uint64_def config64_def block64_def)

text \<open>
  C17: a configuration that passes \<^verbatim>\<open>CheckConfigForkOrder\<close>, with fork blocks that are block numbers, has
  its forks active in order at every block: no fork without the ones before it. So the rules of every
  block are ones the interpreter is proved to terminate for, as long as Prague, which the check does
  not look at, is not scheduled. The chain with identifier 77 is exempt from the check.
\<close>

theorem ordered_forks_are_cumulative:
  assumes "CheckConfigForkOrder c = None" "map_option big_Uint64 (cc_ChainID c) \<noteq> Some 77" "config64 c"
    and "r = ChainConfig_Rules c num"
  shows "(rl_IsCancun r \<longrightarrow> rl_IsShanghai r) \<and> (rl_IsShanghai r \<longrightarrow> rl_IsLondon r) \<and> (rl_IsLondon r \<longrightarrow> rl_IsBerlin r) \<and>
    (rl_IsBerlin r \<longrightarrow> rl_IsIstanbul r) \<and> (rl_IsIstanbul r \<longrightarrow> rl_IsPetersburg r \<and> rl_IsConstantinople r) \<and>
    (rl_IsConstantinople r \<longrightarrow> rl_IsByzantium r) \<and> (rl_IsByzantium r \<longrightarrow> rl_IsSpuriousDragon r) \<and>
    (rl_IsSpuriousDragon r \<longrightarrow> rl_IsTangerineWhistle r) \<and> (rl_IsTangerineWhistle r \<longrightarrow> rl_IsHomestead r) \<and>
    (cc_PragueTime c = None \<longrightarrow> rules_fit r)"
  using required_order [OF assms(1-3), of num] unfolding assms(4)
  by (auto simp: ChainConfig_Rules_def IsPetersburg_def rules_fit_def isForked_def [of None])

theorem ordered_forks_are_cumulative_witness:
  "rules_fit (ChainConfig_Rules mainnet 13000000) \<and> rl_IsLondon (ChainConfig_Rules mainnet 13000000) \<and>
   rl_IsIstanbul (ChainConfig_Rules mainnet 13000000)"
proof -
  have "rl_IsLondon (ChainConfig_Rules mainnet 13000000)"
    by (simp add: ChainConfig_Rules_def mainnet_def isForked_def big_Uint64_def)
  moreover have "cc_PragueTime mainnet = None" by (simp add: mainnet_def)
  ultimately show ?thesis using ordered_forks_are_cumulative [OF mainnet_checks refl, of 13000000] by simp
qed

text \<open>
  C18: nothing checks Prague. Take a configuration that passes \<^verbatim>\<open>CheckConfigForkOrder\<close>, with fork blocks
  that are block numbers, not of the chain with identifier 77, and set its Prague field to anything: the
  order check still passes, and \<^verbatim>\<open>CheckCompatible\<close> gives the same answer against any other
  configuration, whatever Prague is there. The field is a time but is compared with the block number,
  and the rules of a block are ones the interpreter is proved to terminate for exactly when the number
  has not reached Prague or EIP 150 is active; a Prague before EIP 150 is accepted all the same.
\<close>

theorem Prague_unchecked:
  assumes "CheckConfigForkOrder c = None" "map_option big_Uint64 (cc_ChainID c) \<noteq> Some 77" "config64 c"
  shows "CheckConfigForkOrder (c\<lparr>cc_PragueTime := t\<rparr>) = None \<and>
    CheckCompatible (c\<lparr>cc_PragueTime := t\<rparr>) (c'\<lparr>cc_PragueTime := t'\<rparr>) height = CheckCompatible c c' height \<and>
    (rules_fit (ChainConfig_Rules (c\<lparr>cc_PragueTime := t\<rparr>) num) \<longleftrightarrow>
      (isForked t num \<longrightarrow> isForked (cc_TangerineWhistleBlock c) num))"
proof (intro conjI)
  let ?c = "c\<lparr>cc_PragueTime := t\<rparr>"
  show o: "CheckConfigForkOrder ?c = None"
    using assms(1) by (simp add: CheckConfigForkOrder_def fork_list_Prague split: if_splits)
  show "CheckCompatible ?c (c'\<lparr>cc_PragueTime := t'\<rparr>) height = CheckCompatible c c' height"
    unfolding CheckCompatible_def by (rule compat_loop_cong) (simp only: checkCompatible_def compat_checks_Prague)
  have c: "map_option big_Uint64 (cc_ChainID ?c) \<noteq> Some 77" "config64 ?c"
    using assms(2,3) by (simp_all add: config64_def fork_list_Prague)
  show "rules_fit (ChainConfig_Rules ?c num) \<longleftrightarrow> (isForked t num \<longrightarrow> isForked (cc_TangerineWhistleBlock c) num)"
    using required_order [OF o c, of num] by (auto simp: ChainConfig_Rules_def rules_fit_def)
qed

theorem Prague_unchecked_witness:
  "CheckConfigForkOrder (mainnet\<lparr>cc_PragueTime := Some 1000\<rparr>) = None \<and>
   \<not> rules_fit (ChainConfig_Rules (mainnet\<lparr>cc_PragueTime := Some 1000\<rparr>) 1000)"
proof -
  have "isForked (Some 1000) 1000" "\<not> isForked (cc_TangerineWhistleBlock mainnet) 1000"
    by (simp_all add: isForked_def mainnet_def big_Uint64_def)
  then show ?thesis using Prague_unchecked [OF mainnet_checks, where t = "Some 1000" and num = 1000] by simp
qed

text \<open>
  C19: for fork blocks that are block numbers, \<^verbatim>\<open>CheckCompatible\<close> ends, reports a conflict exactly when
  there is one at the given height, and the block it says to rewind to is one at which the two
  configurations agree, unless it is the genesis block.
\<close>

theorem CheckCompatible_ends:
  assumes "config64 c" "config64 c'"
  shows "\<exists>r. CheckCompatible c c' height = Some r \<and> (r = None \<longleftrightarrow> checkCompatible c c' height = None) \<and>
    (\<forall>e. r = Some e \<longrightarrow> ce_RewindTo e = 0 \<or> checkCompatible c c' (ce_RewindTo e) = None)"
  using compat_loop_returns [OF assms, where lasterr = None and head = height] by (simp add: CheckCompatible_def)

theorem CheckCompatible_ends_witness:
  "\<exists>e. CheckCompatible mainnet (mainnet\<lparr>cc_LondonBlock := Some 13000000\<rparr>) 13500000 = Some (Some e) \<and>
     (ce_RewindTo e = 0 \<or> checkCompatible mainnet (mainnet\<lparr>cc_LondonBlock := Some 13000000\<rparr>) (ce_RewindTo e) = None)"
proof -
  let ?c' = "mainnet\<lparr>cc_LondonBlock := Some 13000000\<rparr>"
  have "config64 ?c'" by (simp add: mainnet_def config64_def fork_list_def block64_def)
  moreover have "checkCompatible mainnet ?c' 13500000 \<noteq> None"
    by (simp add: checkCompatible_def compat_checks_def mainnet_def isForkIncompatible_def isForked_def big_Uint64_def
        configNumEqual_def)
  ultimately show ?thesis using CheckCompatible_ends [OF mainnet_checks(3), of ?c' 13500000] by auto
qed

end
