(* ===== verification/Block_Header.thy ===== *)
theory Block_Header
  imports Amc_Prelude
begin

text \<open>
  Block headers (\<^verbatim>\<open>common/block/header.go\<close>). The nonce is the word its eight bytes spell big-endian;
  \<^verbatim>\<open>BaseFee\<close> may be nil. The cached hash is not a field: the hash of a header is a function of it.
\<close>

record Header =
  hd_ParentHash :: hash
  hd_Coinbase :: address
  hd_Root :: hash
  hd_TxHash :: hash
  hd_ReceiptHash :: hash
  hd_Bloom :: "byte list"
  hd_Difficulty :: u256
  hd_Number :: u256
  hd_GasLimit :: u64
  hd_GasUsed :: u64
  hd_Time :: u64
  hd_MixDigest :: hash
  hd_Nonce :: u64
  hd_Extra :: "byte list"
  hd_BaseFee :: "u256 option"
  hd_Signature :: "byte list"

text \<open>\<^verbatim>\<open>header.Number.Uint64()\<close>: the low 64 bits.\<close>

definition hd_num :: "Header \<Rightarrow> u64" where
  "hd_num h = ucast (hd_Number h)"

end
