(* ===== verification/Fee_Market.thy ===== *)
theory Fee_Market
  imports Chain_Config Block_Header
begin

text \<open>
  Gas limits and base fees: the checks of the headers (\<^verbatim>\<open>internal/consensus/misc/gaslimit.go\<close>,
  \<^verbatim>\<open>internal/consensus/misc/eip1559.go\<close>), the limit the miner picks (\<^verbatim>\<open>internal/miner/gasLimit.go\<close>), the header
  it starts from (\<^verbatim>\<open>prepareWork\<close> in \<^verbatim>\<open>internal/miner/worker.go\<close>) and the gas pool of a block
  (\<^verbatim>\<open>common/gaspool.go\<close>). Gas is 64-bit and wraps; base fees are unbounded integers while they are
  computed. An outer \<open>None\<close> is a panic. The divisor that bounds the change of a gas limit is the variable
  \<^verbatim>\<open>GasLimitBoundDivisor\<close>, which has its initial value: nothing calls \<^verbatim>\<open>ApplyBinanceSmartChainParams\<close>.
\<close>

abbreviation ElasticityMultiplier :: u64 where "ElasticityMultiplier \<equiv> 2"
abbreviation BaseFeeChangeDenominator :: int where "BaseFeeChangeDenominator \<equiv> 8"
abbreviation InitialBaseFee :: int where "InitialBaseFee \<equiv> 1000000000"
abbreviation GasLimitBoundDivisor :: u64 where "GasLimitBoundDivisor \<equiv> 1024"
abbreviation MinGasLimit :: u64 where "MinGasLimit \<equiv> 5000"
abbreviation MaxGasLimit :: u64 where "MaxGasLimit \<equiv> 0x7fffffffffffffff"

definition IsLondon :: "ChainConfig \<Rightarrow> u64 \<Rightarrow> bool" where
  "IsLondon c num = isForked (cc_LondonBlock c) num"

section \<open>Gas limits\<close>

datatype fee_error = errGasLimitBound | errGasLimitMinimum | errMissingBaseFee | errInvalidBaseFee

text \<open>The difference is taken as \<^verbatim>\<open>int64\<close>; negating the least one leaves it as it is.\<close>

definition VerifyGaslimit :: "u64 \<Rightarrow> u64 \<Rightarrow> fee_error option" where
  "VerifyGaslimit parentGasLimit headerGasLimit =
     (let diff = parentGasLimit - headerGasLimit;
          diff = (if sint diff < 0 then diff * (- 1) else diff);
          limit = parentGasLimit div GasLimitBoundDivisor
      in if limit \<le> diff then Some errGasLimitBound
         else if headerGasLimit < MinGasLimit then Some errGasLimitMinimum
         else None)"

definition CalcGasLimit :: "u64 \<Rightarrow> u64 \<Rightarrow> u64" where
  "CalcGasLimit parentGasLimit desiredLimit =
     (let delta = parentGasLimit div GasLimitBoundDivisor - 1;
          limit = parentGasLimit;
          desiredLimit = (if desiredLimit < MinGasLimit then MinGasLimit else desiredLimit)
      in if limit < desiredLimit
         then (let limit = parentGasLimit + delta in if desiredLimit < limit then desiredLimit else limit)
         else if desiredLimit < limit
         then (let limit = parentGasLimit - delta in if limit < desiredLimit then desiredLimit else limit)
         else limit)"

section \<open>Base fees\<close>

text \<open>
  The base fee of the parent is read, and panics when it is nil, once the parent is past the fork; a
  division by a gas target of zero panics.
\<close>

definition CalcBaseFee :: "ChainConfig \<Rightarrow> Header \<Rightarrow> int option" where
  "CalcBaseFee config parent =
     (if \<not> IsLondon config (hd_num parent) then Some InitialBaseFee
      else case hd_BaseFee parent of None \<Rightarrow> None
      | Some fee \<Rightarrow>
          (let base = uint fee; target = hd_GasLimit parent div ElasticityMultiplier; used = hd_GasUsed parent in
           if used = target then Some base
           else if target < used then
             (if target = 0 then None
              else let x = base * uint (used - target); y = x div uint target;
                       delta = max (y div BaseFeeChangeDenominator) 1
                   in Some (base + delta))
           else (let x = base * uint (target - used); y = x div uint target;
                     delta = y div BaseFeeChangeDenominator
                 in Some (max (base - delta) 0))))"

definition VerifyEip1559Header :: "ChainConfig \<Rightarrow> Header \<Rightarrow> Header \<Rightarrow> fee_error option option" where
  "VerifyEip1559Header config parent header =
     (let parentGasLimit = (if \<not> IsLondon config (hd_num parent)
                            then hd_GasLimit parent * ElasticityMultiplier else hd_GasLimit parent)
      in case VerifyGaslimit parentGasLimit (hd_GasLimit header) of Some err \<Rightarrow> Some (Some err)
         | None \<Rightarrow>
             (case hd_BaseFee header of None \<Rightarrow> Some (Some errMissingBaseFee)
              | Some fee \<Rightarrow>
                  (case CalcBaseFee config parent of None \<Rightarrow> None
                   | Some expected \<Rightarrow> Some (if uint fee \<noteq> expected then Some errInvalidBaseFee else None))))"

section \<open>The header the miner starts from\<close>

text \<open>
  \<^verbatim>\<open>uint256.FromBig\<close> keeps the low 256 bits. The two gas ceilings are fields of the worker, one of its
  node and one of its miner configuration.
\<close>

definition work_header :: "(Header \<Rightarrow> hash) \<Rightarrow> ChainConfig \<Rightarrow> u64 \<Rightarrow> u64 \<Rightarrow> Header \<Rightarrow> u64 \<Rightarrow> address \<Rightarrow> Header option" where
  "work_header hash config gasCeil minerGasCeil parent timestamp coinbase =
     (let timestamp = (if hd_Time parent \<ge> timestamp then hd_Time parent + 1 else timestamp);
          header = \<lparr>hd_ParentHash = hash parent, hd_Coinbase = coinbase, hd_Root = 0, hd_TxHash = 0, hd_ReceiptHash = 0,
            hd_Bloom = replicate 256 0, hd_Difficulty = 0, hd_Number = hd_Number parent + 1,
            hd_GasLimit = CalcGasLimit (hd_GasLimit parent) gasCeil, hd_GasUsed = 0, hd_Time = timestamp,
            hd_MixDigest = 0, hd_Nonce = 0, hd_Extra = [], hd_BaseFee = Some 0, hd_Signature = replicate 96 0\<rparr>
      in if IsLondon config (hd_num header) then
           (case CalcBaseFee config parent of None \<Rightarrow> None
            | Some fee \<Rightarrow>
                (let header = header\<lparr>hd_BaseFee := Some (word_of_int fee)\<rparr>
                 in Some (if \<not> IsLondon config (hd_num parent)
                          then header\<lparr>hd_GasLimit := CalcGasLimit (hd_GasLimit parent * ElasticityMultiplier) minerGasCeil\<rparr>
                          else header)))
         else Some header)"

section \<open>The gas pool\<close>

definition AddGas :: "u64 \<Rightarrow> u64 \<Rightarrow> u64 option" where
  "AddGas gp amount = (if gp > 0xFFFFFFFFFFFFFFFF - amount then None else Some (gp + amount))"

text \<open>\<open>None\<close> is the error that the gas limit is reached.\<close>

definition SubGas :: "u64 \<Rightarrow> u64 \<Rightarrow> u64 option" where
  "SubGas gp amount = (if gp < amount then None else Some (gp - amount))"

end
