(* ===== verification/Fee_Props.thy ===== *)
theory Fee_Props
  imports Fee_Market Config_Props
begin

text \<open>
  The gas limit the miner picks passes the check of the header, and the base fee moves towards the
  use of the parent block by at most an eighth.
\<close>

section \<open>Gas limits\<close>

lemma sint_neg_unat: "sint (d :: u64) < 0 \<longleftrightarrow> 2 ^ 63 \<le> unat d"
proof -
  have s: "sint d = (uint d + 2 ^ 63) mod 2 ^ 64 - 2 ^ 63"
    by (simp add: sint_uint signed_take_bit_eq_take_bit_shift take_bit_eq_mod)
  have b: "uint d < 2 ^ 64" "0 \<le> uint d" using unsigned_less [of d, where ?'a = int] by simp_all
  have "sint d < 0 \<longleftrightarrow> 2 ^ 63 \<le> uint d"
  proof (cases "uint d < 2 ^ 63")
    case True
    then have "(uint d + 2 ^ 63) mod 2 ^ 64 = uint d + 2 ^ 63" using b by (intro mod_pos_pos_trivial) simp_all
    then have "sint d = uint d" unfolding s by simp
    then show ?thesis using True b by linarith
  next
    case False
    have "uint d + 2 ^ 63 = (uint d - 2 ^ 63) + 2 ^ 64" by simp
    then have "(uint d + 2 ^ 63) mod 2 ^ 64 = (uint d - 2 ^ 63) mod 2 ^ 64" by (simp only: mod_add_self2)
    also have "\<dots> = uint d - 2 ^ 63" using b False by (intro mod_pos_pos_trivial) simp_all
    finally have m: "(uint d + 2 ^ 63) mod 2 ^ 64 = uint d - 2 ^ 63" .
    have "sint d = uint d - 2 ^ 64" unfolding s m by simp
    then show ?thesis using False b by linarith
  qed
  moreover have "uint d = int (unat d)" by simp
  ultimately show ?thesis by (simp only: numeral_power_le_of_nat_cancel_iff)
qed

text \<open>As numbers: the limits differ by less than the bound, and the new one is not below the minimum.\<close>

lemma unat_diff: "unat (a - b :: u64) = (if unat b \<le> unat a then unat a - unat b else unat a + 2 ^ 64 - unat b)"
  using unat_sub_if_size [of a b] by (simp add: word_size)

lemma VerifyGaslimit_iff:
  assumes "unat p < 2 ^ 63"
  shows "VerifyGaslimit p h = None \<longleftrightarrow>
    unat p < unat h + unat p div 1024 \<and> unat h < unat p + unat p div 1024 \<and> 5000 \<le> unat h"
proof -
  let ?d = "if sint (p - h) < 0 then (p - h) * (- 1) else p - h"
  have neg: "sint (p - h) < 0 \<longleftrightarrow> unat p < unat h \<and> unat h \<le> unat p + 2 ^ 63"
    using assms unsigned_less [of h, where ?'a = nat] by (auto simp: sint_neg_unat unat_diff)
  have lim: "unat (p div 1024) = unat p div 1024" by (simp add: unat_div)
  have "p div 1024 \<le> ?d \<longleftrightarrow> \<not> (unat p < unat h + unat p div 1024 \<and> unat h < unat p + unat p div 1024)"
  proof (cases "sint (p - h) < 0")
    case True
    then have "unat ?d = unat h - unat p" using neg by (simp add: unat_diff)
    then show ?thesis unfolding word_le_nat_alt lim using True neg by linarith
  next
    case False
    then have d: "unat ?d = (if unat h \<le> unat p then unat p - unat h else unat p + 2 ^ 64 - unat h)"
      by (simp add: unat_diff)
    show ?thesis unfolding word_le_nat_alt lim d
      using False neg assms unsigned_less [of h, where ?'a = nat] by (cases "unat h \<le> unat p") auto
  qed
  then show ?thesis unfolding VerifyGaslimit_def Let_def
    by (simp add: word_less_nat_alt) auto
qed

text \<open>The miner aims at the desired limit, as far as one step goes.\<close>

lemma unat_CalcGasLimit:
  assumes "1024 \<le> unat p" "unat p < 2 ^ 62"
  shows "unat (CalcGasLimit p d) =
    (let step = unat p div 1024 - 1; goal = max (unat d) 5000
     in if unat p < goal then min goal (unat p + step) else max goal (unat p - step))"
proof -
  have q: "unat (p div 1024) = unat p div 1024" "1 \<le> unat p div 1024" using assms(1) by (simp_all add: unat_div)
  then have step: "unat (p div 1024 - 1) = unat p div 1024 - 1" by (simp add: unat_diff)
  define g where "g = (if d < 5000 then 5000 else d)"
  define t where "t = p div 1024 - 1"
  have t: "unat t = unat p div 1024 - 1" "unat t \<le> unat p" using step by (simp_all add: t_def)
  have up: "unat (p + t) = unat p + unat t" using assms(2) t by (simp add: unat_word_ariths)
  have down: "unat (p - t) = unat p - unat t" using t by (simp add: unat_diff)
  have g: "max (unat d) 5000 = unat g" by (simp add: g_def word_less_nat_alt)
  have "CalcGasLimit p d = (if p < g then (if g < p + t then g else p + t)
      else if g < p then (if p - t < g then g else p - t) else p)"
    by (simp add: CalcGasLimit_def g_def t_def)
  then have "unat (CalcGasLimit p d) = (if unat p < unat g then min (unat g) (unat p + unat t)
      else max (unat g) (unat p - unat t))"
    by (auto simp: word_less_nat_alt up down min_def max_def)
  then show ?thesis unfolding Let_def g t(1) .
qed

lemma CalcGasLimit_range:
  assumes "5000 \<le> unat p" "unat p < 2 ^ 62"
  shows "unat p < unat (CalcGasLimit p d) + unat p div 1024 \<and> unat (CalcGasLimit p d) < unat p + unat p div 1024 \<and>
    5000 \<le> unat (CalcGasLimit p d)"
proof -
  define step where "step = unat p div 1024"
  have step: "1 \<le> step" "step \<le> unat p" using assms(1) by (simp_all add: step_def)
  have lim: "unat (CalcGasLimit p d) = (if unat p < max (unat d) 5000 then min (max (unat d) 5000) (unat p + (step - 1))
      else max (max (unat d) 5000) (unat p - (step - 1)))"
    using unat_CalcGasLimit [of p d] assms by (simp add: step_def Let_def)
  show ?thesis unfolding step_def [symmetric] lim using step assms(1) by (auto simp: min_def max_def)
qed

lemma CalcGasLimit_verifies:
  assumes "5000 \<le> unat p" "unat p < 2 ^ 62"
  shows "VerifyGaslimit p (CalcGasLimit p d) = None" "CalcGasLimit p d \<le> MaxGasLimit"
proof -
  have "unat p div 1024 < 2 ^ 62" using assms(2) div_le_dividend [of "unat p" 1024] by (rule_tac le_less_trans)
  then have "unat (CalcGasLimit p d) < 2 ^ 62 + 2 ^ 62"
    using CalcGasLimit_range [OF assms, of d, THEN conjunct2, THEN conjunct1] assms(2) by linarith
  then show "CalcGasLimit p d \<le> MaxGasLimit" by (simp add: word_le_nat_alt)
  show "VerifyGaslimit p (CalcGasLimit p d) = None"
    using CalcGasLimit_range [OF assms, of d] VerifyGaslimit_iff [of p "CalcGasLimit p d"] assms(2) by simp
qed

text \<open>
  C24: the gas limit the miner sets, from a parent limit of at least the minimum and below $2^{62}$,
  passes the check of the header against its parent, whatever the desired limit is; and it is the
  desired limit when that passes the check itself.
\<close>

theorem CalcGasLimit_accepted:
  assumes "5000 \<le> unat parent" "unat parent < 2 ^ 62"
  shows "VerifyGaslimit parent (CalcGasLimit parent desired) = None \<and>
    (VerifyGaslimit parent desired = None \<longrightarrow> CalcGasLimit parent desired = desired)"
proof -
  define step where "step = unat parent div 1024"
  have step: "1 \<le> step" using assms(1) by (simp add: step_def)
  have p: "unat parent < 2 ^ 63" using assms(2) by simp
  have "CalcGasLimit parent desired = desired" if v: "VerifyGaslimit parent desired = None"
  proof -
    have "unat (CalcGasLimit parent desired) = unat desired"
      using v step unat_CalcGasLimit [of parent desired] assms
      unfolding VerifyGaslimit_iff [OF p, folded step_def] Let_def step_def [symmetric] by (auto simp: min_def max_def)
    then show ?thesis by (simp add: word_unat_eq_iff)
  qed
  then show ?thesis using CalcGasLimit_verifies [OF assms] by blast
qed

section \<open>Base fees\<close>

lemma fee_step_bound:
  fixes b x t :: int
  assumes "0 \<le> b" "0 \<le> x" "x \<le> t" "0 < t"
  shows "0 \<le> b * x div t div 8" "b * x div t div 8 \<le> b div 8"
proof -
  have "b * x \<le> b * t" using assms by (intro mult_left_mono)
  then have "b * x div t \<le> b" using zdiv_mono1 [of "b * x" "b * t" t] assms(4) by simp
  then show "b * x div t div 8 \<le> b div 8" by (rule zdiv_mono1) simp
  show "0 \<le> b * x div t div 8" using assms by (simp add: pos_imp_zdiv_nonneg_iff)
qed

text \<open>
  C25: the base fee follows the use of the parent block. Past the fork, when the parent has a base fee
  and used at most twice its gas target, the next base fee is defined and not negative. It grows exactly
  when the parent used more than its target, stays when the target was met, and moves by at most an
  eighth (up by one, when an eighth is less).
\<close>

theorem CalcBaseFee_bounds:
  assumes "IsLondon config (hd_num parent)" "hd_BaseFee parent = Some fee" "2 \<le> hd_GasLimit parent"
    "unat (hd_GasUsed parent) \<le> 2 * (unat (hd_GasLimit parent) div 2)"
  shows "\<exists>f. CalcBaseFee config parent = Some f \<and> 0 \<le> f \<and> uint fee - uint fee div 8 \<le> f \<and>
    f \<le> uint fee + max (uint fee div 8) 1 \<and> (uint fee < f \<longleftrightarrow> hd_GasLimit parent div 2 < hd_GasUsed parent) \<and>
    (hd_GasUsed parent = hd_GasLimit parent div 2 \<longrightarrow> f = uint fee)"
proof -
  define t u b where "t = hd_GasLimit parent div 2" and "u = hd_GasUsed parent" and "b = uint fee"
  have b0: "0 \<le> b" by (simp add: b_def)
  then have b: "0 \<le> b" "b div 8 \<le> b" "0 \<le> b div 8" by presburger+
  have un: "uint x = int (unat x)" for x :: u64 by simp
  have ut: "unat t = unat (hd_GasLimit parent) div 2" by (simp add: t_def unat_div)
  then have t: "0 < unat t" "unat u \<le> 2 * unat t" using assms(3,4) by (auto simp: word_le_nat_alt u_def)
  have fee: "CalcBaseFee config parent = (if u = t then Some b
      else if t < u then (if t = 0 then None else Some (b + max (b * uint (u - t) div uint t div 8) 1))
      else Some (max (b - b * uint (t - u) div uint t div 8) 0))"
    using assms(1,2) by (simp add: CalcBaseFee_def t_def u_def b_def Let_def)
  consider "u = t" | "t < u" | "u < t" by fastforce
  then have "\<exists>f. CalcBaseFee config parent = Some f \<and> 0 \<le> f \<and> b - b div 8 \<le> f \<and> f \<le> b + max (b div 8) 1 \<and>
      (b < f \<longleftrightarrow> t < u) \<and> (u = t \<longrightarrow> f = b)"
  proof cases
    case 1
    then show ?thesis using fee b by simp
  next
    case 2
    then have "unat (u - t) \<le> unat t" using t by (simp add: unat_diff word_less_nat_alt)
    then have d: "0 \<le> uint (u - t)" "uint (u - t) \<le> uint t" "0 < uint t" "t \<noteq> 0"
      using t unfolding un of_nat_le_iff of_nat_0_less_iff by auto
    then show ?thesis using 2 fee fee_step_bound [OF b(1) d(1-3)] b by auto
  next
    case 3
    then have "unat (t - u) \<le> unat t" by (simp add: unat_diff word_less_nat_alt)
    then have d: "0 \<le> uint (t - u)" "uint (t - u) \<le> uint t" "0 < uint t"
      using t unfolding un of_nat_le_iff of_nat_0_less_iff by auto
    then show ?thesis using 3 fee fee_step_bound [OF b(1) d(1-3)] b by auto
  qed
  then show ?thesis unfolding t_def u_def b_def .
qed

text \<open>A parent past the fork that used its whole gas limit.\<close>

definition full_parent :: Header where
  "full_parent = \<lparr>hd_ParentHash = 0, hd_Coinbase = 0, hd_Root = 0, hd_TxHash = 0, hd_ReceiptHash = 0, hd_Bloom = [],
     hd_Difficulty = 2, hd_Number = 12965000, hd_GasLimit = 30000000, hd_GasUsed = 30000000, hd_Time = 0, hd_MixDigest = 0,
     hd_Nonce = 0, hd_Extra = [], hd_BaseFee = Some 800, hd_Signature = []\<rparr>"

theorem CalcGasLimit_accepted_witness:
  "VerifyGaslimit 30000000 (CalcGasLimit 30000000 40000000) = None \<and> VerifyGaslimit 30000000 30000001 = None \<and>
   CalcGasLimit 30000000 30000001 = 30000001"
proof -
  have "VerifyGaslimit 30000000 30000001 = None" by (simp add: VerifyGaslimit_iff)
  then show ?thesis using CalcGasLimit_accepted [of 30000000 40000000] CalcGasLimit_accepted [of 30000000 30000001] by simp
qed

theorem CalcBaseFee_bounds_witness:
  "IsLondon mainnet 12965000 \<and> (\<exists>f. CalcBaseFee mainnet full_parent = Some f \<and> 700 \<le> f \<and> f \<le> 900 \<and> 800 < f)"
proof -
  have l: "IsLondon mainnet 12965000" by (simp add: IsLondon_def isForked_def mainnet_def big_Uint64_def)
  then show ?thesis
    using CalcBaseFee_bounds [of mainnet full_parent 800] by (auto simp: full_parent_def hd_num_def)
qed

end
