(* ===== verification/Apos_Snapshot.thy ===== *)
theory Apos_Snapshot
  imports Fee_Market
begin

text \<open>
  The voting snapshots of the proof-of-authority engine (\<^verbatim>\<open>internal/consensus/apos/snapshot.go\<close>; the file
  of the engine \<^verbatim>\<open>apoa\<close> differs only in names): the authorised signers, who signed recently, the votes to
  change the signers and their tally. Go maps are a set of addresses and partial functions. Recovering
  the signer of a header is a parameter \<open>sigrec\<close>, \<open>None\<close> when the signature is not valid; the cache in
  front of it is transparent and left out, as is logging. The epoch is not 0, by which Go would panic:
  \<^verbatim>\<open>New\<close> replaces 0 by the default.
\<close>

abbreviation extraVanity :: nat where "extraVanity \<equiv> 32"
abbreviation extraSeal :: nat where "extraSeal \<equiv> 65"
abbreviation nonceAuthVote :: u64 where "nonceAuthVote \<equiv> 0xFFFFFFFFFFFFFFFF"
abbreviation nonceDropVote :: u64 where "nonceDropVote \<equiv> 0"

datatype poa_error =
    errUnknownBlock
  | errInvalidCheckpointBeneficiary
  | errInvalidVote
  | errInvalidCheckpointVote
  | errMissingVanity
  | errMissingSignature
  | errExtraSigners
  | errInvalidCheckpointSigners
  | errMismatchingCheckpointSigners
  | errInvalidMixDigest
  | errInvalidDifficulty
  | errWrongDifficulty
  | errInvalidTimestamp
  | errInvalidVotingChain
  | errUnauthorizedSigner
  | errRecentlySigned
  | errFutureBlock
  | errGasLimit
  | errGasUsed
  | errBaseFee
  | errFee fee_error
  | errSignature
  | errSignedRecentlyWait
  | errSealingPaused
  | errUnknownAncestor

section \<open>Snapshots\<close>

record Vote =
  vt_Signer :: address
  vt_Block :: u64
  vt_Address :: address
  vt_Authorize :: bool

record Tally =
  tl_Authorize :: bool
  tl_Votes :: nat

record Snapshot =
  ps_Epoch :: u64
  ps_Number :: u64
  ps_Hash :: hash
  ps_Signers :: "address set"
  ps_Recents :: "u64 \<Rightarrow> address option"
  ps_Votes :: "Vote list"
  ps_Tally :: "address \<Rightarrow> Tally option"

definition ecrecover :: "(Header \<Rightarrow> address option) \<Rightarrow> Header \<Rightarrow> (address, poa_error) sum" where
  "ecrecover sigrec h =
     (if length (hd_Extra h) < extraSeal then Inr errMissingSignature
      else (case sigrec h of None \<Rightarrow> Inr errSignature | Some a \<Rightarrow> Inl a))"

definition newSnapshot :: "u64 \<Rightarrow> u64 \<Rightarrow> hash \<Rightarrow> address list \<Rightarrow> Snapshot" where
  "newSnapshot epoch number h signers =
     \<lparr>ps_Epoch = epoch, ps_Number = number, ps_Hash = h, ps_Signers = set signers,
      ps_Recents = Map.empty, ps_Votes = [], ps_Tally = Map.empty\<rparr>"

definition sign_limit :: "Snapshot \<Rightarrow> u64" where
  "sign_limit s = of_nat (card (ps_Signers s) div 2 + 1)"

definition validVote :: "Snapshot \<Rightarrow> address \<Rightarrow> bool \<Rightarrow> bool" where
  "validVote s a authorize =
     (let signer = (a \<in> ps_Signers s) in (signer \<and> \<not> authorize) \<or> (\<not> signer \<and> authorize))"

definition cast_vote :: "Snapshot \<Rightarrow> address \<Rightarrow> bool \<Rightarrow> bool \<times> Snapshot" where
  "cast_vote s a authorize =
     (if \<not> validVote s a authorize then (False, s)
      else (True, s\<lparr>ps_Tally := (ps_Tally s)(a \<mapsto>
        (case ps_Tally s a of Some old \<Rightarrow> old\<lparr>tl_Votes := tl_Votes old + 1\<rparr>
         | None \<Rightarrow> \<lparr>tl_Authorize = authorize, tl_Votes = 1\<rparr>))\<rparr>))"

definition uncast :: "Snapshot \<Rightarrow> address \<Rightarrow> bool \<Rightarrow> bool \<times> Snapshot" where
  "uncast s a authorize =
     (case ps_Tally s a of None \<Rightarrow> (False, s)
      | Some tally \<Rightarrow>
          if tl_Authorize tally \<noteq> authorize then (False, s)
          else if tl_Votes tally > 1
            then (True, s\<lparr>ps_Tally := (ps_Tally s)(a \<mapsto> tally\<lparr>tl_Votes := tl_Votes tally - 1\<rparr>)\<rparr>)
          else (True, s\<lparr>ps_Tally := (ps_Tally s)(a := None)\<rparr>))"

section \<open>Applying headers\<close>

text \<open>The first vote of the signer on the account is taken back, and the loop stops.\<close>

fun discard_vote :: "address \<Rightarrow> address \<Rightarrow> Vote list \<Rightarrow> Vote list \<Rightarrow> Snapshot \<Rightarrow> Snapshot" where
  "discard_vote signer a kept [] s = s"
| "discard_vote signer a kept (v # vs) s =
     (if vt_Signer v = signer \<and> vt_Address v = a
      then (snd (uncast s (vt_Address v) (vt_Authorize v)))\<lparr>ps_Votes := kept @ vs\<rparr>
      else discard_vote signer a (kept @ [v]) vs s)"

text \<open>Every vote a removed signer cast is taken back.\<close>

fun discard_votes_of :: "address \<Rightarrow> Vote list \<Rightarrow> Vote list \<Rightarrow> Snapshot \<Rightarrow> Snapshot" where
  "discard_votes_of a kept [] s = s\<lparr>ps_Votes := kept\<rparr>"
| "discard_votes_of a kept (v # vs) s =
     (if vt_Signer v = a
      then discard_votes_of a kept vs (snd (uncast s (vt_Address v) (vt_Authorize v)))
      else discard_votes_of a (kept @ [v]) vs s)"

definition drop_recent :: "Snapshot \<Rightarrow> u64 \<Rightarrow> Snapshot" where
  "drop_recent s number =
     (if number \<ge> sign_limit s then s\<lparr>ps_Recents := (ps_Recents s)(number - sign_limit s := None)\<rparr> else s)"

text \<open>When a majority is reached the account is added or removed, and the votes on it go.\<close>

definition pass_vote :: "Snapshot \<Rightarrow> u64 \<Rightarrow> address \<Rightarrow> Snapshot" where
  "pass_vote s number a =
     (case ps_Tally s a of None \<Rightarrow> s
      | Some tally \<Rightarrow>
          if tl_Votes tally > card (ps_Signers s) div 2 then
            (let s = (if tl_Authorize tally then s\<lparr>ps_Signers := insert a (ps_Signers s)\<rparr>
                      else (let s = drop_recent (s\<lparr>ps_Signers := ps_Signers s - {a}\<rparr>) number
                            in discard_votes_of a [] (ps_Votes s) s))
             in s\<lparr>ps_Votes := filter (\<lambda>v. vt_Address v \<noteq> a) (ps_Votes s), ps_Tally := (ps_Tally s)(a := None)\<rparr>)
          else s)"

definition apply_vote :: "Snapshot \<Rightarrow> u64 \<Rightarrow> address \<Rightarrow> address \<Rightarrow> bool \<Rightarrow> Snapshot" where
  "apply_vote s number signer a authorize =
     (let (counted, s) = cast_vote s a authorize;
          s = (if counted then s\<lparr>ps_Votes := ps_Votes s @
                [\<lparr>vt_Signer = signer, vt_Block = number, vt_Address = a, vt_Authorize = authorize\<rparr>]\<rparr> else s)
      in pass_vote s number a)"

definition apply_header :: "(Header \<Rightarrow> address option) \<Rightarrow> Header \<Rightarrow> Snapshot \<Rightarrow> (Snapshot, poa_error) sum" where
  "apply_header sigrec h s =
     (let number = hd_num h;
          s = (if number mod ps_Epoch s = 0 then s\<lparr>ps_Votes := [], ps_Tally := Map.empty\<rparr> else s);
          s = drop_recent s number
      in case ecrecover sigrec h of Inr err \<Rightarrow> Inr err
         | Inl signer \<Rightarrow>
             if signer \<notin> ps_Signers s then Inr errUnauthorizedSigner
             else if signer \<in> ran (ps_Recents s) then Inr errRecentlySigned
             else (let s = s\<lparr>ps_Recents := (ps_Recents s)(number \<mapsto> signer)\<rparr>;
                       s = discard_vote signer (hd_Coinbase h) [] (ps_Votes s) s
                   in if hd_Nonce h = nonceAuthVote then Inl (apply_vote s number signer (hd_Coinbase h) True)
                      else if hd_Nonce h = nonceDropVote then Inl (apply_vote s number signer (hd_Coinbase h) False)
                      else Inr errInvalidVote))"

fun apply_headers :: "(Header \<Rightarrow> address option) \<Rightarrow> Header list \<Rightarrow> Snapshot \<Rightarrow> (Snapshot, poa_error) sum" where
  "apply_headers sigrec [] s = Inl s"
| "apply_headers sigrec (h # hs) s =
     (case apply_header sigrec h s of Inr err \<Rightarrow> Inr err | Inl s \<Rightarrow> apply_headers sigrec hs s)"

definition contiguous :: "Header list \<Rightarrow> bool" where
  "contiguous hs \<longleftrightarrow> list_all (\<lambda>(h, h'). hd_num h' = hd_num h + 1) (zip hs (tl hs))"

definition snap_apply ::
  "(Header \<Rightarrow> hash) \<Rightarrow> (Header \<Rightarrow> address option) \<Rightarrow> Snapshot \<Rightarrow> Header list \<Rightarrow> (Snapshot, poa_error) sum" where
  "snap_apply hash sigrec s headers =
     (if headers = [] then Inl s
      else if \<not> contiguous headers \<or> hd_num (hd headers) \<noteq> ps_Number s + 1 then Inr errInvalidVotingChain
      else (case apply_headers sigrec headers s of Inr err \<Rightarrow> Inr err
            | Inl snap \<Rightarrow> Inl (snap\<lparr>ps_Number := ps_Number snap + of_nat (length headers),
                                    ps_Hash := hash (last headers)\<rparr>)))"

definition snap_signers :: "Snapshot \<Rightarrow> address list" where
  "snap_signers s = sorted_list_of_set (ps_Signers s)"

text \<open>The remainder by the number of signers panics when there is none.\<close>

definition inturn :: "Snapshot \<Rightarrow> u64 \<Rightarrow> address \<Rightarrow> bool option" where
  "inturn s number signer =
     (let signers = snap_signers s; offset = length (takeWhile (\<lambda>a. a \<noteq> signer) signers) in
      if signers = [] then None else Some (number mod of_nat (length signers) = of_nat offset))"

end
