(* ===== verification/Apos_Props.thy ===== *)
theory Apos_Props
  imports Apos_Snapshot
begin

text \<open>
  The voting snapshots: the tally is always the recount of the votes, votes are cast by signers and at
  most once per account, the signers change only by a majority of the epoch, nobody signs twice within half of the
  signers, some signer may always sign the next block, and applying headers in portions is applying
  them at once.
\<close>

section \<open>The tally is the recount of the votes\<close>

definition votes_on :: "address \<Rightarrow> Vote list \<Rightarrow> nat" where
  "votes_on a vs = length (filter (\<lambda>v. vt_Address v = a) vs)"

text \<open>\<open>au a\<close> is what a vote on \<open>a\<close> is for: to authorise it, or to drop it.\<close>

definition recount :: "(address \<Rightarrow> bool) \<Rightarrow> Vote list \<Rightarrow> address \<Rightarrow> Tally option" where
  "recount au vs a = (if votes_on a vs = 0 then None else Some \<lparr>tl_Authorize = au a, tl_Votes = votes_on a vs\<rparr>)"

definition counted :: "(address \<Rightarrow> bool) \<Rightarrow> Vote list \<Rightarrow> (address \<Rightarrow> Tally option) \<Rightarrow> bool" where
  "counted au vs t \<longleftrightarrow> (\<forall>v \<in> set vs. vt_Authorize v = au (vt_Address v)) \<and> t = recount au vs"

lemma votes_on_simps [simp]:
  "votes_on a [] = 0" "votes_on a (vs @ ws) = votes_on a vs + votes_on a ws"
  "votes_on a (v # vs) = (if vt_Address v = a then Suc (votes_on a vs) else votes_on a vs)"
  by (simp_all add: votes_on_def)

lemma counted_Nil: "counted au [] Map.empty"
  by (auto simp: counted_def recount_def)

lemma uncast_fields:
  "ps_Votes (snd (uncast s a b)) = ps_Votes s" "ps_Signers (snd (uncast s a b)) = ps_Signers s"
  "ps_Recents (snd (uncast s a b)) = ps_Recents s" "ps_Epoch (snd (uncast s a b)) = ps_Epoch s"
  "ps_Number (snd (uncast s a b)) = ps_Number s"
  by (auto simp: uncast_def split: option.splits)

lemma counted_uncast:
  assumes "counted au (xs @ v # ys) (ps_Tally s)"
  shows "counted au (xs @ ys) (ps_Tally (snd (uncast s (vt_Address v) (vt_Authorize v))))"
  using assms by (auto simp: counted_def uncast_def recount_def fun_eq_iff)

lemma counted_cast:
  assumes "counted au vs (ps_Tally s)" "au a \<longleftrightarrow> a \<notin> ps_Signers s" "cast_vote s a authorize = (True, s')"
    "vt_Address v = a" "vt_Authorize v = authorize"
  shows "counted au (vs @ [v]) (ps_Tally s')"
proof -
  have t: "ps_Tally s = recount au vs" "\<forall>v \<in> set vs. vt_Authorize v = au (vt_Address v)"
    using assms(1) by (simp_all add: counted_def)
  have ok: "authorize = au a" "ps_Tally s' = (ps_Tally s)(a \<mapsto> (case ps_Tally s a of
      Some old \<Rightarrow> old\<lparr>tl_Votes := tl_Votes old + 1\<rparr> | None \<Rightarrow> \<lparr>tl_Authorize = authorize, tl_Votes = 1\<rparr>))"
    using assms(2,3) by (auto simp: cast_vote_def validVote_def Let_def split: if_splits)
  have "ps_Tally s' = recount au (vs @ [v])"
    unfolding ok(2) t(1) using assms(4) ok(1) by (intro ext) (simp add: recount_def)
  then show ?thesis using t(2) ok(1) assms(4,5) by (auto simp: counted_def)
qed

lemma cast_vote_fields:
  assumes "cast_vote s a authorize = (b, s')"
  shows "ps_Votes s' = ps_Votes s" "ps_Signers s' = ps_Signers s" "ps_Recents s' = ps_Recents s"
    "ps_Epoch s' = ps_Epoch s" "ps_Number s' = ps_Number s" "\<not> b \<Longrightarrow> s' = s"
  using assms by (auto simp: cast_vote_def split: if_splits)

section \<open>Discarding votes\<close>

abbreviation vote_key :: "Vote \<Rightarrow> address \<times> address" where
  "vote_key v \<equiv> (vt_Signer v, vt_Address v)"

lemma discard_vote_ok:
  assumes "counted au (kept @ vs) (ps_Tally s)" "ps_Votes s = kept @ vs" "distinct (map vote_key (kept @ vs))"
    "\<forall>v \<in> set kept. vote_key v \<noteq> (signer, a)" "s' = discard_vote signer a kept vs s"
  shows "counted au (filter (\<lambda>v. vote_key v \<noteq> (signer, a)) (kept @ vs)) (ps_Tally s') \<and>
    ps_Votes s' = filter (\<lambda>v. vote_key v \<noteq> (signer, a)) (kept @ vs) \<and>
    ps_Signers s' = ps_Signers s \<and> ps_Recents s' = ps_Recents s \<and> ps_Epoch s' = ps_Epoch s \<and> ps_Number s' = ps_Number s"
  using assms
proof (induction vs arbitrary: kept)
  case Nil
  then have "filter (\<lambda>v. vote_key v \<noteq> (signer, a)) kept = kept" by (simp add: filter_id_conv)
  with Nil show ?case by simp
next
  case (Cons v vs)
  show ?case
  proof (cases "vote_key v = (signer, a)")
    case True
    then have "\<forall>w \<in> set vs. vote_key w \<noteq> (signer, a)" using Cons.prems(3) by (force simp: image_iff)
    then have "filter (\<lambda>v. vote_key v \<noteq> (signer, a)) (kept @ v # vs) = kept @ vs"
      using Cons.prems(4) True by (simp add: filter_id_conv)
    then show ?thesis using True Cons.prems(5) counted_uncast [OF Cons.prems(1)] by (simp add: uncast_fields)
  next
    case False
    have "s' = discard_vote signer a (kept @ [v]) vs s" using Cons.prems(5) False by auto
    then show ?thesis using Cons.IH [of "kept @ [v]"] Cons.prems(1-4) False by simp
  qed
qed

lemma discard_votes_of_ok:
  assumes "counted au (kept @ vs) (ps_Tally s)" "s' = discard_votes_of a kept vs s"
  shows "counted au (kept @ filter (\<lambda>v. vt_Signer v \<noteq> a) vs) (ps_Tally s') \<and>
    ps_Votes s' = kept @ filter (\<lambda>v. vt_Signer v \<noteq> a) vs \<and>
    ps_Signers s' = ps_Signers s \<and> ps_Recents s' = ps_Recents s \<and> ps_Epoch s' = ps_Epoch s \<and> ps_Number s' = ps_Number s"
  using assms
proof (induction vs arbitrary: kept s)
  case Nil
  then show ?case by simp
next
  case (Cons v vs)
  show ?case
  proof (cases "vt_Signer v = a")
    case True
    then show ?thesis using Cons.IH [of kept "snd (uncast s (vt_Address v) (vt_Authorize v))"] Cons.prems
        counted_uncast [OF Cons.prems(1)] by (simp add: uncast_fields)
  next
    case False
    then show ?thesis using Cons.IH [of "kept @ [v]" s] Cons.prems by simp
  qed
qed

lemma discard_fields:
  "ps_Recents (discard_votes_of a kept vs s) = ps_Recents s" "ps_Signers (discard_votes_of a kept vs s) = ps_Signers s"
  "ps_Epoch (discard_votes_of a kept vs s) = ps_Epoch s" "ps_Number (discard_votes_of a kept vs s) = ps_Number s"
  by (induction vs arbitrary: kept s) (simp_all add: uncast_fields)

lemma counted_drop_account:
  assumes "counted au vs t" "\<And>b. b \<noteq> a \<Longrightarrow> au' b = au b"
  shows "counted au' (filter (\<lambda>v. vt_Address v \<noteq> a) vs) (t(a := None))"
proof -
  have "votes_on b (filter (\<lambda>v. vt_Address v \<noteq> a) vs) = (if b = a then 0 else votes_on b vs)" for b
    by (induction vs) auto
  then show ?thesis using assms by (auto simp: counted_def recount_def fun_eq_iff)
qed

section \<open>The voting invariant\<close>

abbreviation wanted :: "Snapshot \<Rightarrow> address \<Rightarrow> bool" where
  "wanted s a \<equiv> a \<notin> ps_Signers s"

definition voting_ok :: "Snapshot \<Rightarrow> bool" where
  "voting_ok s \<longleftrightarrow> finite (ps_Signers s) \<and> counted (wanted s) (ps_Votes s) (ps_Tally s) \<and>
     distinct (map vote_key (ps_Votes s)) \<and> vt_Signer ` set (ps_Votes s) \<subseteq> ps_Signers s"

lemma distinct_keys_filter: "distinct (map vote_key vs) \<Longrightarrow> distinct (map vote_key (filter P vs))"
  by (rule distinct_map_filter)

lemma drop_recent_fields [simp]:
  "ps_Votes (drop_recent s n) = ps_Votes s" "ps_Signers (drop_recent s n) = ps_Signers s"
  "ps_Tally (drop_recent s n) = ps_Tally s" "ps_Epoch (drop_recent s n) = ps_Epoch s"
  "ps_Number (drop_recent s n) = ps_Number s"
  by (simp_all add: drop_recent_def)

lemma voting_ok_drop [simp]: "voting_ok (drop_recent s n) = voting_ok s"
  by (simp add: voting_ok_def)

lemma voting_ok_recents [simp]: "voting_ok (s\<lparr>ps_Recents := r\<rparr>) = voting_ok s"
  by (simp add: voting_ok_def)

lemma voting_ok_reset: "voting_ok s \<Longrightarrow> voting_ok (s\<lparr>ps_Votes := [], ps_Tally := Map.empty\<rparr>)"
  by (simp add: voting_ok_def counted_Nil)

lemma discard_vote_voting:
  assumes "voting_ok s" "s' = discard_vote signer a [] (ps_Votes s) s"
  shows "voting_ok s' \<and> (signer, a) \<notin> vote_key ` set (ps_Votes s') \<and> set (ps_Votes s') \<subseteq> set (ps_Votes s) \<and>
    ps_Signers s' = ps_Signers s \<and> ps_Recents s' = ps_Recents s \<and> ps_Epoch s' = ps_Epoch s \<and> ps_Number s' = ps_Number s"
proof -
  have "counted (wanted s) (filter (\<lambda>v. vote_key v \<noteq> (signer, a)) (ps_Votes s)) (ps_Tally s') \<and>
    ps_Votes s' = filter (\<lambda>v. vote_key v \<noteq> (signer, a)) (ps_Votes s) \<and> ps_Signers s' = ps_Signers s \<and>
    ps_Recents s' = ps_Recents s \<and> ps_Epoch s' = ps_Epoch s \<and> ps_Number s' = ps_Number s"
    using discard_vote_ok [of "wanted s" "[]" "ps_Votes s" s signer a s'] assms by (simp add: voting_ok_def)
  then show ?thesis using assms(1) distinct_keys_filter [of "ps_Votes s"] by (auto simp: voting_ok_def)
qed

text \<open>
  The three ways a vote can end: no majority, the account is added, or it is removed together with
  the votes it cast.
\<close>

lemma pass_voteE:
  obtains (wait) "pass_vote s n a = s"
  | (add) t where "ps_Tally s a = Some t" "card (ps_Signers s) div 2 < tl_Votes t" "tl_Authorize t"
      "pass_vote s n a = s\<lparr>ps_Signers := insert a (ps_Signers s),
         ps_Votes := filter (\<lambda>v. vt_Address v \<noteq> a) (ps_Votes s), ps_Tally := (ps_Tally s)(a := None)\<rparr>"
  | (remove) t s' where "ps_Tally s a = Some t" "card (ps_Signers s) div 2 < tl_Votes t" "\<not> tl_Authorize t"
      "s' = discard_votes_of a [] (ps_Votes s) (drop_recent (s\<lparr>ps_Signers := ps_Signers s - {a}\<rparr>) n)"
      "pass_vote s n a = s'\<lparr>ps_Votes := filter (\<lambda>v. vt_Address v \<noteq> a) (ps_Votes s'), ps_Tally := (ps_Tally s')(a := None)\<rparr>"
proof (cases "ps_Tally s a")
  case None
  then show thesis by (intro wait) (simp add: pass_vote_def)
next
  case (Some t)
  consider "\<not> card (ps_Signers s) div 2 < tl_Votes t" | "card (ps_Signers s) div 2 < tl_Votes t" "tl_Authorize t"
    | "card (ps_Signers s) div 2 < tl_Votes t" "\<not> tl_Authorize t" by blast
  then show thesis
  proof cases
    case 1
    then show thesis by (intro wait) (simp add: pass_vote_def Some)
  next
    case 2
    then show thesis by (intro add [OF Some]) (simp_all add: pass_vote_def Some Let_def)
  next
    case 3
    then show thesis by (intro remove [OF Some _ _ refl]) (simp_all add: pass_vote_def Some Let_def)
  qed
qed

lemma pass_vote_voting:
  assumes "voting_ok s"
  shows "voting_ok (pass_vote s n a)"
proof (cases rule: pass_voteE [of s n a])
  case wait
  then show ?thesis using assms by simp
next
  case (add t)
  have "counted (\<lambda>b. b \<notin> insert a (ps_Signers s)) (filter (\<lambda>v. vt_Address v \<noteq> a) (ps_Votes s)) ((ps_Tally s)(a := None))"
    by (rule counted_drop_account [of "wanted s"]) (use assms in \<open>auto simp: voting_ok_def\<close>)
  then show ?thesis unfolding add(4) using assms distinct_keys_filter by (auto simp: voting_ok_def)
next
  case (remove t s')
  have d: "counted (wanted s) (filter (\<lambda>v. vt_Signer v \<noteq> a) (ps_Votes s)) (ps_Tally s')"
      "ps_Votes s' = filter (\<lambda>v. vt_Signer v \<noteq> a) (ps_Votes s)" "ps_Signers s' = ps_Signers s - {a}"
    using discard_votes_of_ok [OF _ remove(4), of "wanted s"] assms by (auto simp: voting_ok_def)
  have "counted (\<lambda>b. b \<notin> ps_Signers s - {a}) (filter (\<lambda>v. vt_Address v \<noteq> a) (ps_Votes s')) ((ps_Tally s')(a := None))"
    unfolding d(2) by (rule counted_drop_account [OF d(1)]) simp
  then show ?thesis unfolding remove(5) using assms d(2,3) distinct_keys_filter by (auto simp: voting_ok_def)
qed

section \<open>The recent signers\<close>

text \<open>After block \<open>n\<close> the recent signers are those of the last blocks, fewer than the limit, all different.\<close>

definition half :: "Snapshot \<Rightarrow> nat" where
  "half s = card (ps_Signers s) div 2 + 1"

definition window :: "nat \<Rightarrow> nat \<Rightarrow> (u64 \<Rightarrow> address option) \<Rightarrow> bool" where
  "window n l r \<longleftrightarrow> (\<forall>k a. r k = Some a \<longrightarrow> unat k \<le> n \<and> n < unat k + l) \<and>
     (\<forall>k k' a. r k = Some a \<longrightarrow> r k' = Some a \<longrightarrow> k = k')"

lemma unat_of_nat64: "n < 2 ^ 64 \<Longrightarrow> unat (of_nat n :: u64) = n"
  by (simp add: unsigned_of_nat take_bit_nat_eq_self)

lemma sign_limit_half: "sign_limit s = of_nat (half s)"
  by (simp add: sign_limit_def half_def)

lemma window_drop:
  assumes "\<forall>k a. ps_Recents s k = Some a \<longrightarrow> unat k \<le> m \<and> n \<le> unat k + half s"
    and "n < 2 ^ 64" "half s < 2 ^ 64"
  shows "\<forall>k a. ps_Recents (drop_recent s (of_nat n)) k = Some a \<longrightarrow> unat k \<le> m \<and> n < unat k + half s \<and> ps_Recents s k = Some a"
proof -
  have l: "unat (sign_limit s) = half s" "unat (of_nat n :: u64) = n"
    using assms(2,3) by (simp_all add: sign_limit_half unat_of_nat64)
  have k: "k \<noteq> of_nat n - sign_limit s \<longleftrightarrow> unat k \<noteq> n - half s" if "sign_limit s \<le> of_nat n" for k
    using that l by (metis unat_sub word_unat_eq_iff)
  show ?thesis
    using assms(1) l k by (auto simp: drop_recent_def word_le_nat_alt split: if_splits)
qed

lemma window_add:
  assumes "\<forall>k a. r k = Some a \<longrightarrow> unat k \<le> n \<and> Suc n < unat k + l \<and> q k = Some a" "window n l' q"
    "a \<notin> ran r" "unat number = Suc n" "0 < l"
  shows "window (Suc n) l (r(number \<mapsto> a))"
proof -
  have "k = k'" if "r k = Some b" "r k' = Some b" for k k' b using assms(1,2) that unfolding window_def by blast
  moreover have "b \<noteq> a" if "r k = Some b" for k b using assms(3) that by (auto simp: ran_def)
  moreover have "unat k \<le> Suc n \<and> Suc n < unat k + l" if "(r(number \<mapsto> a)) k = Some b" for k b
    using that assms(1,4,5) by (cases "k = number") force+
  ultimately show ?thesis unfolding window_def by (metis fun_upd_apply option.inject)
qed

lemma window_pass:
  assumes w: "window n (half s) (ps_Recents s)" and fin: "finite (ps_Signers s)"
    and n: "n < 2 ^ 64" "half s < 2 ^ 64"
  shows "window n (half (pass_vote s (of_nat n) a)) (ps_Recents (pass_vote s (of_nat n) a))"
proof (cases rule: pass_voteE [of s "of_nat n" a])
  case wait
  then show ?thesis using w by simp
next
  case (add t)
  have "half s \<le> half (pass_vote s (of_nat n) a)" using fin unfolding add(4) half_def
    by (simp add: card_insert_if div_le_mono)
  then show ?thesis using w unfolding add(4) window_def by fastforce
next
  case (remove t s')
  let ?s = "s\<lparr>ps_Signers := ps_Signers s - {a}\<rparr>"
  have h: "half s \<le> half ?s + 1" "half ?s \<le> half s" using fin by (auto simp: half_def card_Diff_singleton_if)
  have f: "ps_Recents s' = ps_Recents (drop_recent ?s (of_nat n))" "ps_Signers s' = ps_Signers ?s"
    unfolding remove(4) by (simp_all add: discard_fields)
  have "\<forall>k a. ps_Recents (drop_recent ?s (of_nat n)) k = Some a \<longrightarrow>
      unat k \<le> n \<and> n < unat k + half ?s \<and> ps_Recents ?s k = Some a"
    by (rule window_drop) (use w h n in \<open>auto simp: window_def\<close>)
  then have "window n (half ?s) (ps_Recents s')" using w unfolding f window_def by simp
  moreover have "half (pass_vote s (of_nat n) a) = half ?s" unfolding remove(5) half_def using f by simp
  ultimately show ?thesis unfolding remove(5) by simp
qed

section \<open>One header\<close>

definition snap_inv :: "nat \<Rightarrow> Snapshot \<Rightarrow> bool" where
  "snap_inv n s \<longleftrightarrow> voting_ok s \<and> window n (half s) (ps_Recents s)"

text \<open>The snapshot the signer of a header is checked against.\<close>

definition before_header :: "Header \<Rightarrow> Snapshot \<Rightarrow> Snapshot" where
  "before_header h s = drop_recent
     (if hd_num h mod ps_Epoch s = 0 then s\<lparr>ps_Votes := [], ps_Tally := Map.empty\<rparr> else s) (hd_num h)"

lemma before_header_fields [simp]:
  "ps_Signers (before_header h s) = ps_Signers s" "ps_Epoch (before_header h s) = ps_Epoch s"
  "ps_Number (before_header h s) = ps_Number s" "half (before_header h s) = half s"
  by (simp_all add: before_header_def half_def)

lemma before_header_voting: "voting_ok s \<Longrightarrow> voting_ok (before_header h s)"
  by (simp add: before_header_def voting_ok_reset)

lemma before_header_votes:
  "ps_Votes (before_header h s) = (if hd_num h mod ps_Epoch s = 0 then [] else ps_Votes s)"
  by (simp add: before_header_def)

lemma before_header_window:
  assumes "window n (half s) (ps_Recents s)" "hd_num h = of_nat (Suc n)" "Suc n < 2 ^ 64" "half s < 2 ^ 64"
  shows "\<forall>k a. ps_Recents (before_header h s) k = Some a \<longrightarrow> unat k \<le> n \<and> Suc n < unat k + half s \<and> ps_Recents s k = Some a"
proof -
  let ?s = "if hd_num h mod ps_Epoch s = 0 then s\<lparr>ps_Votes := [], ps_Tally := Map.empty\<rparr> else s"
  have f: "ps_Recents ?s = ps_Recents s" "half ?s = half s" by (simp_all add: half_def)
  have "\<forall>k a. ps_Recents (drop_recent ?s (of_nat (Suc n))) k = Some a \<longrightarrow>
      unat k \<le> n \<and> Suc n < unat k + half ?s \<and> ps_Recents ?s k = Some a"
    by (rule window_drop) (use assms(1,3,4) f in \<open>auto simp: window_def\<close>)
  then show ?thesis unfolding before_header_def assms(2) by (simp only: f [unfolded assms(2)])
qed

lemma apply_headerE:
  assumes "apply_header sigrec h s = Inl s'"
  obtains signer authorize s4 where "ecrecover sigrec h = Inl signer" "signer \<in> ps_Signers s"
    "signer \<notin> ran (ps_Recents (before_header h s))"
    "s4 = discard_vote signer (hd_Coinbase h) [] (ps_Votes (before_header h s))
       ((before_header h s)\<lparr>ps_Recents := (ps_Recents (before_header h s))(hd_num h \<mapsto> signer)\<rparr>)"
    "s' = apply_vote s4 (hd_num h) signer (hd_Coinbase h) authorize"
    "authorize = (hd_Nonce h = nonceAuthVote)" "hd_Nonce h = nonceAuthVote \<or> hd_Nonce h = nonceDropVote"
  using assms unfolding apply_header_def before_header_def [symmetric] Let_def
  by (auto split: sum.splits if_splits)

text \<open>Casting the vote changes neither the signers nor who signed; passing it is all that does.\<close>

lemma apply_vote_pass:
  obtains s5 where "apply_vote s n signer a authorize = pass_vote s5 n a" "ps_Signers s5 = ps_Signers s"
    "ps_Recents s5 = ps_Recents s" "ps_Epoch s5 = ps_Epoch s" "ps_Number s5 = ps_Number s"
    "set (ps_Votes s5) \<subseteq> insert \<lparr>vt_Signer = signer, vt_Block = n, vt_Address = a, vt_Authorize = authorize\<rparr> (set (ps_Votes s))"
    "voting_ok s \<Longrightarrow> signer \<in> ps_Signers s \<Longrightarrow> (signer, a) \<notin> vote_key ` set (ps_Votes s) \<Longrightarrow> voting_ok s5"
proof -
  obtain b s1 where c: "cast_vote s a authorize = (b, s1)" by fastforce
  note f = cast_vote_fields [OF c]
  let ?v = "\<lparr>vt_Signer = signer, vt_Block = n, vt_Address = a, vt_Authorize = authorize\<rparr>"
  let ?s5 = "if b then s1\<lparr>ps_Votes := ps_Votes s1 @ [?v]\<rparr> else s1"
  have "voting_ok ?s5" if "voting_ok s" "signer \<in> ps_Signers s" "(signer, a) \<notin> vote_key ` set (ps_Votes s)"
  proof (cases b)
    case True
    have "counted (wanted s) (ps_Votes s @ [?v]) (ps_Tally s1)"
      by (rule counted_cast [of _ _ s a authorize]) (use that c True in \<open>auto simp: voting_ok_def\<close>)
    then show ?thesis using that f True by (auto simp: voting_ok_def)
  next
    case False
    then show ?thesis using that f(6) by simp
  qed
  then show thesis by (intro that [of ?s5]) (use c f in \<open>auto simp: apply_vote_def\<close>)
qed

lemma apply_header_pass:
  assumes v: "voting_ok s" and h: "apply_header sigrec h s = Inl s'"
  obtains signer s5 where "ecrecover sigrec h = Inl signer" "signer \<in> ps_Signers s"
    "signer \<notin> ran (ps_Recents (before_header h s))" "s' = pass_vote s5 (hd_num h) (hd_Coinbase h)" "voting_ok s5"
    "ps_Signers s5 = ps_Signers s" "ps_Recents s5 = (ps_Recents (before_header h s))(hd_num h \<mapsto> signer)"
    "ps_Epoch s5 = ps_Epoch s" "ps_Number s5 = ps_Number s"
    "set (ps_Votes s5) \<subseteq> insert \<lparr>vt_Signer = signer, vt_Block = hd_num h, vt_Address = hd_Coinbase h,
       vt_Authorize = (hd_Nonce h = nonceAuthVote)\<rparr> (set (ps_Votes (before_header h s)))"
proof (rule apply_headerE [OF h])
  fix signer authorize s4
  let ?b = "before_header h s"
  let ?b' = "?b\<lparr>ps_Recents := (ps_Recents ?b)(hd_num h \<mapsto> signer)\<rparr>"
  assume sg: "ecrecover sigrec h = Inl signer" "signer \<in> ps_Signers s" "signer \<notin> ran (ps_Recents ?b)"
    and s4: "s4 = discard_vote signer (hd_Coinbase h) [] (ps_Votes ?b) ?b'"
    and s': "s' = apply_vote s4 (hd_num h) signer (hd_Coinbase h) authorize" "authorize = (hd_Nonce h = nonceAuthVote)"
  have d4: "voting_ok s4" "(signer, hd_Coinbase h) \<notin> vote_key ` set (ps_Votes s4)" "ps_Signers s4 = ps_Signers s"
      "set (ps_Votes s4) \<subseteq> set (ps_Votes ?b)" "ps_Recents s4 = (ps_Recents ?b)(hd_num h \<mapsto> signer)"
      "ps_Epoch s4 = ps_Epoch s" "ps_Number s4 = ps_Number s"
    using discard_vote_voting [of ?b' s4 signer "hd_Coinbase h"] s4 before_header_voting [OF v] by auto
  show thesis
  proof (rule apply_vote_pass [of s4 "hd_num h" signer "hd_Coinbase h" authorize])
    fix s5
    assume "apply_vote s4 (hd_num h) signer (hd_Coinbase h) authorize = pass_vote s5 (hd_num h) (hd_Coinbase h)"
      "ps_Signers s5 = ps_Signers s4" "ps_Recents s5 = ps_Recents s4" "ps_Epoch s5 = ps_Epoch s4"
      "ps_Number s5 = ps_Number s4"
      "set (ps_Votes s5) \<subseteq> insert \<lparr>vt_Signer = signer, vt_Block = hd_num h, vt_Address = hd_Coinbase h,
         vt_Authorize = authorize\<rparr> (set (ps_Votes s4))"
      "voting_ok s4 \<Longrightarrow> signer \<in> ps_Signers s4 \<Longrightarrow> (signer, hd_Coinbase h) \<notin> vote_key ` set (ps_Votes s4) \<Longrightarrow> voting_ok s5"
    then show thesis using s' d4 sg by (intro that [OF sg, of s5]) auto
  qed
qed

lemma apply_header_inv:
  assumes inv: "snap_inv n s" and num: "hd_num h = of_nat (Suc n)" "Suc n < 2 ^ 64" "half s < 2 ^ 64"
    and h: "apply_header sigrec h s = Inl s'"
  shows "snap_inv (Suc n) s'"
proof -
  obtain signer s5 where s5: "signer \<notin> ran (ps_Recents (before_header h s))" "voting_ok s5"
      "s' = pass_vote s5 (hd_num h) (hd_Coinbase h)" "ps_Signers s5 = ps_Signers s"
      "ps_Recents s5 = (ps_Recents (before_header h s))(hd_num h \<mapsto> signer)"
    using apply_header_pass [OF _ h] inv unfolding snap_inv_def by metis
  have "window (Suc n) (half s) (ps_Recents s5)" unfolding s5(5)
    by (rule window_add [OF before_header_window])
      (use inv num s5(1) unat_of_nat64 [OF num(2)] in \<open>auto simp: snap_inv_def half_def simp del: of_nat_Suc\<close>)
  then have "window (Suc n) (half s') (ps_Recents s')" unfolding s5(3) num(1)
    by (intro window_pass) (use s5(2,4) num in \<open>auto simp: half_def voting_ok_def\<close>)
  then show ?thesis using s5(2,3) pass_vote_voting by (simp add: snap_inv_def)
qed

section \<open>Signers change by a majority\<close>

definition voters :: "address \<Rightarrow> Vote list \<Rightarrow> address set" where
  "voters a vs = vt_Signer ` set (filter (\<lambda>v. vt_Address v = a) vs)"

lemma card_voters: "distinct (map vote_key vs) \<Longrightarrow> card (voters a vs) = votes_on a vs"
proof -
  assume "distinct (map vote_key vs)"
  then have d: "distinct (map vote_key (filter (\<lambda>v. vt_Address v = a) vs))" by (rule distinct_keys_filter)
  then have "inj_on vt_Signer (set (filter (\<lambda>v. vt_Address v = a) vs))"
    by (auto simp: distinct_map inj_on_def)
  then show ?thesis using d by (simp add: voters_def votes_on_def card_image distinct_map distinct_card del: set_filter)
qed

lemma pass_vote_majority:
  assumes v: "voting_ok s" and ch: "ps_Signers (pass_vote s n a) \<noteq> ps_Signers s"
  shows "card (ps_Signers s) div 2 < card (voters a (ps_Votes s)) \<and>
    ps_Signers (pass_vote s n a) = (if a \<in> ps_Signers s then ps_Signers s - {a} else insert a (ps_Signers s))"
proof -
  have t: "t = \<lparr>tl_Authorize = (a \<notin> ps_Signers s), tl_Votes = votes_on a (ps_Votes s)\<rparr>"
    if "ps_Tally s a = Some t" for t using v that by (auto simp: voting_ok_def counted_def recount_def split: if_splits)
  have c: "card (voters a (ps_Votes s)) = votes_on a (ps_Votes s)" using v by (simp add: voting_ok_def card_voters)
  show ?thesis
  proof (cases rule: pass_voteE [of s n a])
    case wait
    then show ?thesis using ch by simp
  next
    case (add t')
    then show ?thesis using t [OF add(1)] c by simp
  next
    case (remove t' s')
    then show ?thesis using t [OF remove(1)] c by (simp add: discard_fields)
  qed
qed

lemma pass_vote_fields:
  "ps_Epoch (pass_vote s n a) = ps_Epoch s" "ps_Number (pass_vote s n a) = ps_Number s"
  by (simp_all add: pass_vote_def Let_def discard_fields split: option.split)

lemma apply_header_fields:
  assumes "voting_ok s" "apply_header sigrec h s = Inl s'"
  shows "ps_Epoch s' = ps_Epoch s \<and> ps_Number s' = ps_Number s \<and> card (ps_Signers s') \<le> Suc (card (ps_Signers s))"
proof (rule apply_header_pass [OF assms])
  fix signer s5
  assume "s' = pass_vote s5 (hd_num h) (hd_Coinbase h)" "voting_ok s5" "ps_Signers s5 = ps_Signers s"
    "ps_Epoch s5 = ps_Epoch s" "ps_Number s5 = ps_Number s"
  moreover from this have "card (ps_Signers s') \<le> Suc (card (ps_Signers s5))"
    using pass_vote_majority [of s5 "hd_num h" "hd_Coinbase h"] card_Diff1_le [of "ps_Signers s5" "hd_Coinbase h"]
    by (cases "ps_Signers s' = ps_Signers s5") (auto simp: card_insert_if voting_ok_def intro: le_SucI)
  ultimately show ?thesis by (simp add: pass_vote_fields)
qed

section \<open>Chains of headers\<close>

lemma contiguous_Cons: "contiguous (h # hs) \<longleftrightarrow> contiguous hs \<and> (hs \<noteq> [] \<longrightarrow> hd_num (hd hs) = hd_num h + 1)"
  by (cases hs) (auto simp: contiguous_def)

lemma contiguous_append:
  "contiguous (hs @ hs') \<longleftrightarrow> contiguous hs \<and> contiguous hs' \<and>
     (hs \<noteq> [] \<longrightarrow> hs' \<noteq> [] \<longrightarrow> hd_num (hd hs') = hd_num (last hs) + 1)"
  by (induction hs) (auto simp: contiguous_Cons contiguous_def [of "[]"])

lemma contiguous_last: "contiguous hs \<Longrightarrow> hs \<noteq> [] \<Longrightarrow> hd_num (last hs) + 1 = hd_num (hd hs) + of_nat (length hs)"
  by (induction hs) (auto simp: contiguous_Cons add.commute add.left_commute)

lemma apply_headers_append:
  "apply_headers sigrec (hs @ hs') s =
     (case apply_headers sigrec hs s of Inr err \<Rightarrow> Inr err | Inl s1 \<Rightarrow> apply_headers sigrec hs' s1)"
  by (induction hs arbitrary: s) (auto split: sum.splits)

lemma newSnapshot_inv: "snap_inv n (newSnapshot epoch number h signers)"
  by (simp add: snap_inv_def newSnapshot_def voting_ok_def counted_Nil window_def)

section \<open>The votes of an epoch\<close>

text \<open>Header \<open>h\<close> is signed by \<open>b\<close> and votes on \<open>a\<close>: to authorise it, or to drop it.\<close>

definition votes_in :: "(Header \<Rightarrow> address option) \<Rightarrow> Header \<Rightarrow> address \<Rightarrow> address \<Rightarrow> bool \<Rightarrow> bool" where
  "votes_in sigrec h b a authorize \<longleftrightarrow> ecrecover sigrec h = Inl b \<and> hd_Coinbase h = a \<and>
     (hd_Nonce h = nonceAuthVote) = authorize"

text \<open>After the headers \<open>hs\<close>, the last of number \<open>n\<close>, every recorded vote is that of one of them, of the epoch of \<open>n\<close>.\<close>

definition votes_of_epoch :: "(Header \<Rightarrow> address option) \<Rightarrow> Header list \<Rightarrow> u64 \<Rightarrow> Snapshot \<Rightarrow> bool" where
  "votes_of_epoch sigrec hs n s \<longleftrightarrow> (\<forall>v \<in> set (ps_Votes s). \<exists>h \<in> set hs.
     votes_in sigrec h (vt_Signer v) (vt_Address v) (vt_Authorize v) \<and> hd_num h div ps_Epoch s = n div ps_Epoch s)"

lemma word_Suc_step:
  assumes "Suc (unat n) < 2 ^ 64"
  shows "n + 1 \<noteq> (0 :: u64)" "unat (n + 1) = Suc (unat n)"
proof -
  have "n + 1 = of_nat (Suc (unat n))" by simp
  then show u: "unat (n + 1) = Suc (unat n)" by (simp only: unat_of_nat64 [OF assms])
  show "n + 1 \<noteq> 0" using u by auto
qed

lemma epoch_div_Suc:
  fixes n e :: u64
  assumes "(n + 1) mod e \<noteq> 0" "n + 1 \<noteq> 0"
  shows "(n + 1) div e = n div e"
proof -
  have "unat (n + 1) = Suc (unat n)" using assms(2) by (metis add.commute unatSuc)
  moreover have "Suc (unat n) mod unat e \<noteq> 0"
    using assms(1) calculation by (metis unat_eq_zero unat_mod_distrib)
  ultimately show ?thesis by (simp add: word_unat_eq_iff unat_div_distrib div_Suc)
qed

lemma pass_vote_votes:
  assumes "voting_ok s"
  shows "set (ps_Votes (pass_vote s n a)) \<subseteq> set (ps_Votes s)"
proof (cases rule: pass_voteE [of s n a])
  case (remove t s')
  then have "ps_Votes s' = filter (\<lambda>v. vt_Signer v \<noteq> a) (ps_Votes s)"
    using discard_votes_of_ok [OF _ remove(4), of "wanted s"] assms by (auto simp: voting_ok_def)
  then show ?thesis unfolding remove(5) by auto
qed auto

lemma votes_of_epoch_cast:
  assumes "votes_of_epoch sigrec hs n s" "hd_num h = n + 1" "n + 1 \<noteq> 0" "ecrecover sigrec h = Inl signer"
    "set (ps_Votes s5) \<subseteq> insert \<lparr>vt_Signer = signer, vt_Block = hd_num h, vt_Address = hd_Coinbase h,
       vt_Authorize = (hd_Nonce h = nonceAuthVote)\<rparr> (set (ps_Votes (before_header h s)))" "ps_Epoch s5 = ps_Epoch s"
  shows "votes_of_epoch sigrec (hs @ [h]) (hd_num h) s5"
proof -
  have "\<exists>h' \<in> set (hs @ [h]). votes_in sigrec h' (vt_Signer v) (vt_Address v) (vt_Authorize v) \<and>
      hd_num h' div ps_Epoch s = hd_num h div ps_Epoch s"
    if v: "v \<in> set (ps_Votes (before_header h s))" for v
  proof -
    have m: "hd_num h mod ps_Epoch s \<noteq> 0" "v \<in> set (ps_Votes s)"
      using v by (auto simp: before_header_votes split: if_splits)
    have "(n + 1) div ps_Epoch s = n div ps_Epoch s" by (rule epoch_div_Suc) (use m assms(2,3) in auto)
    then show ?thesis using assms(1,2) m(2) by (auto simp: votes_of_epoch_def)
  qed
  moreover have "votes_in sigrec h signer (hd_Coinbase h) (hd_Nonce h = nonceAuthVote)"
    using assms(4) by (simp add: votes_in_def)
  ultimately show ?thesis using assms(5,6) unfolding votes_of_epoch_def by (auto dest!: subsetD)
qed

lemma apply_header_epoch:
  assumes "voting_ok s" "votes_of_epoch sigrec hs n s" "hd_num h = n + 1" "n + 1 \<noteq> 0" "apply_header sigrec h s = Inl s'"
  shows "voting_ok s' \<and> votes_of_epoch sigrec (hs @ [h]) (n + 1) s'"
proof (rule apply_header_pass [OF assms(1,5)])
  fix signer s5
  assume s5: "ecrecover sigrec h = Inl signer" "s' = pass_vote s5 (hd_num h) (hd_Coinbase h)" "voting_ok s5"
      "ps_Epoch s5 = ps_Epoch s"
    and vs: "set (ps_Votes s5) \<subseteq> insert \<lparr>vt_Signer = signer, vt_Block = hd_num h, vt_Address = hd_Coinbase h,
       vt_Authorize = (hd_Nonce h = nonceAuthVote)\<rparr> (set (ps_Votes (before_header h s)))"
  have "votes_of_epoch sigrec (hs @ [h]) (hd_num h) s5"
    by (rule votes_of_epoch_cast [OF assms(2-4) s5(1) vs s5(4)])
  then show ?thesis
    using s5(2,3) pass_vote_votes [OF s5(3)] pass_vote_voting [OF s5(3)] assms(3)
    by (auto simp: votes_of_epoch_def pass_vote_fields)
qed

lemma apply_headers_epoch:
  assumes "voting_ok s" "votes_of_epoch sigrec hs0 n s" "contiguous hs" "hs \<noteq> [] \<longrightarrow> hd_num (hd hs) = n + 1"
    "unat n + length hs < 2 ^ 64" "apply_headers sigrec hs s = Inl s'"
  shows "voting_ok s' \<and> votes_of_epoch sigrec (hs0 @ hs) (n + of_nat (length hs)) s' \<and> ps_Epoch s' = ps_Epoch s"
  using assms
proof (induction hs arbitrary: hs0 n s)
  case Nil
  then show ?case by simp
next
  case (Cons h hs)
  obtain s1 where s1: "apply_header sigrec h s = Inl s1" "apply_headers sigrec hs s1 = Inl s'"
    using Cons.prems(6) by (auto split: sum.splits)
  have n: "n + 1 \<noteq> 0" "unat (n + 1) = Suc (unat n)"
    using word_Suc_step [of n] Cons.prems(5) by simp_all
  have e: "voting_ok s1 \<and> votes_of_epoch sigrec (hs0 @ [h]) (n + 1) s1"
    by (rule apply_header_epoch [OF Cons.prems(1,2) _ n(1) s1(1)]) (use Cons.prems(4) in simp)
  have "voting_ok s' \<and> votes_of_epoch sigrec ((hs0 @ [h]) @ hs) (n + 1 + of_nat (length hs)) s' \<and> ps_Epoch s' = ps_Epoch s1"
    by (rule Cons.IH) (use e Cons.prems s1(2) n(2) in \<open>auto simp: contiguous_Cons\<close>)
  then show ?case using apply_header_fields [OF Cons.prems(1) s1(1)] by (simp add: add.assoc)
qed

text \<open>One header: a current signer signs it, and what it changes has a majority in the epoch.\<close>

lemma header_majority:
  assumes "voting_ok s" "votes_of_epoch sigrec hs n s" "hd_num h = n + 1" "n + 1 \<noteq> 0" "apply_header sigrec h s = Inl s'"
  shows "\<exists>signer \<in> ps_Signers s. ecrecover sigrec h = Inl signer \<and>
    (\<forall>k. ps_Recents s k = Some signer \<longrightarrow> k = hd_num h - sign_limit s) \<and>
    (ps_Signers s' = ps_Signers s \<or>
     (ps_Signers s' = (if hd_Coinbase h \<in> ps_Signers s then ps_Signers s - {hd_Coinbase h}
                       else insert (hd_Coinbase h) (ps_Signers s)) \<and>
      (\<exists>V. V \<subseteq> ps_Signers s \<and> card (ps_Signers s) div 2 < card V \<and>
         (\<forall>b \<in> V. \<exists>h' \<in> set (hs @ [h]). hd_num h' div ps_Epoch s = hd_num h div ps_Epoch s \<and>
            votes_in sigrec h' b (hd_Coinbase h) (hd_Coinbase h \<notin> ps_Signers s)))))"
proof (rule apply_header_pass [OF assms(1,5)])
  fix signer s5
  assume sg: "ecrecover sigrec h = Inl signer" "signer \<in> ps_Signers s"
    and re: "signer \<notin> ran (ps_Recents (before_header h s))"
    and s5: "s' = pass_vote s5 (hd_num h) (hd_Coinbase h)" "voting_ok s5" "ps_Signers s5 = ps_Signers s"
      "ps_Epoch s5 = ps_Epoch s"
    and vs: "set (ps_Votes s5) \<subseteq> insert \<lparr>vt_Signer = signer, vt_Block = hd_num h, vt_Address = hd_Coinbase h,
       vt_Authorize = (hd_Nonce h = nonceAuthVote)\<rparr> (set (ps_Votes (before_header h s)))"
  let ?V = "voters (hd_Coinbase h) (ps_Votes s5)"
  have ep: "votes_of_epoch sigrec (hs @ [h]) (hd_num h) s5"
    by (rule votes_of_epoch_cast [OF assms(2-4) sg(1) vs s5(4)])
  have "?V \<subseteq> ps_Signers s" using s5(2,3) by (auto simp: voters_def voting_ok_def)
  moreover have "\<exists>h' \<in> set (hs @ [h]). hd_num h' div ps_Epoch s = hd_num h div ps_Epoch s \<and>
      votes_in sigrec h' b (hd_Coinbase h) (hd_Coinbase h \<notin> ps_Signers s)" if b: "b \<in> ?V" for b
  proof -
    obtain v where v: "v \<in> set (ps_Votes s5)" "vt_Address v = hd_Coinbase h" "vt_Signer v = b"
      using b by (auto simp: voters_def)
    have "vt_Authorize v = (hd_Coinbase h \<notin> ps_Signers s)" using s5(2,3) v by (auto simp: voting_ok_def counted_def)
    moreover obtain h' where "h' \<in> set (hs @ [h])" "hd_num h' div ps_Epoch s = hd_num h div ps_Epoch s"
        "votes_in sigrec h' (vt_Signer v) (vt_Address v) (vt_Authorize v)"
      using bspec [OF ep [unfolded votes_of_epoch_def] v(1)] s5(4) by auto
    ultimately show ?thesis using v(2,3) by auto
  qed
  moreover have "k = hd_num h - sign_limit s" if "ps_Recents s k = Some signer" for k
    using that re by (auto simp: ran_def before_header_def drop_recent_def sign_limit_def split: if_splits)
  moreover have "ps_Signers s' = ps_Signers s \<or> card (ps_Signers s) div 2 < card ?V \<and> ps_Signers s' =
      (if hd_Coinbase h \<in> ps_Signers s then ps_Signers s - {hd_Coinbase h} else insert (hd_Coinbase h) (ps_Signers s))"
    using pass_vote_majority [OF s5(2), of "hd_num h" "hd_Coinbase h"] s5(1,3) by metis
  ultimately show ?thesis using sg by blast
qed

text \<open>
  C20: the signers change only by a majority vote of the epoch. Take the snapshot of a genesis or
  checkpoint block, apply a contiguous chain of headers to it, and then one more (no number
  overflows). The last header is signed by a current signer who is not among the recent ones, and if
  it changes the signer set, then the set changes by its Coinbase alone (added when it was not a
  signer, removed when it was), and there are more than half of the signers, each counted once, of whom
  each signed one of the headers of the same epoch, the last one included, that votes so on the
  Coinbase.
\<close>

theorem signers_change_by_majority:
  assumes "apply_headers sigrec hs (newSnapshot epoch number x signers) = Inl s" "apply_header sigrec h s = Inl s'"
    "contiguous (hs @ [h])" "hd_num (hd (hs @ [h])) = number + 1" "unat number + length (hs @ [h]) < 2 ^ 64"
  shows "\<exists>signer \<in> ps_Signers s. ecrecover sigrec h = Inl signer \<and>
    (\<forall>k. ps_Recents s k = Some signer \<longrightarrow> k = hd_num h - sign_limit s) \<and>
    (ps_Signers s' = ps_Signers s \<or>
     (ps_Signers s' = (if hd_Coinbase h \<in> ps_Signers s then ps_Signers s - {hd_Coinbase h}
                       else insert (hd_Coinbase h) (ps_Signers s)) \<and>
      (\<exists>V. V \<subseteq> ps_Signers s \<and> card (ps_Signers s) div 2 < card V \<and>
         (\<forall>b \<in> V. \<exists>h' \<in> set (hs @ [h]). hd_num h' div epoch = hd_num h div epoch \<and>
            votes_in sigrec h' b (hd_Coinbase h) (hd_Coinbase h \<notin> ps_Signers s)))))"
proof -
  let ?n = "number + of_nat (length hs)"
  have "voting_ok (newSnapshot epoch number x signers)" "votes_of_epoch sigrec [] number (newSnapshot epoch number x signers)"
    using newSnapshot_inv [of 0] by (simp_all add: snap_inv_def votes_of_epoch_def) (simp add: newSnapshot_def)
  moreover have "contiguous hs" "hs \<noteq> [] \<longrightarrow> hd_num (hd hs) = number + 1" "unat number + length hs < 2 ^ 64"
    using assms(3-5) by (auto simp: contiguous_append)
  ultimately have ok: "voting_ok s" "votes_of_epoch sigrec hs ?n s" "ps_Epoch s = epoch"
    using apply_headers_epoch [where ?hs0.0 = "[]", OF _ _ _ _ _ assms(1)] by (auto simp: newSnapshot_def)
  have n: "hd_num h = ?n + 1"
    using contiguous_last [OF assms(3)] assms(4) by (simp add: ac_simps)
  have n0: "?n + 1 \<noteq> 0"
  proof -
    have "?n + 1 = of_nat (unat number + length (hs @ [h]))" by simp
    then have "unat (?n + 1) = unat number + length (hs @ [h])" by (simp only: unat_of_nat64 [OF assms(5)])
    then show ?thesis by auto
  qed
  show ?thesis using header_majority [OF ok(1,2) n n0 assms(2)] unfolding ok(3) .
qed

lemma apply_headers_inv:
  assumes "snap_inv n s" "contiguous hs" "hs \<noteq> [] \<longrightarrow> hd_num (hd hs) = of_nat (Suc n)"
    "n + length hs < 2 ^ 64" "card (ps_Signers s) + length hs < 2 ^ 64" "apply_headers sigrec hs s = Inl s'"
  shows "snap_inv (n + length hs) s' \<and> ps_Number s' = ps_Number s"
  using assms
proof (induction hs arbitrary: n s)
  case Nil
  then show ?case by simp
next
  case (Cons h hs)
  obtain s1 where s1: "apply_header sigrec h s = Inl s1" "apply_headers sigrec hs s1 = Inl s'"
    using Cons.prems(6) by (auto split: sum.splits)
  have f: "ps_Number s1 = ps_Number s" "card (ps_Signers s1) \<le> Suc (card (ps_Signers s))"
    using apply_header_fields [OF _ s1(1)] Cons.prems(1) by (simp_all add: snap_inv_def)
  have "snap_inv (Suc n) s1"
    by (rule apply_header_inv [OF Cons.prems(1) _ _ _ s1(1)]) (use Cons.prems in \<open>auto simp: half_def\<close>)
  then have "snap_inv (Suc n + length hs) s' \<and> ps_Number s' = ps_Number s1"
    by (rule Cons.IH) (use Cons.prems s1(2) f in \<open>auto simp: contiguous_Cons\<close>)
  then show ?case using f by simp
qed

text \<open>
  C21: applying a chain of headers keeps a snapshot consistent. The tally is the recount of the recorded
  votes, every recorded vote is cast by a current signer, who has at most one vote on an account, a
  vote on a signer is to drop it and on any other account to authorise it, and the recent signers are
  pairwise different and signed within the last blocks, fewer than half of the signers plus one. The
  snapshot of a genesis or checkpoint block is consistent.
\<close>

theorem snap_apply_consistent:
  assumes "s = newSnapshot epoch number h signers \<or> snap_inv (unat (ps_Number s)) s"
    "unat (ps_Number s) + length headers < 2 ^ 64" "card (ps_Signers s) + length headers < 2 ^ 64"
    "snap_apply hash sigrec s headers = Inl s'"
  shows "snap_inv (unat (ps_Number s')) s' \<and> unat (ps_Number s') = unat (ps_Number s) + length headers"
proof (cases "headers = []")
  case True
  then show ?thesis using assms(1,4) newSnapshot_inv by (auto simp: snap_apply_def)
next
  case False
  let ?n = "unat (ps_Number s)"
  have inv: "snap_inv ?n s" using assms(1) newSnapshot_inv by auto
  obtain s1 where s1: "apply_headers sigrec headers s = Inl s1" "contiguous headers"
      "hd_num (hd headers) = of_nat (Suc ?n)"
      "s' = s1\<lparr>ps_Number := ps_Number s1 + of_nat (length headers), ps_Hash := hash (last headers)\<rparr>"
    using assms(4) False by (auto simp: snap_apply_def add.commute split: if_splits sum.splits)
  have i1: "snap_inv (?n + length headers) s1 \<and> ps_Number s1 = ps_Number s"
    by (rule apply_headers_inv [OF inv s1(2) _ assms(2,3) s1(1)]) (use s1(3) in simp)
  have "ps_Number s' = of_nat (?n + length headers)" using i1 s1(4) by simp
  then have "unat (ps_Number s') = ?n + length headers" using unat_of_nat64 [OF assms(2)] by simp
  then show ?thesis using i1 s1(4) by (simp add: snap_inv_def voting_ok_def half_def)
qed

text \<open>The number and hash of a snapshot are labels: applying a header neither reads nor changes them.\<close>

definition label :: "u64 \<Rightarrow> hash \<Rightarrow> Snapshot \<Rightarrow> Snapshot" where
  "label n x s = s\<lparr>ps_Number := n, ps_Hash := x\<rparr>"

lemma label_fields [simp]:
  "ps_Votes (label n x s) = ps_Votes s" "ps_Signers (label n x s) = ps_Signers s" "ps_Tally (label n x s) = ps_Tally s"
  "ps_Recents (label n x s) = ps_Recents s" "ps_Epoch (label n x s) = ps_Epoch s" "ps_Number (label n x s) = n"
  "label m y (label n x s) = label m y s" "sign_limit (label n x s) = sign_limit s"
  by (simp_all add: label_def sign_limit_def)

lemma label_upd [simp]:
  "(label n x s)\<lparr>ps_Votes := v\<rparr> = label n x (s\<lparr>ps_Votes := v\<rparr>)" "(label n x s)\<lparr>ps_Tally := t\<rparr> = label n x (s\<lparr>ps_Tally := t\<rparr>)"
  "(label n x s)\<lparr>ps_Signers := g\<rparr> = label n x (s\<lparr>ps_Signers := g\<rparr>)" "(label n x s)\<lparr>ps_Recents := r\<rparr> = label n x (s\<lparr>ps_Recents := r\<rparr>)"
  by (simp_all add: label_def)

lemma label_steps [simp]:
  "snd (uncast (label n x s) a b) = label n x (snd (uncast s a b))"
  "cast_vote (label n x s) a b = apsnd (label n x) (cast_vote s a b)"
  "drop_recent (label n x s) m = label n x (drop_recent s m)"
  by (simp_all add: uncast_def cast_vote_def drop_recent_def validVote_def Let_def split: option.split)

lemma label_discard [simp]:
  "discard_vote a b kept vs (label n x s) = label n x (discard_vote a b kept vs s)"
  "discard_votes_of a kept vs (label n x s) = label n x (discard_votes_of a kept vs s)"
  by (induction vs arbitrary: kept s) simp_all

lemma label_pass [simp]: "pass_vote (label n x s) m a = label n x (pass_vote s m a)"
  by (simp add: pass_vote_def Let_def split: option.split)

lemma label_vote [simp]: "apply_vote (label n x s) m g a b = label n x (apply_vote s m g a b)"
  by (auto simp: apply_vote_def split: prod.split)

lemma label_before [simp]: "before_header h (label n x s) = label n x (before_header h s)"
  by (simp add: before_header_def)

lemma label_header: "apply_header sigrec h (label n x s) = map_sum (label n x) id (apply_header sigrec h s)"
  unfolding apply_header_def before_header_def [symmetric] Let_def by (simp split: sum.split)

lemma label_headers: "apply_headers sigrec hs (label n x s) = map_sum (label n x) id (apply_headers sigrec hs s)"
  by (induction hs arbitrary: s) (auto simp: label_header split: sum.split)

lemma apply_headers_number:
  assumes "apply_headers sigrec hs s = Inl s'"
  shows "ps_Number s' = ps_Number s"
proof -
  have "label (ps_Number s) (ps_Hash s) s = s" by (simp add: label_def)
  then have "Inl s' = map_sum (label (ps_Number s) (ps_Hash s)) id (apply_headers sigrec hs s)"
    using assms label_headers [of sigrec hs "ps_Number s" "ps_Hash s" s] by simp
  then show ?thesis using assms by (metis Inl_inject label_fields(6) map_sum.simps(1))
qed

lemma snap_apply_Inl:
  "hs \<noteq> [] \<Longrightarrow> snap_apply hash sigrec s hs = Inl s' \<longleftrightarrow> contiguous hs \<and> hd_num (hd hs) = ps_Number s + 1 \<and>
     (\<exists>s1. apply_headers sigrec hs s = Inl s1 \<and> s' = label (ps_Number s + of_nat (length hs)) (hash (last hs)) s1)"
  by (auto simp: snap_apply_def label_def dest: apply_headers_number split: sum.splits)

lemma snap_apply_ok:
  assumes "hs \<noteq> []" "contiguous hs" "hd_num (hd hs) = ps_Number s + 1"
  shows "snap_apply hash sigrec s hs =
    map_sum (label (ps_Number s + of_nat (length hs)) (hash (last hs))) id (apply_headers sigrec hs s)"
  using assms by (auto simp: snap_apply_def label_def dest: apply_headers_number split: sum.splits)

lemma snap_apply_append:
  assumes "contiguous (hs @ hs')" "hs @ hs' \<noteq> [] \<longrightarrow> hd_num (hd (hs @ hs')) = ps_Number s + 1"
    "snap_apply hash sigrec s hs = Inl s1"
  shows "snap_apply hash sigrec s (hs @ hs') = snap_apply hash sigrec s1 hs'"
proof (cases "hs = [] \<or> hs' = []")
  case True
  then show ?thesis using assms(3) by (auto simp: snap_apply_def [of _ _ _ "[]"])
next
  case False
  have c: "contiguous hs" "contiguous hs'" "hd_num (hd hs') = hd_num (last hs) + 1" "hd_num (hd hs) = ps_Number s + 1"
    using assms(1,2) False by (auto simp: contiguous_append)
  obtain s2 where s2: "apply_headers sigrec hs s = Inl s2" "s1 = label (ps_Number s + of_nat (length hs)) (hash (last hs)) s2"
    using assms(3) snap_apply_ok [of hs s hash sigrec] c False by (cases "apply_headers sigrec hs s") auto
  have n: "hd_num (hd hs') = ps_Number s1 + 1"
    using contiguous_last [OF c(1)] c False s2(2) by (simp add: add.commute add.left_commute)
  have "snap_apply hash sigrec s (hs @ hs') = map_sum (label (ps_Number s + of_nat (length (hs @ hs'))) (hash (last hs'))) id
      (apply_headers sigrec hs' s2)"
    using snap_apply_ok [of "hs @ hs'" s hash sigrec] assms(1) c False s2(1) by (simp add: apply_headers_append)
  also have "\<dots> = snap_apply hash sigrec s1 hs'"
    using snap_apply_ok [of hs' s1 hash sigrec] c(2) n False s2(2)
    by (simp add: label_headers sum.map_comp comp_def id_def add.assoc)
  finally show ?thesis .
qed

text \<open>
  C22: headers may be applied in portions: a chain of headers can be applied to a snapshot exactly when
  its first part can be and its second part can be applied to the result, and gives the same snapshot.
\<close>

theorem snap_apply_in_portions:
  "snap_apply hash sigrec s (hs @ hs') = Inl s' \<longleftrightarrow>
     (\<exists>s1. snap_apply hash sigrec s hs = Inl s1 \<and> snap_apply hash sigrec s1 hs' = Inl s')"
proof (cases "hs = [] \<or> hs' = []")
  case True
  then show ?thesis by (auto simp: snap_apply_def [of _ _ _ "[]"])
next
  case False
  let ?m = "ps_Number s + of_nat (length hs)"
  let ?ok = "contiguous hs \<and> contiguous hs' \<and> hd_num (hd hs) = ps_Number s + 1 \<and> hd_num (hd hs') = ?m + 1"
  let ?go = "\<lambda>s1 s2. apply_headers sigrec hs s = Inl s1 \<and> apply_headers sigrec hs' s1 = Inl s2 \<and>
    s' = label (?m + of_nat (length hs')) (hash (last hs')) s2"
  have lab: "apply_headers sigrec hs' (label m x s1) = Inl s2 \<longleftrightarrow> (\<exists>s3. apply_headers sigrec hs' s1 = Inl s3 \<and> s2 = label m x s3)"
    for m x s1 s2 by (cases "apply_headers sigrec hs' s1") (auto simp: label_headers)
  have last: "hd_num (last hs) + 1 = ?m + 1" if "contiguous hs" "hd_num (hd hs) = ps_Number s + 1"
    using contiguous_last [OF that(1)] that(2) False by (simp add: add.commute add.left_commute)
  have ok: "contiguous (hs @ hs') \<and> hd_num (hd (hs @ hs')) = ps_Number s + 1 \<longleftrightarrow> ?ok"
    unfolding contiguous_append using False last hd_append2 [of hs hs'] by metis
  have ap: "apply_headers sigrec (hs @ hs') s = Inl s2 \<longleftrightarrow> (\<exists>s1. apply_headers sigrec hs s = Inl s1 \<and> apply_headers sigrec hs' s1 = Inl s2)"
    for s2 by (simp add: apply_headers_append split: sum.split)
  have "snap_apply hash sigrec s (hs @ hs') = Inl s' \<longleftrightarrow> (contiguous (hs @ hs') \<and> hd_num (hd (hs @ hs')) = ps_Number s + 1) \<and>
      (\<exists>s2. (\<exists>s1. apply_headers sigrec hs s = Inl s1 \<and> apply_headers sigrec hs' s1 = Inl s2) \<and>
         s' = label (?m + of_nat (length hs')) (hash (last hs')) s2)"
    using False snap_apply_Inl [of "hs @ hs'" hash sigrec s s'] ap by (simp add: add.assoc)
  then have "snap_apply hash sigrec s (hs @ hs') = Inl s' \<longleftrightarrow> ?ok \<and> (\<exists>s1 s2. ?go s1 s2)"
    unfolding ok by blast
  moreover have "(\<exists>s1. snap_apply hash sigrec s hs = Inl s1 \<and> snap_apply hash sigrec s1 hs' = Inl s') \<longleftrightarrow> ?ok \<and> (\<exists>s1 s2. ?go s1 s2)"
    using False by (auto simp: snap_apply_Inl lab)
  ultimately show ?thesis by blast
qed

section \<open>Somebody may always sign\<close>

lemma card_recents:
  assumes "\<forall>k a. r k = Some a \<longrightarrow> unat k \<le> n \<and> n + 1 < unat k + l"
  shows "finite (ran r) \<and> card (ran r) \<le> l - 1"
proof -
  have k: "unat ` dom r \<subseteq> {n + 2 - l..n}" using assms by fastforce
  have inj: "inj_on unat (dom r)" by (simp add: inj_on_def word_unat_eq_iff)
  have d: "card (dom r) \<le> l - 1" "finite (dom r)"
    using card_mono [OF _ k] card_image [OF inj] finite_imageD [OF _ inj] finite_subset [OF k] by auto
  have "ran r = (the \<circ> r) ` dom r" by (force simp: ran_def dom_def)
  then show ?thesis using d card_image_le [OF d(2), of "the \<circ> r"] by simp
qed

text \<open>
  C23: the chain can always be extended. At every consistent snapshot at least half of the signers can
  each sign the next block: a header with the next number that carries the signature of one of them
  and a valid vote is applied without an error. With at least one signer there is always one who can.
\<close>

theorem some_signer_can_extend:
  assumes "snap_inv n s" "Suc n < 2 ^ 64" "half s < 2 ^ 64"
  shows "\<exists>A \<subseteq> ps_Signers s. card (ps_Signers s) - card (ps_Signers s) div 2 \<le> card A \<and>
    (\<forall>h a. hd_num h = of_nat (Suc n) \<and> a \<in> A \<and> ecrecover sigrec h = Inl a \<and>
       hd_Nonce h \<in> {nonceAuthVote, nonceDropVote} \<longrightarrow> (\<exists>s'. apply_header sigrec h s = Inl s'))"
proof -
  define r where "r = ps_Recents (drop_recent s (of_nat (Suc n)))"
  have "\<forall>k a. r k = Some a \<longrightarrow> unat k \<le> n \<and> Suc n < unat k + half s \<and> ps_Recents s k = Some a"
    unfolding r_def by (rule window_drop [OF _ assms(2,3)]) (use assms(1) in \<open>auto simp: snap_inv_def window_def\<close>)
  then have "finite (ran r)" "card (ran r) \<le> half s - 1" using card_recents [of r n "half s"] by auto
  then have "card (ps_Signers s) - card (ps_Signers s) div 2 \<le> card (ps_Signers s - ran r)"
    using diff_card_le_card_Diff [of "ran r" "ps_Signers s"] by (simp add: half_def)
  moreover have "\<exists>s'. apply_header sigrec h s = Inl s'"
    if "hd_num h = of_nat (Suc n)" "a \<in> ps_Signers s - ran r" "ecrecover sigrec h = Inl a"
      "hd_Nonce h \<in> {nonceAuthVote, nonceDropVote}" for h a
  proof -
    have "ps_Recents (before_header h s) = r"
      using that(1) by (simp add: before_header_def r_def drop_recent_def sign_limit_def)
    then show ?thesis unfolding apply_header_def before_header_def [symmetric] Let_def using that(2-4) by auto
  qed
  ultimately show ?thesis by (intro exI [of _ "ps_Signers s - ran r"]) blast
qed

section \<open>Instances\<close>

text \<open>A single signer, and the header of block 1, in which it votes for a second one.\<close>

definition demo_header :: Header where
  "demo_header = \<lparr>hd_ParentHash = 0, hd_Coinbase = 3, hd_Root = 0, hd_TxHash = 0, hd_ReceiptHash = 0, hd_Bloom = [],
     hd_Difficulty = 2, hd_Number = 1, hd_GasLimit = 0, hd_GasUsed = 0, hd_Time = 0, hd_MixDigest = 0,
     hd_Nonce = nonceAuthVote, hd_Extra = replicate 97 0, hd_BaseFee = None, hd_Signature = []\<rparr>"

definition demo_snapshot :: Snapshot where
  "demo_snapshot = newSnapshot 30000 0 0 [1]"

definition demo_sigrec :: "Header \<Rightarrow> address option" where
  "demo_sigrec h = Some 1"

lemma demo_facts:
  "hd_num demo_header = 1" "ecrecover demo_sigrec demo_header = Inl 1" "ps_Signers demo_snapshot = {1}"
  "ps_Number demo_snapshot = 0" "snap_inv 0 demo_snapshot" "voting_ok demo_snapshot" "half demo_snapshot = 1"
  using newSnapshot_inv [of 0 30000 0 0 "[1]"]
  by (simp_all add: hd_num_def demo_header_def ecrecover_def demo_sigrec_def demo_snapshot_def newSnapshot_def snap_inv_def half_def)

lemma demo_apply: "\<exists>s'. apply_header demo_sigrec demo_header demo_snapshot = Inl s' \<and> ps_Signers s' = {1, 3}"
proof -
  have "apply_header demo_sigrec demo_header demo_snapshot =
      Inl (apply_vote (demo_snapshot\<lparr>ps_Recents := [1 \<mapsto> 1]\<rparr>) 1 1 3 True)"
    by (simp add: apply_header_def demo_facts Let_def)
      (simp add: demo_header_def demo_snapshot_def newSnapshot_def drop_recent_def sign_limit_def fun_upd_def)
  then show ?thesis
    by (auto simp: apply_vote_def cast_vote_def validVote_def pass_vote_def demo_snapshot_def newSnapshot_def)
qed

text \<open>Two signers, who in blocks 1 and 2 vote for a third one.\<close>

definition second_header :: Header where
  "second_header = demo_header\<lparr>hd_Number := 2\<rparr>"

definition turn_sigrec :: "Header \<Rightarrow> address option" where
  "turn_sigrec h = Some (ucast (hd_Number h))"

definition one_vote :: Snapshot where
  "one_vote = (newSnapshot 30000 0 0 [1, 2])\<lparr>ps_Recents := [1 \<mapsto> 1],
     ps_Votes := [\<lparr>vt_Signer = 1, vt_Block = 1, vt_Address = 3, vt_Authorize = True\<rparr>],
     ps_Tally := [3 \<mapsto> \<lparr>tl_Authorize = True, tl_Votes = 1\<rparr>]\<rparr>"

lemma turn_facts:
  "hd_num second_header = 2" "ecrecover turn_sigrec demo_header = Inl 1" "ecrecover turn_sigrec second_header = Inl 2"
  by (simp_all add: hd_num_def second_header_def demo_header_def ecrecover_def turn_sigrec_def)

lemma turn_apply:
  "apply_headers turn_sigrec [demo_header] (newSnapshot 30000 0 0 [1, 2]) = Inl one_vote"
  "\<exists>s'. apply_header turn_sigrec second_header one_vote = Inl s' \<and> ps_Signers s' = {1, 2, 3}"
proof -
  have "apply_header turn_sigrec demo_header (newSnapshot 30000 0 0 [1, 2]) =
      Inl (apply_vote ((newSnapshot 30000 0 0 [1, 2])\<lparr>ps_Recents := [1 \<mapsto> 1]\<rparr>) 1 1 3 True)"
    by (simp add: apply_header_def demo_facts turn_facts Let_def)
      (simp add: demo_header_def newSnapshot_def drop_recent_def sign_limit_def)
  then show "apply_headers turn_sigrec [demo_header] (newSnapshot 30000 0 0 [1, 2]) = Inl one_vote"
    by (simp add: apply_vote_def cast_vote_def validVote_def pass_vote_def one_vote_def newSnapshot_def)
  have "drop_recent one_vote 2 = one_vote"
    by (simp add: drop_recent_def sign_limit_def one_vote_def newSnapshot_def fun_eq_iff)
  then have "apply_header turn_sigrec second_header one_vote =
      Inl (apply_vote (one_vote\<lparr>ps_Recents := [1 \<mapsto> 1, 2 \<mapsto> 2]\<rparr>) 2 2 3 True)"
    by (simp add: apply_header_def turn_facts Let_def)
      (simp add: second_header_def demo_header_def one_vote_def newSnapshot_def)
  then show "\<exists>s'. apply_header turn_sigrec second_header one_vote = Inl s' \<and> ps_Signers s' = {1, 2, 3}"
    by (auto simp: apply_vote_def cast_vote_def validVote_def pass_vote_def one_vote_def newSnapshot_def)
qed

theorem signers_change_by_majority_witness:
  "\<exists>s' V. apply_headers turn_sigrec [demo_header] (newSnapshot 30000 0 0 [1, 2]) = Inl one_vote \<and>
     apply_header turn_sigrec second_header one_vote = Inl s' \<and> ps_Signers s' = {1, 2, 3} \<and> 1 < card V \<and>
     (\<forall>b \<in> V. \<exists>h' \<in> {demo_header, second_header}. hd_num h' div 30000 = 0 \<and> votes_in turn_sigrec h' b 3 True)"
proof -
  obtain s' where s': "apply_header turn_sigrec second_header one_vote = Inl s'" "ps_Signers s' = {1, 2, 3}"
    using turn_apply(2) by auto
  have ne: "{1, 2, 3 :: address} \<noteq> {1, 2}"
  proof
    assume e: "{1, 2, 3 :: address} = {1, 2}"
    have "(3 :: address) \<in> {1, 2, 3}" by simp
    then show False by (simp only: e) simp
  qed
  have f: "hd_Coinbase second_header = 3" "ps_Signers one_vote = {1, 2}" "(3 \<notin> {1, 2 :: address}) = True"
    by (simp_all add: second_header_def demo_header_def one_vote_def newSnapshot_def)
  have c: "contiguous ([demo_header] @ [second_header])" by (simp add: contiguous_def turn_facts demo_facts)
  have "\<exists>V. 1 < card V \<and> (\<forall>b \<in> V. \<exists>h' \<in> set ([demo_header] @ [second_header]).
      hd_num h' div 30000 = hd_num second_header div 30000 \<and> votes_in turn_sigrec h' b 3 True)"
    using signers_change_by_majority [OF turn_apply(1) s'(1) c, unfolded f s'(2)] ne by (auto simp: demo_facts)
  then obtain V where "1 < card V" "\<forall>b \<in> V. \<exists>h' \<in> {demo_header, second_header}. hd_num h' div 30000 = 0 \<and>
      votes_in turn_sigrec h' b 3 True"
    by (auto simp: turn_facts)
  then show ?thesis using turn_apply(1) s' by blast
qed

theorem snap_apply_consistent_witness:
  "\<exists>s'. snap_apply (\<lambda>h. 0) demo_sigrec demo_snapshot [demo_header] = Inl s' \<and> snap_inv 1 s'"
proof -
  obtain s1 where "apply_header demo_sigrec demo_header demo_snapshot = Inl s1" using demo_apply by auto
  then obtain s' where s': "snap_apply (\<lambda>h. 0) demo_sigrec demo_snapshot [demo_header] = Inl s'"
    by (simp add: snap_apply_def contiguous_def demo_facts)
  show ?thesis
    using snap_apply_consistent [OF _ _ _ s', of 30000 0 0 "[1]"] s' by (auto simp: demo_facts)
qed

theorem some_signer_can_extend_witness:
  "snap_inv 0 demo_snapshot \<and> half demo_snapshot < 2 ^ 64 \<and> (\<exists>s'. apply_header demo_sigrec demo_header demo_snapshot = Inl s')"
proof -
  obtain A where A: "A \<subseteq> {1}" "1 \<le> card A"
      "\<forall>h a. hd_num h = of_nat (Suc 0) \<and> a \<in> A \<and> ecrecover demo_sigrec h = Inl a \<and>
       hd_Nonce h \<in> {nonceAuthVote, nonceDropVote} \<longrightarrow> (\<exists>s'. apply_header demo_sigrec h demo_snapshot = Inl s')"
    using some_signer_can_extend [OF demo_facts(5), of demo_sigrec] by (auto simp: demo_facts)
  have "1 \<in> A" using A(1,2) by (cases "A = {}") auto
  then show ?thesis using A(3) demo_facts by (auto simp: demo_header_def)
qed

end
