(* ===== verification/Apos_Engine.thy ===== *)
theory Apos_Engine
  imports Apos_Snapshot
begin

text \<open>
  The proof-of-authority engine (\<^verbatim>\<open>internal/consensus/apos/apos.go\<close>): verifying headers, finding the voting
  snapshot of a block, preparing and sealing blocks. The chain the engine reads is the interface
  \<^verbatim>\<open>ChainHeaderReader\<close>; a Go interface value is nil, a nil pointer or a header, and the three are told apart.
  The cache of snapshots is \<open>pv_arc\<close>, which may forget entries; the random choice of a proposal is
  \<open>pv_choose\<close>; the database is a map from hashes to snapshots whose writes succeed. An outer \<open>None\<close> is a
  panic, or a search that never ends; the search itself tells the two apart.
\<close>

datatype iheader = NilHeader | TypedNil | HeaderPtr Header

record ChainHeaderReader =
  cr_Config :: ChainConfig
  cr_GetHeader :: "hash \<Rightarrow> u256 \<Rightarrow> iheader"
  cr_GetHeaderByNumber :: "u256 \<Rightarrow> iheader"

record poa_env =
  pv_hash :: "Header \<Rightarrow> hash"
  pv_sigrec :: "Header \<Rightarrow> address option"
  pv_arc :: "(hash \<Rightarrow> Snapshot option) \<Rightarrow> hash \<Rightarrow> Snapshot \<Rightarrow> (hash \<Rightarrow> Snapshot option)"
  pv_choose :: "address set \<Rightarrow> address"

record APos =
  ap_Epoch :: u64
  ap_Period :: u64
  ap_recents :: "hash \<Rightarrow> Snapshot option"
  ap_db :: "hash \<Rightarrow> Snapshot option"
  ap_proposals :: "address \<Rightarrow> bool option"
  ap_signer :: address
  ap_fakeDiff :: bool

abbreviation epochLength :: u64 where "epochLength \<equiv> 30000"
abbreviation checkpointInterval :: u64 where "checkpointInterval \<equiv> 2048"
abbreviation FullImmutabilityThreshold :: nat where "FullImmutabilityThreshold \<equiv> 90000"
abbreviation diffInTurn :: u256 where "diffInTurn \<equiv> 2"
abbreviation diffNoTurn :: u256 where "diffNoTurn \<equiv> 1"
abbreviation AddressLength :: nat where "AddressLength \<equiv> 20"

definition New :: "u64 \<Rightarrow> u64 \<Rightarrow> (hash \<Rightarrow> Snapshot option) \<Rightarrow> APos" where
  "New epoch period db =
     \<lparr>ap_Epoch = (if epoch = 0 then epochLength else epoch), ap_Period = period, ap_recents = Map.empty, ap_db = db,
      ap_proposals = Map.empty, ap_signer = 0, ap_fakeDiff = False\<rparr>"

definition Authorize :: "APos \<Rightarrow> address \<Rightarrow> APos" where
  "Authorize c signer = c\<lparr>ap_signer := signer\<rparr>"

definition Propose :: "APos \<Rightarrow> address \<Rightarrow> bool \<Rightarrow> APos" where
  "Propose c a auth = c\<lparr>ap_proposals := (ap_proposals c)(a \<mapsto> auth)\<rparr>"

definition Discard :: "APos \<Rightarrow> address \<Rightarrow> APos" where
  "Discard c a = c\<lparr>ap_proposals := (ap_proposals c)(a := None)\<rparr>"

section \<open>The snapshot of a block\<close>

text \<open>
  The signers a checkpoint lists between its vanity and its seal. Too short extra data makes the length
  of the list negative, which panics.
\<close>

definition checkpoint_signers :: "Header \<Rightarrow> address list option" where
  "checkpoint_signers h =
     (let n = length (hd_Extra h) in
      if n + AddressLength \<le> extraVanity + extraSeal then None
      else Some (map (\<lambda>i. ucast (bytes_to_u256 (take AddressLength (drop (extraVanity + i * AddressLength) (hd_Extra h)))))
             [0..<(n - extraVanity - extraSeal) div AddressLength]))"

definition signers_bytes :: "Snapshot \<Rightarrow> byte list" where
  "signers_bytes s = concat (map (word_to_bytes AddressLength) (snap_signers s))"

definition loadSnapshot :: "APos \<Rightarrow> hash \<Rightarrow> Snapshot option" where
  "loadSnapshot c h = (case ap_db c h of None \<Rightarrow> None | Some s \<Rightarrow> Some (s\<lparr>ps_Epoch := ap_Epoch c\<rparr>))"

definition snap_store :: "APos \<Rightarrow> Snapshot \<Rightarrow> APos" where
  "snap_store c s = c\<lparr>ap_db := (ap_db c)(ps_Hash s \<mapsto> s)\<rparr>"

text \<open>
  The search goes back from a block, through the given parents first and then through the chain, to a
  snapshot in memory or on disk, or to a checkpoint that is trusted; it collects the headers on its
  way, the latest first. The outer \<open>None\<close> is a search that never ends, \<open>Some None\<close> one that panics. The
  remainder by an epoch of 0 would panic too; \<^verbatim>\<open>New\<close> replaces such an epoch by the default.
\<close>

partial_function (option) snap_search ::
  "poa_env \<Rightarrow> ChainHeaderReader \<Rightarrow> APos \<Rightarrow> u64 \<Rightarrow> hash \<Rightarrow> Header list \<Rightarrow> Header list \<Rightarrow>
     (APos \<times> (Snapshot \<times> Header list, poa_error) sum) option option" where
  "snap_search env chain c number h parents headers =
     (case ap_recents c h of Some s \<Rightarrow> Some (Some (c, Inl (s, headers)))
      | None \<Rightarrow>
     (case (if number mod checkpointInterval = 0 then loadSnapshot c h else None) of Some s \<Rightarrow> Some (Some (c, Inl (s, headers)))
      | None \<Rightarrow>
     (case (if number = 0 \<or> (number mod ap_Epoch c = 0 \<and>
                 (length headers > FullImmutabilityThreshold \<or> cr_GetHeaderByNumber chain (ucast (number - 1)) = NilHeader))
            then cr_GetHeaderByNumber chain (ucast number) else NilHeader) of
        TypedNil \<Rightarrow> Some None
      | HeaderPtr g \<Rightarrow>
          (case checkpoint_signers g of None \<Rightarrow> Some None
           | Some signers \<Rightarrow>
               (let s = newSnapshot (ap_Epoch c) number (pv_hash env g) signers
                in Some (Some (snap_store c s, Inl (s, headers)))))
      | NilHeader \<Rightarrow>
          if parents \<noteq> [] then
            (let p = last parents in
             if pv_hash env p \<noteq> h \<or> hd_num p \<noteq> number then Some (Some (c, Inr errUnknownBlock))
             else snap_search env chain c (number - 1) (hd_ParentHash p) (butlast parents) (headers @ [p]))
          else (case cr_GetHeader chain h (ucast number) of
                  NilHeader \<Rightarrow> Some (Some (c, Inr errUnknownBlock))
                | TypedNil \<Rightarrow> Some None
                | HeaderPtr p \<Rightarrow> snap_search env chain c (number - 1) (hd_ParentHash p) parents (headers @ [p])))))"

definition snapshot ::
  "poa_env \<Rightarrow> ChainHeaderReader \<Rightarrow> APos \<Rightarrow> u64 \<Rightarrow> hash \<Rightarrow> Header list \<Rightarrow> (APos \<times> (Snapshot, poa_error) sum) option" where
  "snapshot env chain c number h parents =
     (case snap_search env chain c number h parents [] of
        None \<Rightarrow> None
      | Some None \<Rightarrow> None
      | Some (Some (c, Inr err)) \<Rightarrow> Some (c, Inr err)
      | Some (Some (c, Inl (snap, headers))) \<Rightarrow>
          (case snap_apply (pv_hash env) (pv_sigrec env) snap (rev headers) of
             Inr err \<Rightarrow> Some (c, Inr err)
           | Inl snap \<Rightarrow>
               (let c = c\<lparr>ap_recents := pv_arc env (ap_recents c) (ps_Hash snap) snap\<rparr>;
                    c = (if ps_Number snap mod checkpointInterval = 0 \<and> headers \<noteq> [] then snap_store c snap else c)
                in Some (c, Inl snap))))"

section \<open>Verifying headers\<close>

definition verifySeal :: "poa_env \<Rightarrow> APos \<Rightarrow> Snapshot \<Rightarrow> Header \<Rightarrow> poa_error option option" where
  "verifySeal env c snap header =
     (let number = hd_num header in
      if number = 0 then Some (Some errUnknownBlock)
      else case ecrecover (pv_sigrec env) header of
        Inr err \<Rightarrow> Some (Some err)
      | Inl signer \<Rightarrow>
          if signer \<notin> ps_Signers snap then Some (Some errUnauthorizedSigner)
          else if \<exists>seen. ps_Recents snap seen = Some signer \<and> seen > number - sign_limit snap
          then Some (Some errRecentlySigned)
          else if ap_fakeDiff c then Some None
          else (case inturn snap number signer of None \<Rightarrow> None
                | Some turn \<Rightarrow>
                    Some (if turn \<and> hd_Difficulty header \<noteq> diffInTurn then Some errWrongDifficulty
                          else if \<not> turn \<and> hd_Difficulty header \<noteq> diffNoTurn then Some errWrongDifficulty
                          else None)))"

definition verify_gas :: "ChainConfig \<Rightarrow> Header \<Rightarrow> Header \<Rightarrow> poa_error option option" where
  "verify_gas config parent header =
     (if hd_GasUsed header > hd_GasLimit header then Some (Some errGasUsed)
      else if \<not> IsLondon config (hd_num header) then
        (if hd_BaseFee header \<noteq> None then Some (Some errBaseFee)
         else Some (map_option errFee (VerifyGaslimit (hd_GasLimit parent) (hd_GasLimit header))))
      else map_option (map_option errFee) (VerifyEip1559Header config parent header))"

text \<open>Slicing the signer list out of too short extra data panics; \<^verbatim>\<open>verifyHeader\<close> has checked the length.\<close>

definition verify_checkpoint :: "Snapshot \<Rightarrow> Header \<Rightarrow> u64 \<Rightarrow> poa_error option option" where
  "verify_checkpoint snap header epoch =
     (if hd_num header mod epoch \<noteq> 0 then Some None
      else if length (hd_Extra header) < extraVanity + extraSeal then None
      else Some (if take (length (hd_Extra header) - extraSeal - extraVanity) (drop extraVanity (hd_Extra header))
                     \<noteq> signers_bytes snap
                 then Some errMismatchingCheckpointSigners else None))"

definition verifyCascadingFields ::
  "poa_env \<Rightarrow> ChainHeaderReader \<Rightarrow> APos \<Rightarrow> Header \<Rightarrow> Header list \<Rightarrow> (APos \<times> poa_error option) option" where
  "verifyCascadingFields env chain c header parents =
     (let number = hd_num header in
      if number = 0 then Some (c, None)
      else case (if parents \<noteq> [] then HeaderPtr (last parents)
                 else cr_GetHeader chain (hd_ParentHash header) (ucast (number - 1))) of
        NilHeader \<Rightarrow> None
      | TypedNil \<Rightarrow> Some (c, Some errUnknownBlock)
      | HeaderPtr parent \<Rightarrow>
          if hd_num parent \<noteq> number - 1 \<or> pv_hash env parent \<noteq> hd_ParentHash header then Some (c, Some errUnknownBlock)
          else if hd_Time parent + ap_Period c > hd_Time header then Some (c, Some errInvalidTimestamp)
          else (case verify_gas (cr_Config chain) parent header of
             None \<Rightarrow> None
           | Some (Some err) \<Rightarrow> Some (c, Some err)
           | Some None \<Rightarrow>
               (case snapshot env chain c (number - 1) (hd_ParentHash header) parents of
                  None \<Rightarrow> None
                | Some (c, Inr err) \<Rightarrow> Some (c, Some err)
                | Some (c, Inl snap) \<Rightarrow>
                    (case verify_checkpoint snap header (ap_Epoch c) of
                       None \<Rightarrow> None
                     | Some (Some err) \<Rightarrow> Some (c, Some err)
                     | Some None \<Rightarrow> map_option (Pair c) (verifySeal env c snap header)))))"

text \<open>The checks a header can be given alone; \<open>now\<close> is the time of the clock.\<close>

definition verify_alone :: "APos \<Rightarrow> u64 \<Rightarrow> Header \<Rightarrow> poa_error option" where
  "verify_alone c now header =
     (let number = hd_num header;
          checkpoint = (number mod ap_Epoch c = 0);
          n = length (hd_Extra header)
      in if hd_Number header = 0 then Some errUnknownBlock
         else if hd_Time header > now then Some errFutureBlock
         else if checkpoint \<and> hd_Coinbase header \<noteq> 0 then Some errInvalidCheckpointBeneficiary
         else if hd_Nonce header \<noteq> nonceAuthVote \<and> hd_Nonce header \<noteq> nonceDropVote then Some errInvalidVote
         else if checkpoint \<and> hd_Nonce header \<noteq> nonceDropVote then Some errInvalidCheckpointVote
         else if n < extraVanity then Some errMissingVanity
         else if n < extraVanity + extraSeal then Some errMissingSignature
         else if \<not> checkpoint \<and> n - extraVanity - extraSeal \<noteq> 0 then Some errExtraSigners
         else if checkpoint \<and> (n - extraVanity - extraSeal) mod AddressLength \<noteq> 0 then Some errInvalidCheckpointSigners
         else if hd_MixDigest header \<noteq> 0 then Some errInvalidMixDigest
         else if number > 0 \<and> (hd_Difficulty header = 0 \<or>
                (hd_Difficulty header \<noteq> diffInTurn \<and> hd_Difficulty header \<noteq> diffNoTurn)) then Some errInvalidDifficulty
         else if hd_GasLimit header > MaxGasLimit then Some errGasLimit
         else None)"

definition verifyHeader ::
  "poa_env \<Rightarrow> ChainHeaderReader \<Rightarrow> APos \<Rightarrow> u64 \<Rightarrow> Header \<Rightarrow> Header list \<Rightarrow> (APos \<times> poa_error option) option" where
  "verifyHeader env chain c now header parents =
     (case verify_alone c now header of Some err \<Rightarrow> Some (c, Some err)
      | None \<Rightarrow> verifyCascadingFields env chain c header parents)"

text \<open>The goroutine of \<^verbatim>\<open>VerifyHeaders\<close>, not aborted: each header is verified with those before it as parents.\<close>

fun verify_headers_loop ::
  "poa_env \<Rightarrow> ChainHeaderReader \<Rightarrow> APos \<Rightarrow> u64 \<Rightarrow> Header list \<Rightarrow> Header list \<Rightarrow> (APos \<times> poa_error option list) option" where
  "verify_headers_loop env chain c now before [] = Some (c, [])"
| "verify_headers_loop env chain c now before (h # hs) =
     (case verifyHeader env chain c now h before of None \<Rightarrow> None
      | Some (c, e) \<Rightarrow>
          (case verify_headers_loop env chain c now (before @ [h]) hs of None \<Rightarrow> None
           | Some (c, es) \<Rightarrow> Some (c, e # es)))"

definition VerifyHeaders ::
  "poa_env \<Rightarrow> ChainHeaderReader \<Rightarrow> APos \<Rightarrow> u64 \<Rightarrow> Header list \<Rightarrow> (APos \<times> poa_error option list) option" where
  "VerifyHeaders env chain c now headers = verify_headers_loop env chain c now [] headers"

section \<open>Preparing and sealing blocks\<close>

definition calcDifficulty :: "Snapshot \<Rightarrow> address \<Rightarrow> u256 option" where
  "calcDifficulty snap signer =
     map_option (\<lambda>turn. if turn then diffInTurn else diffNoTurn) (inturn snap (ps_Number snap + 1) signer)"

definition CalcDifficulty :: "poa_env \<Rightarrow> ChainHeaderReader \<Rightarrow> APos \<Rightarrow> Header \<Rightarrow> (APos \<times> u256) option" where
  "CalcDifficulty env chain c parent =
     (case snapshot env chain c (hd_num parent) (pv_hash env parent) [] of None \<Rightarrow> None
      | Some (c, Inr err) \<Rightarrow> Some (c, 0)
      | Some (c, Inl snap) \<Rightarrow> map_option (Pair c) (calcDifficulty snap (ap_signer c)))"

text \<open>The vote a prepared block carries: one of the proposals that would change the signers, if there is any.\<close>

definition prepare_vote :: "poa_env \<Rightarrow> APos \<Rightarrow> Snapshot \<Rightarrow> Header \<Rightarrow> Header" where
  "prepare_vote env c snap header =
     (let header = header\<lparr>hd_Coinbase := 0, hd_Nonce := 0\<rparr>;
          addresses = {a. case ap_proposals c a of None \<Rightarrow> False | Some auth \<Rightarrow> validVote snap a auth}
      in if hd_num header mod ap_Epoch c \<noteq> 0 \<and> addresses \<noteq> {}
         then (let a = pv_choose env addresses in
               header\<lparr>hd_Coinbase := a, hd_Nonce := (if ap_proposals c a = Some True then nonceAuthVote else nonceDropVote)\<rparr>)
         else header)"

definition prepare_extra :: "APos \<Rightarrow> Snapshot \<Rightarrow> Header \<Rightarrow> byte list" where
  "prepare_extra c snap header =
     (let extra = hd_Extra header;
          extra = (if length extra < extraVanity then extra @ replicate (extraVanity - length extra) 0 else extra);
          extra = take extraVanity extra;
          extra = (if hd_num header mod ap_Epoch c = 0 then extra @ signers_bytes snap else extra)
      in extra @ replicate extraSeal 0)"

definition Prepare ::
  "poa_env \<Rightarrow> ChainHeaderReader \<Rightarrow> APos \<Rightarrow> u64 \<Rightarrow> Header \<Rightarrow> (APos \<times> (Header, poa_error) sum) option" where
  "Prepare env chain c now header =
     (case snapshot env chain c (hd_num header - 1) (hd_ParentHash header) [] of None \<Rightarrow> None
      | Some (c, Inr err) \<Rightarrow> Some (c, Inr err)
      | Some (c, Inl snap) \<Rightarrow>
          (let header = prepare_vote env c snap header in
           case calcDifficulty snap (ap_signer c) of None \<Rightarrow> None
           | Some diff \<Rightarrow>
               (let header = header\<lparr>hd_Difficulty := diff, hd_Extra := prepare_extra c snap header, hd_MixDigest := 0\<rparr> in
                case cr_GetHeader chain (hd_ParentHash header) (hd_Number header - 1) of
                  NilHeader \<Rightarrow> Some (c, Inr errUnknownAncestor)
                | TypedNil \<Rightarrow> None
                | HeaderPtr parent \<Rightarrow>
                    (let t = hd_Time parent + ap_Period c
                     in Some (c, Inl (header\<lparr>hd_Time := (if t < now then now + ap_Period c else t)\<rparr>))))))"

text \<open>The seal overwrites the end of the extra data, which panics when that is too short.\<close>

definition put_seal :: "byte list \<Rightarrow> Header \<Rightarrow> Header option" where
  "put_seal sig header =
     (let n = length (hd_Extra header) in
      if n < extraSeal then None
      else Some (header\<lparr>hd_Extra := take (n - extraSeal) (hd_Extra header) @
             take extraSeal sig @ drop (n - extraSeal + length sig) (hd_Extra header)\<rparr>))"

text \<open>
  \<^verbatim>\<open>Seal\<close> up to the point where it waits for its slot: \<open>agg\<close> is the signature the verifiers aggregate,
  \<open>sign\<close> the signature of the engine's key, each \<open>None\<close> when it fails. The configuration the engine was
  made with is the one of the chain, as in the node.
\<close>

definition Seal ::
  "poa_env \<Rightarrow> ChainHeaderReader \<Rightarrow> (Header \<Rightarrow> byte list option) \<Rightarrow> (address \<Rightarrow> Header \<Rightarrow> byte list option) \<Rightarrow>
     APos \<Rightarrow> nat \<Rightarrow> Header \<Rightarrow> (APos \<times> (Header, poa_error) sum) option" where
  "Seal env chain agg sign c txs header =
     (let number = hd_num header in
      if number = 0 then Some (c, Inr errUnknownBlock)
      else if ap_Period c = 0 \<and> txs = 0 then Some (c, Inr errSealingPaused)
      else case snapshot env chain c (number - 1) (hd_ParentHash header) [] of
        None \<Rightarrow> None
      | Some (c, Inr err) \<Rightarrow> Some (c, Inr err)
      | Some (c, Inl snap) \<Rightarrow>
          if ap_signer c \<notin> ps_Signers snap then Some (c, Inr errUnauthorizedSigner)
          else if \<exists>seen. ps_Recents snap seen = Some (ap_signer c) \<and>
                 (number < sign_limit snap \<or> seen > number - sign_limit snap)
          then Some (c, Inr errSignedRecentlyWait)
          else (case (if isForked (cc_BeijingBlock (cr_Config chain)) number
                      then map_option (\<lambda>s. header\<lparr>hd_Signature := s\<rparr>) (agg header) else Some header) of
                  None \<Rightarrow> Some (c, Inr errSignature)
                | Some header \<Rightarrow>
                    (case sign (ap_signer c) header of None \<Rightarrow> Some (c, Inr errSignature)
                     | Some sig \<Rightarrow> map_option (\<lambda>h. (c, Inl h)) (put_seal sig header))))"

section \<open>The chain behind the engine\<close>

text \<open>
  What the chain keeps of headers in its database: the hash of the canonical block of a number, which
  is 0 when there is none, the number of a hash, and the header of a hash and a number.
\<close>

record header_db =
  db_HeaderCanonical :: "u64 \<Rightarrow> hash"
  db_HeaderNumber :: "hash \<Rightarrow> u64 option"
  db_Headers :: "hash \<Rightarrow> u64 \<Rightarrow> Header option"

definition ReadHeaderByHash :: "header_db \<Rightarrow> hash \<Rightarrow> Header option" where
  "ReadHeaderByHash db h = (case db_HeaderNumber db h of None \<Rightarrow> None | Some number \<Rightarrow> db_Headers db h number)"

text \<open>
  \<^verbatim>\<open>BlockChain.GetHeader\<close> and \<^verbatim>\<open>GetHeaderByNumber\<close> return the pointer they read from the database as an
  interface value: a header that is missing becomes a nil pointer in a non-nil interface. Only a
  database that cannot be opened, and a number without a canonical block, give the nil interface.
\<close>

definition as_iheader :: "Header option \<Rightarrow> iheader" where
  "as_iheader p = (case p of None \<Rightarrow> TypedNil | Some h \<Rightarrow> HeaderPtr h)"

definition bc_GetHeader :: "header_db option \<Rightarrow> hash \<Rightarrow> u256 \<Rightarrow> iheader" where
  "bc_GetHeader chainDB h number =
     (case chainDB of None \<Rightarrow> NilHeader | Some db \<Rightarrow> as_iheader (ReadHeaderByHash db h))"

definition bc_GetHeaderByNumber :: "header_db option \<Rightarrow> u256 \<Rightarrow> iheader" where
  "bc_GetHeaderByNumber chainDB number =
     (case chainDB of None \<Rightarrow> NilHeader
      | Some db \<Rightarrow>
          (let h = db_HeaderCanonical db (ucast number) in
           if h = 0 then NilHeader else as_iheader (db_Headers db h (ucast number))))"

end
