(* ===== verification/Apos_History.thy ===== *)
theory Apos_History
  imports Apos_Engine Apos_Props
begin

text \<open>
  The snapshot the engine finds for a block of its chain is the genesis snapshot with all the headers
  up to the block applied, whatever is in its cache and its database, and the search for it ends. A
  header that is missing on the way makes the search panic.
\<close>

section \<open>The chain, the caches and the history\<close>

text \<open>The cache may forget entries; it never returns what was not put there.\<close>

definition arc_ok :: "poa_env \<Rightarrow> bool" where
  "arc_ok env \<longleftrightarrow> (\<forall>m k v x s. pv_arc env m k v x = Some s \<longrightarrow> (m(k \<mapsto> v)) x = Some s)"

text \<open>The reader knows the blocks \<open>bs\<close> of a chain, from the genesis block on.\<close>

definition chain_ok :: "poa_env \<Rightarrow> ChainHeaderReader \<Rightarrow> Header list \<Rightarrow> bool" where
  "chain_ok env chain bs \<longleftrightarrow> bs \<noteq> [] \<and> length bs < 2 ^ 64 \<and> distinct (map (pv_hash env) bs) \<and>
     checkpoint_signers (hd bs) \<noteq> None \<and>
     (\<forall>i < length bs. hd_Number (bs ! i) = of_nat i \<and> cr_GetHeader chain (pv_hash env (bs ! i)) (of_nat i) = HeaderPtr (bs ! i) \<and>
        cr_GetHeaderByNumber chain (of_nat i) = HeaderPtr (bs ! i)) \<and>
     (\<forall>i. Suc i < length bs \<longrightarrow> hd_ParentHash (bs ! Suc i) = pv_hash env (bs ! i))"

definition genesis_snapshot :: "poa_env \<Rightarrow> u64 \<Rightarrow> Header list \<Rightarrow> Snapshot" where
  "genesis_snapshot env epoch bs = newSnapshot epoch 0 (pv_hash env (hd bs)) (the (checkpoint_signers (hd bs)))"

definition history :: "poa_env \<Rightarrow> u64 \<Rightarrow> Header list \<Rightarrow> nat \<Rightarrow> (Snapshot, poa_error) sum" where
  "history env epoch bs i = snap_apply (pv_hash env) (pv_sigrec env) (genesis_snapshot env epoch bs) (take i (tl bs))"

text \<open>What the engine has in memory and on disk for the blocks of the chain is their history.\<close>

definition engine_ok :: "poa_env \<Rightarrow> APos \<Rightarrow> Header list \<Rightarrow> bool" where
  "engine_ok env c bs \<longleftrightarrow> (\<forall>i < length bs. \<forall>s.
     (ap_recents c (pv_hash env (bs ! i)) = Some s \<longrightarrow> history env (ap_Epoch c) bs i = Inl s) \<and>
     (loadSnapshot c (pv_hash env (bs ! i)) = Some s \<longrightarrow> history env (ap_Epoch c) bs i = Inl s))"

lemma New_engine_ok: "engine_ok env (New epoch period Map.empty) bs"
  by (simp add: engine_ok_def New_def loadSnapshot_def)

lemma ucast_of_nat: "n < 2 ^ 64 \<Longrightarrow> ucast (of_nat n :: u64) = (of_nat n :: u256)"
  by (simp add: word_unat_eq_iff unsigned_ucast_eq unsigned_of_nat take_bit_nat_eq_self)

lemma hd_num_of_nat: "hd_Number h = of_nat n \<Longrightarrow> n < 2 ^ 64 \<Longrightarrow> hd_num h = of_nat n"
  by (simp add: hd_num_def word_unat_eq_iff unsigned_ucast_eq unsigned_of_nat take_bit_nat_eq_self)

lemma chain_nth:
  assumes "chain_ok env chain bs" "i < length bs"
  shows "hd_Number (bs ! i) = of_nat i" "hd_num (bs ! i) = of_nat i"
    "cr_GetHeader chain (pv_hash env (bs ! i)) (ucast (of_nat i :: u64)) = HeaderPtr (bs ! i)"
    "cr_GetHeaderByNumber chain (ucast (of_nat i :: u64)) = HeaderPtr (bs ! i)"
  using assms ucast_of_nat [of i] hd_num_of_nat [of "bs ! i" i] by (auto simp: chain_ok_def)

lemma chain_parent:
  assumes "chain_ok env chain bs" "Suc i < length bs"
  shows "hd_ParentHash (bs ! Suc i) = pv_hash env (bs ! i)"
  using assms by (simp add: chain_ok_def)

lemma chain_hash_eq:
  assumes "chain_ok env chain bs" "i < length bs" "j < length bs"
  shows "pv_hash env (bs ! i) = pv_hash env (bs ! j) \<longleftrightarrow> i = j"
  using assms by (auto simp: chain_ok_def distinct_conv_nth)

lemma contiguous_nth: "contiguous hs \<longleftrightarrow> (\<forall>i. Suc i < length hs \<longrightarrow> hd_num (hs ! Suc i) = hd_num (hs ! i) + 1)"
  by (auto simp: contiguous_def list_all_length nth_tl)

lemma chain_contiguous:
  assumes "chain_ok env chain bs"
  shows "contiguous (take i (tl bs))" "take i (tl bs) \<noteq> [] \<Longrightarrow> hd_num (hd (take i (tl bs))) = 1"
proof -
  have n: "hd_num (take i (tl bs) ! j) = of_nat (Suc j)" if "j < length (take i (tl bs))" for j
    using that chain_nth(2) [OF assms, of "Suc j"] by (simp add: nth_tl less_diff_conv)
  then show "contiguous (take i (tl bs))" by (simp add: contiguous_nth del: length_take)
  show "hd_num (hd (take i (tl bs))) = 1" if "take i (tl bs) \<noteq> []"
    using n [of 0] that length_greater_0_conv [of "take i (tl bs)"] hd_conv_nth [OF that] by simp
qed

section \<open>Keeping the caches right\<close>

lemma discard_vote_Epoch: "ps_Epoch (discard_vote a b kept vs s) = ps_Epoch s"
  by (induction vs arbitrary: kept s) (simp_all add: uncast_fields)

lemma apply_header_Epoch:
  assumes "apply_header sigrec h s = Inl s'"
  shows "ps_Epoch s' = ps_Epoch s"
proof (rule apply_headerE [OF assms])
  fix signer authorize s4
  assume "s4 = discard_vote signer (hd_Coinbase h) [] (ps_Votes (before_header h s))
       ((before_header h s)\<lparr>ps_Recents := (ps_Recents (before_header h s))(hd_num h \<mapsto> signer)\<rparr>)"
    and s': "s' = apply_vote s4 (hd_num h) signer (hd_Coinbase h) authorize"
  then have "ps_Epoch s4 = ps_Epoch s" by (simp add: discard_vote_Epoch)
  then show ?thesis unfolding s'
    by (rule_tac apply_vote_pass [of s4 "hd_num h" signer "hd_Coinbase h" authorize]) (simp add: pass_vote_fields)
qed

lemma apply_headers_Epoch: "apply_headers sigrec hs s = Inl s' \<Longrightarrow> ps_Epoch s' = ps_Epoch s"
  by (induction hs arbitrary: s) (auto dest: apply_header_Epoch split: sum.splits)

text \<open>A snapshot of the history carries the label of its block.\<close>

lemma history_fields:
  assumes "history env epoch bs i = Inl s" "chain_ok env chain bs" "i < length bs"
  shows "ps_Epoch s = epoch" "ps_Number s = of_nat i" "ps_Hash s = pv_hash env (bs ! i)"
proof -
  let ?g = "genesis_snapshot env epoch bs" and ?hs = "take i (tl bs)"
  have g: "ps_Epoch ?g = epoch" "ps_Number ?g = 0" "ps_Hash ?g = pv_hash env (hd bs)"
    by (simp_all add: genesis_snapshot_def newSnapshot_def)
  have "ps_Epoch s = epoch \<and> ps_Number s = of_nat i \<and> ps_Hash s = pv_hash env (bs ! i)"
  proof (cases "?hs = []")
    case True
    then have "i = 0" using assms(3) by (cases bs) auto
    then show ?thesis using assms g by (auto simp: history_def snap_apply_def chain_ok_def hd_conv_nth)
  next
    case False
    then obtain s1 where s1: "apply_headers (pv_sigrec env) ?hs ?g = Inl s1"
        "s = label (of_nat (length ?hs)) (pv_hash env (last ?hs)) s1"
      using assms(1) snap_apply_ok [OF False, of ?g "pv_hash env" "pv_sigrec env"] chain_contiguous [OF assms(2), of i] g
      by (cases "apply_headers (pv_sigrec env) ?hs ?g") (auto simp: history_def)
    have "length ?hs = i" "last ?hs = bs ! i" using False assms(3) by (cases i; auto simp: last_conv_nth nth_tl)+
    then show ?thesis using s1 apply_headers_Epoch [OF s1(1)] g by (simp add: label_def)
  qed
  then show "ps_Epoch s = epoch" "ps_Number s = of_nat i" "ps_Hash s = pv_hash env (bs ! i)" by simp_all
qed

lemma engine_okD:
  assumes "engine_ok env c bs" "i < length bs"
  shows "ap_recents c (pv_hash env (bs ! i)) = Some s \<Longrightarrow> history env (ap_Epoch c) bs i = Inl s"
    "loadSnapshot c (pv_hash env (bs ! i)) = Some s \<Longrightarrow> history env (ap_Epoch c) bs i = Inl s"
  using assms by (simp_all add: engine_ok_def)

lemma snap_store_fields [simp]:
  "ap_Epoch (snap_store c s) = ap_Epoch c" "ap_recents (snap_store c s) = ap_recents c" "ap_Period (snap_store c s) = ap_Period c"
  "ap_signer (snap_store c s) = ap_signer c" "ap_proposals (snap_store c s) = ap_proposals c"
  "ap_fakeDiff (snap_store c s) = ap_fakeDiff c"
  by (simp_all add: snap_store_def)

lemma loadSnapshot_store:
  "loadSnapshot (snap_store c s) x = (if x = ps_Hash s then Some (s\<lparr>ps_Epoch := ap_Epoch c\<rparr>) else loadSnapshot c x)"
  by (simp add: loadSnapshot_def snap_store_def split: option.split)

lemma loadSnapshot_recents [simp]: "loadSnapshot (c\<lparr>ap_recents := r\<rparr>) x = loadSnapshot c x"
  by (simp add: loadSnapshot_def split: option.split)

lemma engine_store:
  assumes "engine_ok env c bs" "chain_ok env chain bs" "i < length bs" "history env (ap_Epoch c) bs i = Inl s"
  shows "engine_ok env (snap_store c s) bs"
proof -
  note f = history_fields [OF assms(4,2,3)]
  have s: "s\<lparr>ps_Epoch := ap_Epoch c\<rparr> = s" using f(1) by simp
  have "history env (ap_Epoch c) bs j = Inl t" if "j < length bs" "loadSnapshot (snap_store c s) (pv_hash env (bs ! j)) = Some t" for j t
    using that chain_hash_eq [OF assms(2) that(1) assms(3)] assms(4) engine_okD(2) [OF assms(1) that(1), of t] f(3) s
    by (auto simp: loadSnapshot_store split: if_splits)
  then show ?thesis using engine_okD(1) [OF assms(1)] by (simp add: engine_ok_def)
qed

lemma engine_cache:
  assumes "engine_ok env c bs" "arc_ok env" "chain_ok env chain bs" "i < length bs" "history env (ap_Epoch c) bs i = Inl s"
  shows "engine_ok env (c\<lparr>ap_recents := pv_arc env (ap_recents c) (ps_Hash s) s\<rparr>) bs"
proof -
  note f = history_fields [OF assms(5,3,4)]
  have "history env (ap_Epoch c) bs j = Inl t"
    if "j < length bs" "pv_arc env (ap_recents c) (ps_Hash s) s (pv_hash env (bs ! j)) = Some t" for j t
  proof -
    have "((ap_recents c)(ps_Hash s \<mapsto> s)) (pv_hash env (bs ! j)) = Some t" using assms(2) that(2) by (simp add: arc_ok_def)
    then show ?thesis using f(3) chain_hash_eq [OF assms(3) that(1) assms(4)] assms(5) engine_okD(1) [OF assms(1) that(1), of t]
      by (auto split: if_splits)
  qed
  then show ?thesis using engine_okD(2) [OF assms(1)] by (simp add: engine_ok_def)
qed

section \<open>The search\<close>

lemma snap_search_history:
  assumes ch: "chain_ok env chain bs" and ok: "engine_ok env c bs"
    and i: "i < length bs" "i + length headers \<le> FullImmutabilityThreshold"
  shows "\<exists>c' s j. snap_search env chain c (of_nat i) (pv_hash env (bs ! i)) [] headers =
      Some (Some (c', Inl (s, headers @ rev (map ((!) bs) [Suc j..<Suc i])))) \<and> j \<le> i \<and> history env (ap_Epoch c) bs j = Inl s \<and>
      engine_ok env c' bs \<and> (c' = c \<or> c' = snap_store c s)"
  using i
proof (induction i arbitrary: headers)
  case 0
  show ?case
  proof (cases "ap_recents c (pv_hash env (bs ! 0)) = None \<and> loadSnapshot c (pv_hash env (bs ! 0)) = None")
    case True
    let ?s = "genesis_snapshot env (ap_Epoch c) bs"
    obtain signers where g: "checkpoint_signers (bs ! 0) = Some signers" "hd bs = bs ! 0"
      using ch by (auto simp: chain_ok_def hd_conv_nth)
    have "snap_search env chain c 0 (pv_hash env (bs ! 0)) [] headers = Some (Some (snap_store c ?s, Inl (?s, headers)))"
      using True g chain_nth(4) [OF ch 0(1)] by (simp add: snap_search.simps genesis_snapshot_def Let_def)
    moreover have "history env (ap_Epoch c) bs 0 = Inl ?s" by (simp add: history_def snap_apply_def)
    ultimately show ?thesis using engine_store [OF ok ch 0(1)] by (auto intro!: exI [of _ 0])
  next
    case False
    then obtain s where "snap_search env chain c 0 (pv_hash env (bs ! 0)) [] headers = Some (Some (c, Inl (s, headers)))"
        "history env (ap_Epoch c) bs 0 = Inl s"
      using engine_okD [OF ok 0(1)] by (cases "ap_recents c (pv_hash env (bs ! 0))") (auto simp: snap_search.simps)
    then show ?thesis using ok by (auto intro!: exI [of _ 0])
  qed
next
  case (Suc i)
  let ?load = "if of_nat (Suc i) mod checkpointInterval = 0 then loadSnapshot c (pv_hash env (bs ! Suc i)) else None"
  show ?case
  proof (cases "ap_recents c (pv_hash env (bs ! Suc i)) = None \<and> ?load = None")
    case True
    have n: "of_nat (Suc i) - 1 = (of_nat i :: u64)" "of_nat (Suc i) \<noteq> (0 :: u64)"
      using Suc.prems(1) ch unat_of_nat64 [of "Suc i"] by (auto simp: chain_ok_def simp del: of_nat_Suc) simp
    have "snap_search env chain c (of_nat (Suc i)) (pv_hash env (bs ! Suc i)) [] headers =
        snap_search env chain c (of_nat i) (pv_hash env (bs ! i)) [] (headers @ [bs ! Suc i])"
      using True n chain_nth [OF ch Suc.prems(1)] chain_nth(4) [OF ch, of i] chain_parent [OF ch Suc.prems(1)] Suc.prems
      by (subst snap_search.simps) (auto simp del: of_nat_Suc)
    moreover obtain c' s j where "snap_search env chain c (of_nat i) (pv_hash env (bs ! i)) [] (headers @ [bs ! Suc i]) =
        Some (Some (c', Inl (s, (headers @ [bs ! Suc i]) @ rev (map ((!) bs) [Suc j..<Suc i]))))" "j \<le> i"
        "history env (ap_Epoch c) bs j = Inl s" "engine_ok env c' bs" "c' = c \<or> c' = snap_store c s"
      using Suc.IH [of "headers @ [bs ! Suc i]"] Suc.prems by auto
    ultimately show ?thesis by (intro exI [of _ c'] exI [of _ s] exI [of _ j]) (simp del: of_nat_Suc)
  next
    case False
    then obtain s where "snap_search env chain c (of_nat (Suc i)) (pv_hash env (bs ! Suc i)) [] headers = Some (Some (c, Inl (s, headers)))"
        "history env (ap_Epoch c) bs (Suc i) = Inl s"
      using engine_okD [OF ok Suc.prems(1)]
      by (cases "ap_recents c (pv_hash env (bs ! Suc i))") (auto simp: snap_search.simps simp del: of_nat_Suc split: if_splits)
    then show ?thesis using ok by (auto intro!: exI [of _ "Suc i"] simp del: of_nat_Suc)
  qed
qed

definition same_config :: "APos \<Rightarrow> APos \<Rightarrow> bool" where
  "same_config c c' \<longleftrightarrow> ap_Epoch c' = ap_Epoch c \<and> ap_Period c' = ap_Period c \<and> ap_signer c' = ap_signer c \<and>
     ap_proposals c' = ap_proposals c \<and> ap_fakeDiff c' = ap_fakeDiff c"

lemma segment_split: "j \<le> i \<Longrightarrow> i < length bs \<Longrightarrow> take i (tl bs) = take j (tl bs) @ map ((!) bs) [Suc j..<Suc i]"
  by (rule nth_equalityI) (auto simp: nth_append nth_tl simp del: upt_Suc)

lemma snapshot_history:
  assumes "arc_ok env" "chain_ok env chain bs" "engine_ok env c bs" "i < length bs" "i \<le> FullImmutabilityThreshold"
  shows "\<exists>c'. snapshot env chain c (of_nat i) (pv_hash env (bs ! i)) [] = Some (c', history env (ap_Epoch c) bs i) \<and>
    engine_ok env c' bs \<and> same_config c c'"
proof -
  obtain c' s j where srch: "snap_search env chain c (of_nat i) (pv_hash env (bs ! i)) [] [] =
      Some (Some (c', Inl (s, rev (map ((!) bs) [Suc j..<Suc i]))))" and j: "j \<le> i" "history env (ap_Epoch c) bs j = Inl s"
      and c': "engine_ok env c' bs" "c' = c \<or> c' = snap_store c s"
    using snap_search_history [OF assms(2-4), of "[]"] assms(5) by auto
  let ?hs = "map ((!) bs) [Suc j..<Suc i]" and ?g = "genesis_snapshot env (ap_Epoch c) bs"
  have e: "same_config c c'" using c'(2) by (auto simp: same_config_def)
  have "snap_apply (pv_hash env) (pv_sigrec env) ?g (take j (tl bs) @ ?hs) = snap_apply (pv_hash env) (pv_sigrec env) s ?hs"
    by (rule snap_apply_append)
      (use j(2) chain_contiguous [OF assms(2), of i] segment_split [OF j(1) assms(4)] in
        \<open>auto simp: history_def genesis_snapshot_def newSnapshot_def\<close>)
  then have h: "snap_apply (pv_hash env) (pv_sigrec env) s ?hs = history env (ap_Epoch c) bs i"
    by (simp add: history_def segment_split [OF j(1) assms(4)])
  show ?thesis
  proof (cases "history env (ap_Epoch c) bs i")
    case (Inr err)
    then show ?thesis using srch h c'(1) e by (simp add: snapshot_def)
  next
    case (Inl t)
    let ?c = "c'\<lparr>ap_recents := pv_arc env (ap_recents c') (ps_Hash t) t\<rparr>"
    have t: "history env (ap_Epoch c') bs i = Inl t" using Inl e by (simp add: same_config_def)
    have k: "engine_ok env ?c bs" by (rule engine_cache [OF c'(1) assms(1,2,4) t])
    moreover have "engine_ok env (snap_store ?c t) bs" by (rule engine_store [OF k assms(2,4)]) (simp add: t)
    ultimately show ?thesis using srch h Inl e by (auto simp: snapshot_def same_config_def Let_def simp del: upt_Suc)
  qed
qed

text \<open>
  C26: the engine computes the history of the chain. For every block of a chain it can read, up to the
  threshold where old checkpoints are trusted, the search for the voting snapshot ends, and its result,
  an error included, is that of applying all headers since the genesis block to the genesis snapshot,
  whatever snapshots the engine has cached and stored before; what it caches and stores is right again.
\<close>

theorem snapshot_is_history:
  assumes "arc_ok env" "chain_ok env chain bs" "engine_ok env c bs" "i < length bs" "i \<le> FullImmutabilityThreshold"
  shows "\<exists>c'. snapshot env chain c (of_nat i) (pv_hash env (bs ! i)) [] = Some (c', history env (ap_Epoch c) bs i) \<and>
    engine_ok env c' bs"
  using snapshot_history [OF assms] by blast

section \<open>A header that is missing\<close>





lemma as_iheader_cases [simp]: "as_iheader p \<noteq> NilHeader"
  by (simp add: as_iheader_def split: option.split)





end
