(* ===== verification/Apos_Mining.thy ===== *)
theory Apos_Mining
  imports Apos_History Fee_Props
begin

text \<open>
  Mining and verifying: a block the miner prepares and seals passes the verification of every engine on
  the same chain; before the London fork it never does; and the seal check lets a recent signer through
  while the numbers are below the limit.
\<close>

section \<open>What preparing and sealing set\<close>

lemma prepare_vote_fields [simp]:
  "hd_ParentHash (prepare_vote env c snap h) = hd_ParentHash h" "hd_Number (prepare_vote env c snap h) = hd_Number h"
  "hd_GasLimit (prepare_vote env c snap h) = hd_GasLimit h" "hd_GasUsed (prepare_vote env c snap h) = hd_GasUsed h"
  "hd_BaseFee (prepare_vote env c snap h) = hd_BaseFee h" "hd_Extra (prepare_vote env c snap h) = hd_Extra h"
  by (simp_all add: prepare_vote_def Let_def)

lemma hd_num_cong: "hd_Number h = hd_Number h' \<Longrightarrow> hd_num h = hd_num h'"
  by (simp add: hd_num_def)

lemma prepare_vote_checks:
  "hd_Nonce (prepare_vote env c snap h) \<in> {nonceAuthVote, nonceDropVote}"
  "hd_num h mod ap_Epoch c = 0 \<Longrightarrow> hd_Coinbase (prepare_vote env c snap h) = 0 \<and> hd_Nonce (prepare_vote env c snap h) = nonceDropVote"
  by (auto simp: prepare_vote_def Let_def hd_num_def)

lemma signers_bytes_length: "length (signers_bytes s) = AddressLength * length (snap_signers s)"
  by (simp add: signers_bytes_def length_concat comp_def sum_list_triv)

lemma prepare_extra_length:
  "length (prepare_extra c snap h) = extraVanity + extraSeal + (if hd_num h mod ap_Epoch c = 0 then length (signers_bytes snap) else 0)"
  by (simp add: prepare_extra_def Let_def)

lemma PrepareE:
  assumes "Prepare env chain c now h = Some (c', Inl h1)"
  obtains snap diff parent where
    "snapshot env chain c (hd_num h - 1) (hd_ParentHash h) [] = Some (c', Inl snap)"
    "calcDifficulty snap (ap_signer c') = Some diff"
    "cr_GetHeader chain (hd_ParentHash h) (hd_Number h - 1) = HeaderPtr parent"
    "h1 = (prepare_vote env c' snap h)\<lparr>hd_Difficulty := diff, hd_Extra := prepare_extra c' snap h, hd_MixDigest := 0,
       hd_Time := (if hd_Time parent + ap_Period c' < now then now + ap_Period c' else hd_Time parent + ap_Period c')\<rparr>"
proof -
  obtain snap where s: "snapshot env chain c (hd_num h - 1) (hd_ParentHash h) [] = Some (c', Inl snap)"
    using assms by (auto simp: Prepare_def Let_def split: option.splits prod.splits sum.splits iheader.splits)
  obtain diff parent where "calcDifficulty snap (ap_signer c') = Some diff"
      "cr_GetHeader chain (hd_ParentHash h) (hd_Number h - 1) = HeaderPtr parent"
    using assms s by (auto simp: Prepare_def Let_def split: option.splits iheader.splits)
  then show thesis using assms s
    by (intro that) (auto simp: Prepare_def Let_def prepare_extra_def hd_num_def split: if_splits)
qed

lemma put_seal_extra:
  assumes "put_seal sig h = Some h2"
  shows "length (hd_Extra h2) = length (hd_Extra h)"
    "take (length (hd_Extra h) - extraSeal) (hd_Extra h2) = take (length (hd_Extra h) - extraSeal) (hd_Extra h)"
    "h2 = h\<lparr>hd_Extra := hd_Extra h2\<rparr>"
  using assms by (auto simp: put_seal_def Let_def min_def split: if_splits)

lemma SealE:
  assumes "Seal env chain agg sign c txs h = Some (c', Inl h2)"
  obtains snap sg where
    "snapshot env chain c (hd_num h - 1) (hd_ParentHash h) [] = Some (c', Inl snap)" "hd_num h \<noteq> 0"
    "ap_signer c' \<in> ps_Signers snap"
    "\<And>seen. ps_Recents snap seen = Some (ap_signer c') \<Longrightarrow> sign_limit snap \<le> hd_num h \<and> seen \<le> hd_num h - sign_limit snap"
    "length (hd_Extra h2) = length (hd_Extra h)"
    "take (length (hd_Extra h) - extraSeal) (hd_Extra h2) = take (length (hd_Extra h) - extraSeal) (hd_Extra h)"
    "h2 = h\<lparr>hd_Signature := sg, hd_Extra := hd_Extra h2\<rparr>"
proof -
  obtain snap where s: "snapshot env chain c (hd_num h - 1) (hd_ParentHash h) [] = Some (c', Inl snap)"
    using assms by (auto simp: Seal_def Let_def split: if_splits option.splits prod.splits sum.splits)
  have g: "hd_num h \<noteq> 0" "ap_signer c' \<in> ps_Signers snap"
      "\<not> (\<exists>seen. ps_Recents snap seen = Some (ap_signer c') \<and> (hd_num h < sign_limit snap \<or> seen > hd_num h - sign_limit snap))"
    using assms s by (auto simp: Seal_def Let_def split: if_splits)
  obtain h1 sig where h1: "h1 = h \<or> (\<exists>sg. h1 = h\<lparr>hd_Signature := sg\<rparr>)" "put_seal sig h1 = Some h2"
    using assms s by (auto simp: Seal_def Let_def split: if_splits option.splits)
  note p = put_seal_extra [OF h1(2)]
  have "h2 = h\<lparr>hd_Signature := hd_Signature h2, hd_Extra := hd_Extra h2\<rparr>" using h1(1) p(3) by (cases h2) auto
  then show thesis using s g h1(1) p by (intro that [of snap "hd_Signature h2"]) (auto simp: not_less)
qed

section \<open>Gas and base fee of a prepared header\<close>

lemma CalcBaseFee_nonneg: "CalcBaseFee config parent = Some fee \<Longrightarrow> 0 \<le> fee"
  by (auto simp: CalcBaseFee_def Let_def split: if_splits option.splits)

lemma work_header_fields:
  assumes "work_header hash config ceil mceil parent ts cb = Some h"
  shows "hd_ParentHash h = hash parent" "hd_Number h = hd_Number parent + 1" "hd_Extra h = []"
  using assms by (auto simp: work_header_def Let_def split: if_splits option.splits)

lemma work_header_gas:
  assumes w: "work_header hash config ceil mceil parent ts cb = Some h" and l: "IsLondon config (hd_num h)"
    and g: "5000 \<le> unat (hd_GasLimit parent)" "unat (hd_GasLimit parent) < 2 ^ 61"
    and fee: "CalcBaseFee config parent = Some fee" "fee < 2 ^ 256"
  shows "hd_GasLimit h \<le> MaxGasLimit \<and> hd_BaseFee h = Some (word_of_int fee) \<and>
    (\<forall>h'. hd_GasLimit h' = hd_GasLimit h \<and> hd_BaseFee h' = hd_BaseFee h \<longrightarrow> VerifyEip1559Header config parent h' = Some None)"
proof -
  have u: "uint (word_of_int fee :: u256) = fee"
    using CalcBaseFee_nonneg [OF fee(1)] fee(2) by (simp add: unsigned_of_int take_bit_int_eq_self)
  let ?p = "if IsLondon config (hd_num parent) then hd_GasLimit parent else hd_GasLimit parent * ElasticityMultiplier"
  have "unat (hd_GasLimit parent * ElasticityMultiplier) = 2 * unat (hd_GasLimit parent)"
    using g(2) by (simp add: unat_word_ariths)
  then have p: "5000 \<le> unat ?p" "unat ?p < 2 ^ 62" using g by simp_all
  have n: "hd_num h = ucast (hd_Number parent + 1)" using work_header_fields(2) [OF w] by (simp add: hd_num_def)
  have h: "hd_GasLimit h = CalcGasLimit ?p (if IsLondon config (hd_num parent) then ceil else mceil)"
      "hd_BaseFee h = Some (word_of_int fee)"
    using w l fee(1) n by (auto simp: work_header_def Let_def hd_num_def split: if_splits)
  have v: "VerifyGaslimit ?p (hd_GasLimit h) = None" "hd_GasLimit h \<le> MaxGasLimit"
    unfolding h(1) by (rule CalcGasLimit_verifies [OF p])+
  have q: "(if \<not> IsLondon config (hd_num parent) then hd_GasLimit parent * ElasticityMultiplier else hd_GasLimit parent) = ?p"
    by simp
  show ?thesis using v h(2) fee(1) u by (simp add: VerifyEip1559Header_def Let_def q del: if_not_P if_P)
qed

section \<open>The mined header\<close>

text \<open>Executing the transactions fills in the roots, the bloom and the gas used, within the limit.\<close>

definition filled :: "Header \<Rightarrow> Header \<Rightarrow> bool" where
  "filled h h' \<longleftrightarrow> hd_GasUsed h' \<le> hd_GasLimit h \<and>
     h' = h\<lparr>hd_Root := hd_Root h', hd_TxHash := hd_TxHash h', hd_ReceiptHash := hd_ReceiptHash h', hd_Bloom := hd_Bloom h',
            hd_GasUsed := hd_GasUsed h'\<rparr>"

lemma filled_fields:
  assumes "filled h h'"
  shows "hd_ParentHash h' = hd_ParentHash h" "hd_Coinbase h' = hd_Coinbase h" "hd_Difficulty h' = hd_Difficulty h"
    "hd_Number h' = hd_Number h" "hd_GasLimit h' = hd_GasLimit h" "hd_GasUsed h' \<le> hd_GasLimit h'" "hd_Time h' = hd_Time h"
    "hd_MixDigest h' = hd_MixDigest h" "hd_Nonce h' = hd_Nonce h" "hd_Extra h' = hd_Extra h" "hd_BaseFee h' = hd_BaseFee h"
  using assms by (cases h'; simp add: filled_def)+

lemma sealed_fields:
  assumes "h' = h\<lparr>hd_Signature := sg, hd_Extra := e\<rparr>"
  shows "hd_ParentHash h' = hd_ParentHash h" "hd_Coinbase h' = hd_Coinbase h" "hd_Difficulty h' = hd_Difficulty h"
    "hd_Number h' = hd_Number h" "hd_GasLimit h' = hd_GasLimit h" "hd_GasUsed h' = hd_GasUsed h" "hd_Time h' = hd_Time h"
    "hd_MixDigest h' = hd_MixDigest h" "hd_Nonce h' = hd_Nonce h" "hd_BaseFee h' = hd_BaseFee h"
  using assms by simp_all

text \<open>What the verification reads of a header mined on the snapshot \<open>snap\<close>.\<close>

definition mined_on :: "poa_env \<Rightarrow> APos \<Rightarrow> Snapshot \<Rightarrow> Header \<Rightarrow> Header \<Rightarrow> bool" where
  "mined_on env c snap h h2 \<longleftrightarrow> hd_ParentHash h2 = hd_ParentHash h \<and> hd_Number h2 = hd_Number h \<and>
     hd_GasLimit h2 = hd_GasLimit h \<and> hd_BaseFee h2 = hd_BaseFee h \<and> hd_GasUsed h2 \<le> hd_GasLimit h2 \<and>
     calcDifficulty snap (ap_signer c) = Some (hd_Difficulty h2) \<and> hd_MixDigest h2 = 0 \<and>
     hd_Coinbase h2 = hd_Coinbase (prepare_vote env c snap h) \<and> hd_Nonce h2 = hd_Nonce (prepare_vote env c snap h) \<and>
     length (hd_Extra h2) = length (prepare_extra c snap h) \<and>
     take (length (prepare_extra c snap h) - extraSeal) (hd_Extra h2) =
       take (length (prepare_extra c snap h) - extraSeal) (prepare_extra c snap h)"

lemma mined_header:
  assumes "Prepare env chain c now h = Some (c1, Inl h1)" "filled h1 h1'"
    "Seal env chain agg sign c1 txs h1' = Some (c2, Inl h2)"
  obtains snap snap' parent where
    "snapshot env chain c (hd_num h - 1) (hd_ParentHash h) [] = Some (c1, Inl snap)"
    "snapshot env chain c1 (hd_num h - 1) (hd_ParentHash h) [] = Some (c2, Inl snap')"
    "mined_on env c1 snap h h2" "hd_num h \<noteq> 0" "ap_signer c2 \<in> ps_Signers snap'"
    "\<And>seen. ps_Recents snap' seen = Some (ap_signer c2) \<Longrightarrow> sign_limit snap' \<le> hd_num h \<and> seen \<le> hd_num h - sign_limit snap'"
    "cr_GetHeader chain (hd_ParentHash h) (hd_Number h - 1) = HeaderPtr parent"
    "hd_Time h2 = (if hd_Time parent + ap_Period c1 < now then now + ap_Period c1 else hd_Time parent + ap_Period c1)"
proof -
  obtain snap diff parent where p: "snapshot env chain c (hd_num h - 1) (hd_ParentHash h) [] = Some (c1, Inl snap)"
      "calcDifficulty snap (ap_signer c1) = Some diff"
      "cr_GetHeader chain (hd_ParentHash h) (hd_Number h - 1) = HeaderPtr parent"
      "h1 = (prepare_vote env c1 snap h)\<lparr>hd_Difficulty := diff, hd_Extra := prepare_extra c1 snap h, hd_MixDigest := 0,
       hd_Time := (if hd_Time parent + ap_Period c1 < now then now + ap_Period c1 else hd_Time parent + ap_Period c1)\<rparr>"
    by (rule PrepareE [OF assms(1)])
  note f = filled_fields [OF assms(2)]
  have n: "hd_num h1' = hd_num h" "hd_ParentHash h1' = hd_ParentHash h"
    using f p(4) by (auto intro: hd_num_cong)
  show thesis
  proof (rule SealE [OF assms(3)])
    fix snap' sg
    assume s: "snapshot env chain c1 (hd_num h1' - 1) (hd_ParentHash h1') [] = Some (c2, Inl snap')" "hd_num h1' \<noteq> 0"
      "ap_signer c2 \<in> ps_Signers snap'"
      "\<And>seen. ps_Recents snap' seen = Some (ap_signer c2) \<Longrightarrow> sign_limit snap' \<le> hd_num h1' \<and> seen \<le> hd_num h1' - sign_limit snap'"
      and e: "length (hd_Extra h2) = length (hd_Extra h1')"
      "take (length (hd_Extra h1') - extraSeal) (hd_Extra h2) = take (length (hd_Extra h1') - extraSeal) (hd_Extra h1')"
      and h2: "h2 = h1'\<lparr>hd_Signature := sg, hd_Extra := hd_Extra h2\<rparr>"
    note g = sealed_fields [OF h2]
    have "mined_on env c1 snap h h2" using e f g p(2,4) by (simp add: mined_on_def)
    then show thesis using s f g p n by (intro that [of snap snap' parent]) simp_all
  qed
qed

section \<open>The checks it passes\<close>

lemma mined_num: "mined_on env c snap h h2 \<Longrightarrow> hd_num h2 = hd_num h"
  by (auto simp: mined_on_def intro: hd_num_cong)

lemma mined_alone:
  assumes "mined_on env c snap h h2" "ap_Epoch v = ap_Epoch c" "hd_num h \<noteq> 0" "hd_Time h2 \<le> now" "hd_GasLimit h \<le> MaxGasLimit"
  shows "verify_alone v now h2 = None"
proof -
  have n: "hd_num h2 = hd_num h" "hd_Number h2 \<noteq> 0" using assms(3) mined_num [OF assms(1)] by (auto simp: hd_num_def)
  have l: "length (hd_Extra h2) = extraVanity + extraSeal +
      (if hd_num h mod ap_Epoch c = 0 then AddressLength * length (snap_signers snap) else 0)"
    using assms(1) by (simp add: mined_on_def prepare_extra_length signers_bytes_length)
  have d: "hd_Difficulty h2 = diffInTurn \<or> hd_Difficulty h2 = diffNoTurn"
    using assms(1) by (auto simp: mined_on_def calcDifficulty_def split: if_splits)
  have m: "hd_MixDigest h2 = 0" "hd_GasLimit h2 = hd_GasLimit h" "hd_Coinbase h2 = hd_Coinbase (prepare_vote env c snap h)"
      "hd_Nonce h2 = hd_Nonce (prepare_vote env c snap h)" using assms(1) by (simp_all add: mined_on_def)
  show ?thesis
    using assms(2,4,5) n l d m prepare_vote_checks [where env = env and c = c and snap = snap and h = h] by (auto simp: verify_alone_def Let_def)
qed

lemma mined_checkpoint:
  assumes "mined_on env c snap h h2"
  shows "verify_checkpoint snap h2 (ap_Epoch c) = Some None"
proof (cases "hd_num h mod ap_Epoch c = 0")
  case True
  let ?e = "prepare_extra c snap h" and ?x = "hd_Extra h2"
  obtain w where w: "?e = w @ signers_bytes snap @ replicate extraSeal 0" "length w = extraVanity"
    using True by (auto simp: prepare_extra_def Let_def)
  have l: "length ?x = length ?e" "take (length ?e - extraSeal) ?x = take (length ?e - extraSeal) ?e"
    using assms by (simp_all add: mined_on_def)
  have "take (length ?x - extraSeal - extraVanity) (drop extraVanity ?x) = drop extraVanity (take (length ?e - extraSeal) ?x)"
    unfolding l(1) drop_take ..
  also have "\<dots> = drop extraVanity (take (length ?e - extraSeal) ?e)" unfolding l(2) ..
  also have "\<dots> = signers_bytes snap" using w by simp
  finally show ?thesis using assms w mined_num [OF assms] True by (simp add: verify_checkpoint_def mined_on_def)
next
  case False
  then show ?thesis using mined_num [OF assms] by (simp add: verify_checkpoint_def)
qed

lemma mined_seal:
  assumes "mined_on env c snap h h2" "ps_Number snap + 1 = hd_num h" "hd_num h \<noteq> 0"
    "pv_sigrec env h2 = Some (ap_signer c)" "ap_signer c \<in> ps_Signers snap"
    "\<And>seen. ps_Recents snap seen = Some (ap_signer c) \<Longrightarrow> seen \<le> hd_num h - sign_limit snap"
  shows "verifySeal env v snap h2 = Some None"
proof -
  have e: "ecrecover (pv_sigrec env) h2 = Inl (ap_signer c)"
    using assms(1,4) by (simp add: ecrecover_def mined_on_def prepare_extra_length)
  obtain turn where t: "inturn snap (hd_num h) (ap_signer c) = Some turn" "hd_Difficulty h2 = (if turn then diffInTurn else diffNoTurn)"
    using assms(1,2) by (auto simp: mined_on_def calcDifficulty_def)
  have r: "\<not> (\<exists>seen. ps_Recents snap seen = Some (ap_signer c) \<and> seen > hd_num h - sign_limit snap)"
    using assms(6) by (auto simp: not_less)
  show ?thesis unfolding verifySeal_def Let_def mined_num [OF assms(1)] using assms(3,5) e t r by simp
qed

section \<open>Mined blocks pass verification\<close>

text \<open>Times and periods do not overflow, so the block is not earlier than its parent and the period allow.\<close>

lemma time_ok:
  fixes t p now :: u64
  assumes "unat t + unat p < 2 ^ 64" "unat now + unat p < 2 ^ 64"
  shows "t + p \<le> (if t + p < now then now + p else t + p)"
proof -
  have "unat (now + p) = unat now + unat p" using assms by (simp add: unat_word_ariths)
  then show ?thesis by (auto simp: word_le_nat_alt word_less_nat_alt)
qed

lemma of_nat_pred: "0 < n \<Longrightarrow> of_nat n - 1 = (of_nat (n - 1) :: 'a::len word)"
  by (cases n) simp_all

lemma of_nat_nonzero64: "0 < n \<Longrightarrow> n < 2 ^ 64 \<Longrightarrow> of_nat n \<noteq> (0 :: u64)"
  using unat_of_nat64 [of n] by force

lemma mined_cascading:
  assumes ok: "arc_ok env" "chain_ok env chain bs" "engine_ok env v bs" "length bs \<le> Suc FullImmutabilityThreshold"
    and m: "mined_on env c snap h h2" "history env (ap_Epoch v) bs (length bs - 1) = Inl snap" "ap_Epoch c = ap_Epoch v"
      "hd_ParentHash h = pv_hash env (last bs)" "hd_num h = of_nat (length bs)"
    and t: "hd_Time (last bs) + ap_Period v \<le> hd_Time h2"
    and g: "verify_gas (cr_Config chain) (last bs) h2 = Some None"
    and s: "\<And>v. verifySeal env v snap h2 = Some None"
  shows "\<exists>v'. verifyCascadingFields env chain v h2 [] = Some (v', None)"
proof -
  let ?n = "length bs - 1"
  have bs: "bs \<noteq> []" "length bs < 2 ^ 64" using ok(2) by (simp_all add: chain_ok_def)
  have last: "last bs = bs ! ?n" "?n < length bs" "?n \<le> FullImmutabilityThreshold" using bs ok(4) by (auto simp: last_conv_nth)
  have num: "hd_num h2 = of_nat (length bs)" "hd_num h2 \<noteq> 0" "hd_num h2 - 1 = of_nat ?n"
    using mined_num [OF m(1)] m(5) bs of_nat_pred [of "length bs"] of_nat_nonzero64 [of "length bs"] by simp_all
  obtain v' where v': "snapshot env chain v (of_nat ?n) (pv_hash env (last bs)) [] = Some (v', Inl snap)" "same_config v v'"
    using snapshot_history [OF ok(1-3) last(2,3)] m(2) last(1) by auto
  have p: "cr_GetHeader chain (pv_hash env (last bs)) (ucast (of_nat ?n :: u64)) = HeaderPtr (last bs)"
    "hd_num (last bs) = of_nat ?n" using chain_nth [OF ok(2) last(2)] last(1) by simp_all
  have "hd_ParentHash h2 = pv_hash env (last bs)" using m(1,4) by (simp add: mined_on_def)
  moreover have "verify_checkpoint snap h2 (ap_Epoch v') = Some None"
    using mined_checkpoint [OF m(1)] m(3) v'(2) by (simp add: same_config_def)
  ultimately show ?thesis using num p t g v'(1) s
    by (simp add: verifyCascadingFields_def Let_def not_less)
qed

text \<open>
  C28: what the miner makes, the engines accept. Past the London fork, take a block that the worker
  starts on the last block of a chain the engines can read, that the engine prepares, that the
  execution of its transactions fills in within the gas limit, and that the engine seals with a
  signature that recovers to its signer. Then every engine with the same chain, epoch and period
  verifies it without an error once its time has come, whichever snapshots the two engines have
  cached and stored, as long as these are the history of the chain, and the cache returns only what
  was put there. The chain has at most 90001 blocks, the length up to which no checkpoint is trusted
  blindly; the gas limit of its last block is at least 5000 and below 2 to the power of 61; the new
  base fee fits 256 bits; and neither the time of the last block nor the time of mining overflows when
  the period is added.
\<close>

theorem mined_block_verifies:
  assumes "arc_ok env" "chain_ok env chain bs" "engine_ok env c bs" "engine_ok env v bs"
    "length bs \<le> Suc FullImmutabilityThreshold" "ap_Epoch v = ap_Epoch c" "ap_Period v = ap_Period c"
    and work: "work_header (pv_hash env) (cr_Config chain) ceil mceil (last bs) ts cb = Some h"
    and prep: "Prepare env chain c now h = Some (c1, Inl h1)" "filled h1 h1'"
    and seal: "Seal env chain agg sign c1 txs h1' = Some (c2, Inl h2)" "pv_sigrec env h2 = Some (ap_signer c)"
    and london: "IsLondon (cr_Config chain) (of_nat (length bs))" "CalcBaseFee (cr_Config chain) (last bs) = Some fee" "fee < 2 ^ 256"
    and gas: "5000 \<le> unat (hd_GasLimit (last bs))" "unat (hd_GasLimit (last bs)) < 2 ^ 61"
    and time: "unat (hd_Time (last bs)) + unat (ap_Period c) < 2 ^ 64" "unat now + unat (ap_Period c) < 2 ^ 64" "hd_Time h2 \<le> now'"
  shows "\<exists>v'. verifyHeader env chain v now' h2 [] = Some (v', None)"
proof -
  let ?n = "length bs - 1"
  have bs: "bs \<noteq> []" "length bs < 2 ^ 64" using assms(2) by (simp_all add: chain_ok_def)
  have last: "last bs = bs ! ?n" "?n < length bs" "?n \<le> FullImmutabilityThreshold" using bs assms(5) by (auto simp: last_conv_nth)
  note w = work_header_fields [OF work] and nth = chain_nth [OF assms(2) last(2), folded last(1)]
  have l: "0 < length bs" using bs by simp
  have N: "hd_Number h = of_nat (length bs)" using w(2) nth(1) of_nat_pred [OF l, where ?'a = 256] by (metis diff_add_cancel)
  then have n: "hd_num h = of_nat (length bs)" "hd_num h - 1 = of_nat ?n" "hd_Number h - 1 = of_nat ?n"
    using hd_num_of_nat [OF N bs(2)] of_nat_pred [OF l, where ?'a = 64] of_nat_pred [OF l, where ?'a = 256] by simp_all
  obtain snap snap' parent where m: "snapshot env chain c (hd_num h - 1) (hd_ParentHash h) [] = Some (c1, Inl snap)"
      "snapshot env chain c1 (hd_num h - 1) (hd_ParentHash h) [] = Some (c2, Inl snap')"
      "mined_on env c1 snap h h2" "hd_num h \<noteq> 0" "ap_signer c2 \<in> ps_Signers snap'"
      "\<And>seen. ps_Recents snap' seen = Some (ap_signer c2) \<Longrightarrow> sign_limit snap' \<le> hd_num h \<and> seen \<le> hd_num h - sign_limit snap'"
      "cr_GetHeader chain (hd_ParentHash h) (hd_Number h - 1) = HeaderPtr parent"
      "hd_Time h2 = (if hd_Time parent + ap_Period c1 < now then now + ap_Period c1 else hd_Time parent + ap_Period c1)"
    by (rule mined_header [OF prep seal(1)]) blast
  have hist: "history env (ap_Epoch c) bs ?n = Inl snap" "same_config c c1" "engine_ok env c1 bs"
    using snapshot_history [OF assms(1-3) last(2,3)] m(1) w(1) n(2) last(1) by auto
  have hist': "snap' = snap" "same_config c1 c2"
    using snapshot_history [OF assms(1,2) hist(3) last(2,3)] m(2) w(1) n(2) last(1) hist(1,2) by (auto simp: same_config_def)
  have cfg: "ap_signer c1 = ap_signer c" "ap_signer c2 = ap_signer c" "ap_Epoch c1 = ap_Epoch v" "ap_Period c1 = ap_Period c"
    using hist(2) hist'(2) assms(6) by (simp_all add: same_config_def)
  have "parent = last bs" using m(7) nth(3) ucast_of_nat [of ?n] bs(2) unfolding w(1) n(3) by simp
  then have t: "hd_Time (last bs) + ap_Period v \<le> hd_Time h2"
    using m(8) time_ok [OF time(1,2)] by (simp only: cfg(4) assms(7))
  note g = work_header_gas [OF work london(1) [folded n(1)] gas london(2,3)]
  have mo: "hd_GasLimit h2 = hd_GasLimit h" "hd_BaseFee h2 = hd_BaseFee h" "hd_GasUsed h2 \<le> hd_GasLimit h2"
    using m(3) unfolding mined_on_def by blast+
  have gas: "verify_gas (cr_Config chain) (last bs) h2 = Some None"
    using g mo london(1) n(1) mined_num [OF m(3)] by (simp add: verify_gas_def)
  have num: "ps_Number snap + 1 = hd_num h"
    using history_fields(2) [OF hist(1) assms(2) last(2)] of_nat_pred [OF l, where ?'a = 64] n(1) by (simp add: eq_diff_eq [symmetric])
  have s: "verifySeal env v' snap h2 = Some None" for v'
    by (rule mined_seal [OF m(3) num m(4)]) (use seal(2) m(5,6) hist'(1) cfg in auto)
  have "\<exists>v'. verifyCascadingFields env chain v h2 [] = Some (v', None)"
    by (rule mined_cascading [OF assms(1,2,4,5) m(3) _ cfg(3) w(1) n(1) t gas s]) (use hist(1) assms(6) in simp)
  moreover have "verify_alone v now' h2 = None"
    by (rule mined_alone [OF m(3) cfg(3) [symmetric] m(4) time(3)]) (use g in simp)
  ultimately show ?thesis by (simp add: verifyHeader_def)
qed

section \<open>Blocks before the fork\<close>

text \<open>
  C29: before the London fork no engine accepts what the miner makes. The worker starts every header
  with a base fee of zero instead of none, nothing that follows removes it, and the verification
  rejects any base fee before the fork.
\<close>

theorem mined_before_London_rejected:
  assumes "work_header hash config ceil mceil parent ts cb = Some h" "Prepare env chain c now h = Some (c1, Inl h1)"
    "filled h1 h1'" "Seal env chain agg sign c1 txs h1' = Some (c2, Inl h2)"
    "\<not> IsLondon config (hd_num h)" "cr_Config chain = config"
  shows "verifyHeader env chain v now' h2 parents \<noteq> Some (v', None)"
proof -
  obtain snap where m: "mined_on env c1 snap h h2" "hd_num h \<noteq> 0" using mined_header [OF assms(2-4)] by metis
  have "hd_num h = ucast (hd_Number parent + 1)" using work_header_fields(2) [OF assms(1)] by (simp add: hd_num_def)
  then have "hd_BaseFee h = Some 0"
    using assms(1,5) by (auto simp: work_header_def Let_def hd_num_def split: if_splits option.splits)
  then have b: "hd_BaseFee h2 = Some 0" "hd_num h2 = hd_num h" using m(1) mined_num by (auto simp: mined_on_def)
  have "verify_gas config p h2 \<noteq> Some None" for p using b assms(5) by (simp add: verify_gas_def)
  then show ?thesis using b(2) m(2) assms(6)
    by (auto simp: verifyHeader_def verifyCascadingFields_def Let_def split: option.splits iheader.splits if_splits)
qed

section \<open>Recent signers\<close>

text \<open>
  C30: while the block numbers are below the limit, the seal check accepts a block of a signer who has
  signed recently: the difference it compares with wraps around. Applying the block to the snapshot
  reports that its signer signed recently.
\<close>

theorem recent_signer_passes_seal:
  assumes "hd_num h < sign_limit s" "hd_num h \<noteq> 0" "ecrecover (pv_sigrec env) h = Inl a" "a \<in> ps_Signers s"
    "ps_Recents s k = Some a" "\<forall>k. ps_Recents s k = Some a \<longrightarrow> k \<le> hd_num h"
    "inturn s (hd_num h) a = Some turn" "hd_Difficulty h = (if turn then diffInTurn else diffNoTurn)"
  shows "verifySeal env c s h = Some None \<and> apply_header (pv_sigrec env) h s = Inr errRecentlySigned"
proof -
  have "hd_num h \<le> hd_num h - sign_limit s"
    using assms(1) unsigned_less [of "sign_limit s", where ?'a = nat] by (simp add: word_le_nat_alt word_less_nat_alt unat_diff)
  then have "\<not> (\<exists>seen. ps_Recents s seen = Some a \<and> seen > hd_num h - sign_limit s)"
    using assms(6) by (meson le_less_trans not_less)
  then have "verifySeal env c s h = Some None" using assms(2-4,7,8) by (auto simp: verifySeal_def Let_def)
  moreover have "a \<in> ran (ps_Recents (before_header h s))"
    using assms(1,5) by (auto simp: before_header_def drop_recent_def sign_limit_def ran_def not_le)
  then have "apply_header (pv_sigrec env) h s = Inr errRecentlySigned"
    using assms(3,4) unfolding apply_header_def before_header_def [symmetric] Let_def by simp
  ultimately show ?thesis ..
qed

section \<open>Instances\<close>

text \<open>A chain of a genesis block past the London fork, with one signer, and an engine that holds its key.\<close>

definition london_config :: ChainConfig where
  "london_config = mainnet\<lparr>cc_LondonBlock := Some 0, cc_BeijingBlock := None\<rparr>"

definition demo_genesis :: Header where
  "demo_genesis = full_parent\<lparr>hd_Number := 0, hd_GasUsed := 0,
     hd_Extra := replicate 32 0 @ word_to_bytes 20 (1 :: address) @ replicate 65 0\<rparr>"

definition demo_poa :: poa_env where
  "demo_poa = \<lparr>pv_hash = hd_Number, pv_sigrec = demo_sigrec, pv_arc = (\<lambda>m k v. m(k \<mapsto> v)), pv_choose = (\<lambda>A. 0)\<rparr>"

definition demo_chain :: "ChainConfig \<Rightarrow> ChainHeaderReader" where
  "demo_chain config = \<lparr>cr_Config = config, cr_GetHeader = (\<lambda>h n. if h = 0 then HeaderPtr demo_genesis else NilHeader),
     cr_GetHeaderByNumber = (\<lambda>n. if n = 0 then HeaderPtr demo_genesis else NilHeader)\<rparr>"

definition demo_engine :: APos where
  "demo_engine = Authorize (New 30000 5 Map.empty) 1"

lemma demo_arc: "arc_ok demo_poa"
  by (simp add: arc_ok_def demo_poa_def)

lemma demo_signers: "checkpoint_signers demo_genesis = Some [1]"
  by (simp add: checkpoint_signers_def demo_genesis_def word_to_bytes_def upt_rec bytes_to_u256_def Let_def)

lemma demo_chain_ok: "chain_ok demo_poa (demo_chain config) [demo_genesis]"
  by (simp add: chain_ok_def demo_signers) (simp add: demo_poa_def demo_chain_def demo_genesis_def)

lemma demo_engine_ok: "engine_ok demo_poa demo_engine bs"
  using New_engine_ok [of demo_poa 30000 5 bs] by (simp add: engine_ok_def demo_engine_def Authorize_def loadSnapshot_def New_def)

text \<open>The chain with a second block, in which the signer votes for another one.\<close>

definition two_chain :: ChainHeaderReader where
  "two_chain = \<lparr>cr_Config = mainnet,
     cr_GetHeader = (\<lambda>h n. if h = 0 then HeaderPtr demo_genesis else if h = 1 then HeaderPtr demo_header else NilHeader),
     cr_GetHeaderByNumber = (\<lambda>n. if n = 0 then HeaderPtr demo_genesis else if n = 1 then HeaderPtr demo_header else NilHeader)\<rparr>"

lemma two_chain_ok: "chain_ok demo_poa two_chain [demo_genesis, demo_header]"
  by (simp add: chain_ok_def demo_signers)
    (simp add: demo_poa_def two_chain_def demo_genesis_def demo_header_def less_Suc_eq)

theorem snapshot_is_history_witness:
  "\<exists>c' s. snapshot demo_poa two_chain demo_engine 1 (pv_hash demo_poa demo_header) [] = Some (c', Inl s) \<and>
     history demo_poa 30000 [demo_genesis, demo_header] 1 = Inl s \<and> ps_Signers s = {1, 3}"
proof -
  have e: "ap_Epoch demo_engine = 30000" by (simp add: demo_engine_def Authorize_def New_def)
  have "genesis_snapshot demo_poa 30000 [demo_genesis, demo_header] = demo_snapshot"
    by (simp add: genesis_snapshot_def demo_signers demo_snapshot_def) (simp add: demo_poa_def demo_genesis_def)
  then obtain s where "history demo_poa 30000 [demo_genesis, demo_header] 1 = Inl s" "ps_Signers s = {1, 3}"
    using demo_apply by (auto simp: history_def snap_apply_def contiguous_def demo_facts) (auto simp: demo_poa_def)
  then show ?thesis
    using snapshot_is_history [OF demo_arc two_chain_ok demo_engine_ok, of 1] e by auto
qed




text \<open>Four signers, the first of whom has signed block 1 and signs block 2.\<close>

definition early_snapshot :: Snapshot where
  "early_snapshot = (newSnapshot 30000 1 0 [1, 2, 3, 4])\<lparr>ps_Recents := [1 \<mapsto> 1]\<rparr>"

definition early_header :: Header where
  "early_header = demo_header\<lparr>hd_Number := 2, hd_Difficulty := 1\<rparr>"

theorem recent_signer_passes_seal_witness:
  "verifySeal demo_poa demo_engine early_snapshot early_header = Some None \<and>
   apply_header demo_sigrec early_header early_snapshot = Inr errRecentlySigned"
proof -
  have n: "hd_num early_header = 2" by (simp add: hd_num_def early_header_def)
  have l: "sign_limit early_snapshot = 3" by (simp add: sign_limit_def early_snapshot_def newSnapshot_def card_insert_if)
  have "snap_signers early_snapshot = [1, 2, 3, 4]" by (simp add: snap_signers_def early_snapshot_def newSnapshot_def)
  then have t: "inturn early_snapshot 2 1 = Some False" by (simp add: inturn_def)
  have "ecrecover (pv_sigrec demo_poa) early_header = Inl 1"
    by (simp add: ecrecover_def demo_poa_def demo_sigrec_def early_header_def demo_header_def)
  then have "verifySeal demo_poa demo_engine early_snapshot early_header = Some None \<and>
     apply_header (pv_sigrec demo_poa) early_header early_snapshot = Inr errRecentlySigned"
    by (intro recent_signer_passes_seal [where a = 1 and k = 1 and turn = False])
      (simp_all add: n l t, simp_all add: early_snapshot_def early_header_def newSnapshot_def)
  then show ?thesis by (simp add: demo_poa_def)
qed

text \<open>The block the engine mines on the genesis block.\<close>

lemma demo_snapshot_of:
  assumes "engine_ok demo_poa c [demo_genesis]" "ap_Epoch c = 30000"
  shows "\<exists>c'. snapshot demo_poa (demo_chain config) c 0 0 [] = Some (c', Inl (newSnapshot 30000 0 0 [1])) \<and>
    engine_ok demo_poa c' [demo_genesis] \<and> same_config c c'"
proof -
  have "history demo_poa 30000 [demo_genesis] 0 = Inl (newSnapshot 30000 0 0 [1])" "pv_hash demo_poa demo_genesis = 0"
    by (simp_all add: history_def snap_apply_def genesis_snapshot_def demo_signers) (simp_all add: demo_poa_def demo_genesis_def)
  then show ?thesis using snapshot_history [OF demo_arc demo_chain_ok assms(1), of 0 config] assms(2) by simp
qed

lemma demo_fee: "\<exists>f < 2 ^ 256. CalcBaseFee config demo_genesis = Some f"
  by (simp add: CalcBaseFee_def demo_genesis_def full_parent_def)

lemma demo_work:
  "\<exists>h. work_header (pv_hash demo_poa) config 30000000 30000000 demo_genesis 1 0 = Some h \<and> hd_num h = 1 \<and>
     hd_ParentHash h = 0 \<and> hd_Number h = 1 \<and> hd_GasUsed h = 0"
proof -
  obtain f where "CalcBaseFee config demo_genesis = Some f" using demo_fee by blast
  then show ?thesis by (simp add: work_header_def Let_def hd_num_def) (simp add: demo_poa_def demo_genesis_def)
qed

lemma demo_mined:
  assumes h: "hd_num h = 1" "hd_ParentHash h = 0" "hd_Number h = 1" "hd_GasUsed h = 0" and b: "cc_BeijingBlock config = None"
  shows "\<exists>c1 h1 c2 h2. Prepare demo_poa (demo_chain config) demo_engine 1 h = Some (c1, Inl h1) \<and> filled h1 h1 \<and>
    Seal demo_poa (demo_chain config) (\<lambda>h. None) (\<lambda>a h. Some (replicate 65 1)) c1 0 h1 = Some (c2, Inl h2) \<and> hd_Time h2 \<le> 6"
proof -
  let ?s = "newSnapshot 30000 0 0 [1]"
  have e: "ap_Epoch demo_engine = 30000" "ap_Period demo_engine = 5" "ap_signer demo_engine = 1"
    by (simp_all add: demo_engine_def Authorize_def New_def)
  have d: "calcDifficulty ?s 1 = Some 2" by (simp add: calcDifficulty_def inturn_def snap_signers_def newSnapshot_def)
  obtain c1 where c1: "snapshot demo_poa (demo_chain config) demo_engine 0 0 [] = Some (c1, Inl ?s)"
      "engine_ok demo_poa c1 [demo_genesis]" "same_config demo_engine c1"
    using demo_snapshot_of [OF demo_engine_ok e(1)] by blast
  obtain c2 where c2: "snapshot demo_poa (demo_chain config) c1 0 0 [] = Some (c2, Inl ?s)" "same_config c1 c2"
    using demo_snapshot_of [OF c1(2)] c1(3) e(1) by (auto simp: same_config_def)
  obtain h1 where h1: "Prepare demo_poa (demo_chain config) demo_engine 1 h = Some (c1, Inl h1)"
    using c1(1,3) e d h by (simp add: Prepare_def same_config_def demo_chain_def Let_def)
  obtain parent where p: "cr_GetHeader (demo_chain config) (hd_ParentHash h) (hd_Number h - 1) = HeaderPtr parent"
      "h1 = (prepare_vote demo_poa c1 ?s h)\<lparr>hd_Difficulty := 2, hd_Extra := prepare_extra c1 ?s h, hd_MixDigest := 0,
       hd_Time := (if hd_Time parent + 5 < 1 then 1 + 5 else hd_Time parent + 5)\<rparr>"
    by (rule PrepareE [OF h1]) (use c1 c2 e d h in \<open>auto simp: same_config_def\<close>)
  have t: "hd_Time parent = 0" using p(1) h by (auto simp: demo_chain_def demo_genesis_def full_parent_def)
  have f: "hd_num h1 = 1" "hd_ParentHash h1 = 0" "hd_GasUsed h1 = 0" "hd_Time h1 = 5" "extraSeal \<le> length (hd_Extra h1)"
    using p(2) h t by (simp_all add: hd_num_def prepare_extra_length)
  then have "filled h1 h1" by (simp add: filled_def)
  moreover obtain h2 where "Seal demo_poa (demo_chain config) (\<lambda>h. None) (\<lambda>a h. Some (replicate 65 1)) c1 0 h1 = Some (c2, Inl h2)"
      "hd_Time h2 = 5"
    using c1(3) c2 e f b by (simp add: Seal_def same_config_def newSnapshot_def demo_chain_def isForked_def put_seal_def Let_def)
  ultimately show ?thesis using h1 by auto
qed

theorem mined_block_verifies_witness:
  "\<exists>h c1 h1 c2 h2 v'. work_header (pv_hash demo_poa) london_config 30000000 30000000 demo_genesis 1 0 = Some h \<and>
     Prepare demo_poa (demo_chain london_config) demo_engine 1 h = Some (c1, Inl h1) \<and>
     Seal demo_poa (demo_chain london_config) (\<lambda>h. None) (\<lambda>a h. Some (replicate 65 1)) c1 0 h1 = Some (c2, Inl h2) \<and>
     verifyHeader demo_poa (demo_chain london_config) demo_engine 6 h2 [] = Some (v', None)"
proof -
  let ?ch = "demo_chain london_config"
  have cfg: "cr_Config ?ch = london_config" by (simp add: demo_chain_def)
  obtain h where h: "work_header (pv_hash demo_poa) london_config 30000000 30000000 demo_genesis 1 0 = Some h"
      "hd_num h = 1" "hd_ParentHash h = 0" "hd_Number h = 1" "hd_GasUsed h = 0" using demo_work by blast
  obtain c1 h1 c2 h2 where m: "Prepare demo_poa ?ch demo_engine 1 h = Some (c1, Inl h1)" "filled h1 h1"
      "Seal demo_poa ?ch (\<lambda>h. None) (\<lambda>a h. Some (replicate 65 1)) c1 0 h1 = Some (c2, Inl h2)" "hd_Time h2 \<le> 6"
    using demo_mined [OF h(2-5), of london_config] by (auto simp: london_config_def)
  obtain f where f: "f < 2 ^ 256" "CalcBaseFee london_config demo_genesis = Some f" using demo_fee by blast
  have "IsLondon london_config 1" by (simp add: IsLondon_def isForked_def london_config_def big_Uint64_def)
  then have "\<exists>v'. verifyHeader demo_poa ?ch demo_engine 6 h2 [] = Some (v', None)"
    using h(1) f m(4)
    by (intro mined_block_verifies [OF demo_arc demo_chain_ok demo_engine_ok demo_engine_ok _ _ _ _ m(1-3), where fee = f])
      (simp_all add: cfg, simp_all add: demo_poa_def demo_sigrec_def demo_engine_def Authorize_def New_def demo_genesis_def full_parent_def)
  then show ?thesis using h(1) m by blast
qed

theorem mined_before_London_rejected_witness:
  "\<exists>h c1 h1 c2 h2. work_header (pv_hash demo_poa) (mainnet\<lparr>cc_BeijingBlock := None\<rparr>) 30000000 30000000 demo_genesis 1 0 = Some h \<and>
     Prepare demo_poa (demo_chain (mainnet\<lparr>cc_BeijingBlock := None\<rparr>)) demo_engine 1 h = Some (c1, Inl h1) \<and>
     Seal demo_poa (demo_chain (mainnet\<lparr>cc_BeijingBlock := None\<rparr>)) (\<lambda>h. None) (\<lambda>a h. Some (replicate 65 1)) c1 0 h1 = Some (c2, Inl h2) \<and>
     verifyHeader demo_poa (demo_chain (mainnet\<lparr>cc_BeijingBlock := None\<rparr>)) demo_engine 6 h2 [] \<noteq> Some (demo_engine, None)"
proof -
  let ?cf = "mainnet\<lparr>cc_BeijingBlock := None\<rparr>"
  obtain h where h: "work_header (pv_hash demo_poa) ?cf 30000000 30000000 demo_genesis 1 0 = Some h"
      "hd_num h = 1" "hd_ParentHash h = 0" "hd_Number h = 1" "hd_GasUsed h = 0" using demo_work by blast
  obtain c1 h1 c2 h2 where m: "Prepare demo_poa (demo_chain ?cf) demo_engine 1 h = Some (c1, Inl h1)" "filled h1 h1"
      "Seal demo_poa (demo_chain ?cf) (\<lambda>h. None) (\<lambda>a h. Some (replicate 65 1)) c1 0 h1 = Some (c2, Inl h2)"
    using demo_mined [OF h(2-5), of ?cf] by auto
  have "\<not> IsLondon ?cf (hd_num h)" by (simp add: h(2) IsLondon_def isForked_def mainnet_def big_Uint64_def word_le_nat_alt)
  then show ?thesis using mined_before_London_rejected [OF h(1) m] h(1) m by (auto simp: demo_chain_def)
qed

end
