(* ===== verification/State_Transition.thy ===== *)
theory State_Transition
  imports Evm_Interpreter Fee_Market
begin

text \<open>
  Applying a message to the state (\<^verbatim>\<open>internal/state_transition.go\<close>): the checks, buying gas, intrinsic gas,
  the call or creation, refunds and fees. The transition holds the gas pool of the block, its gas
  and the machine. An error of the transition is the \<open>Inr\<close> of its result; the state reached then is
  returned too, as the caller reverts it. The gas price, the value and the data of a message are
  never nil; the fee cap and the tip may be.
\<close>

section \<open>Messages and errors\<close>

record Message =
  msg_From :: address
  msg_To :: "address option"
  msg_GasPrice :: u256
  msg_FeeCap :: "u256 option"
  msg_Tip :: "u256 option"
  msg_Gas :: u64
  msg_Value :: u256
  msg_Nonce :: u64
  msg_CheckNonce :: bool
  msg_Data :: "byte list"
  msg_AccessList :: "(address \<times> hash list) list"
  msg_IsFree :: bool

datatype tx_error =
    ErrInsufficientFunds
  | ErrGasLimitReached
  | ErrTipAboveFeeCap
  | ErrFeeCapTooLow
  | ErrNonceTooHigh
  | ErrNonceTooLow
  | ErrNonceMax
  | ErrSenderNoEOA
  | ErrTxGasUintOverflow
  | ErrIntrinsicGas

record StateTransition =
  st_gp :: u64
  st_gas :: u64
  st_initialGas :: u64
  st_evm :: EVM

record ExecutionResult =
  er_UsedGas :: u64
  er_Err :: "evm_error option"
  er_ReturnData :: "byte list"

abbreviation st_ibs :: "StateTransition \<Rightarrow> IntraBlockState" where
  "st_ibs st \<equiv> evm_ibs (st_evm st)"

definition st_set :: "StateTransition \<Rightarrow> IntraBlockState \<Rightarrow> StateTransition" where
  "st_set st s = st\<lparr>st_evm := set_ibs (st_evm st) s\<rparr>"

definition er_Return :: "ExecutionResult \<Rightarrow> byte list" where
  "er_Return r = (if er_Err r \<noteq> None then [] else er_ReturnData r)"

definition er_Revert :: "ExecutionResult \<Rightarrow> byte list" where
  "er_Revert r = (if er_Err r \<noteq> Some ErrExecutionReverted then [] else er_ReturnData r)"

section \<open>Intrinsic gas\<close>

definition toWordSize :: "u64 \<Rightarrow> u64" where
  "toWordSize sz = (if sz > 0xFFFFFFFFFFFFFFFF - 31 then 0xFFFFFFFFFFFFFFFF div 32 + 1 else (sz + 31) div 32)"

definition IntrinsicGas ::
  "byte list \<Rightarrow> (address \<times> hash list) list \<Rightarrow> bool \<Rightarrow> bool \<Rightarrow> bool \<Rightarrow> bool \<Rightarrow> (u64, tx_error) sum" where
  "IntrinsicGas data accessList isContractCreation isHomestead isEIP2028 isEIP3860 =
     (let gas = (if isContractCreation \<and> isHomestead then 53000 else 21000);
          dataLen = of_nat (length data);
          nz = of_nat (length (filter (\<lambda>b. b \<noteq> 0) data));
          nonZeroGas = (if isEIP2028 then 16 else 68);
          lists = (\<lambda>gas. gas + of_nat (length accessList) * 2400 + of_nat (sum_list (map (length \<circ> snd) accessList)) * 1900)
      in if dataLen > 0 then
           if (0xFFFFFFFFFFFFFFFF - gas) div nonZeroGas < nz then Inr ErrTxGasUintOverflow
           else (let gas = gas + nz * nonZeroGas; z = dataLen - nz in
             if (0xFFFFFFFFFFFFFFFF - gas) div 4 < z then Inr ErrTxGasUintOverflow
             else (let gas = gas + z * 4 in
               if isContractCreation \<and> isEIP3860 then
                 (let lenWords = toWordSize dataLen in
                  if (0xFFFFFFFFFFFFFFFF - gas) div 2 < lenWords then Inr ErrTxGasUintOverflow
                  else Inl (lists (gas + lenWords * 2)))
               else Inl (lists gas)))
         else Inl (lists gas))"

section \<open>Buying gas\<close>

definition MulOverflow :: "u256 \<Rightarrow> u256 \<Rightarrow> u256 \<times> bool" where
  "MulOverflow x y = (x * y, uint x * uint y \<ge> 2 ^ 256)"

definition AddOverflow :: "u256 \<Rightarrow> u256 \<Rightarrow> u256 \<times> bool" where
  "AddOverflow x y = (x + y, uint x + uint y \<ge> 2 ^ 256)"

text \<open>What the sender must have; \<open>None\<close> when the amount does not fit into 256 bits.\<close>

definition balance_check :: "Message \<Rightarrow> u256 \<Rightarrow> u256 option" where
  "balance_check msg mgval =
     (case msg_FeeCap msg of None \<Rightarrow> Some mgval
      | Some gasFeeCap \<Rightarrow>
          (let (c, overflow) = MulOverflow (ucast (msg_Gas msg)) gasFeeCap in
           if overflow then None
           else (let (c, overflow) = AddOverflow c (msg_Value msg) in if overflow then None else Some c)))"

definition buyGas :: "Message \<Rightarrow> bool \<Rightarrow> StateTransition \<Rightarrow> tx_error option \<times> StateTransition" where
  "buyGas msg gasBailout st =
     (let (mgval, overflow) = MulOverflow (ucast (msg_Gas msg)) (msg_GasPrice msg) in
      if overflow then (Some ErrInsufficientFunds, st)
      else case balance_check msg mgval of None \<Rightarrow> (Some ErrInsufficientFunds, st)
      | Some want \<Rightarrow>
          (let (have, s) = GetBalance (st_ibs st) (msg_From msg); st = st_set st s; subBalance = (\<not> have < want) in
           if \<not> subBalance \<and> \<not> gasBailout then (Some ErrInsufficientFunds, st)
           else if SubGas (st_gp st) (msg_Gas msg) = None \<and> \<not> gasBailout then (Some ErrGasLimitReached, st)
           else (let st = st\<lparr>st_gp := (case SubGas (st_gp st) (msg_Gas msg) of None \<Rightarrow> st_gp st | Some gp \<Rightarrow> gp),
                             st_gas := st_gas st + msg_Gas msg, st_initialGas := msg_Gas msg\<rparr>
                 in (None, if subBalance then st_set st (SubBalance (st_ibs st) (msg_From msg) mgval) else st))))"

definition CheckEip1559TxGasFeeCap :: "u256 \<Rightarrow> u256 \<Rightarrow> u256 option \<Rightarrow> bool \<Rightarrow> tx_error option" where
  "CheckEip1559TxGasFeeCap gasFeeCap tip baseFee isFree =
     (if gasFeeCap < tip then Some ErrTipAboveFeeCap
      else case baseFee of None \<Rightarrow> None
      | Some b \<Rightarrow> if gasFeeCap < b \<and> \<not> isFree then Some ErrFeeCapTooLow else None)"

definition check_nonce :: "Message \<Rightarrow> StateTransition \<Rightarrow> tx_error option \<times> StateTransition" where
  "check_nonce msg st =
     (if \<not> msg_CheckNonce msg then (None, st)
      else (let (stNonce, s) = GetNonce (st_ibs st) (msg_From msg); st = st_set st s in
            if stNonce < msg_Nonce msg then (Some ErrNonceTooHigh, st)
            else if stNonce > msg_Nonce msg then (Some ErrNonceTooLow, st)
            else if stNonce + 1 < stNonce then (Some ErrNonceMax, st)
            else (let (codeHash, s) = GetCodeHash (st_ibs st) (msg_From msg); st = st_set st s in
                  if codeHash \<noteq> evm_keccak (st_evm st) [] \<and> codeHash \<noteq> 0 then (Some ErrSenderNoEOA, st) else (None, st))))"

text \<open>Past the London fork the fee cap and the tip are read, and a nil one panics.\<close>

definition check_fees :: "Env \<Rightarrow> Message \<Rightarrow> tx_error option option" where
  "check_fees env msg =
     (if \<not> rl_IsLondon (env_rules env) then Some None
      else case (msg_FeeCap msg, msg_Tip msg) of
        (Some gasFeeCap, Some tip) \<Rightarrow>
          Some (if \<not> cfg_NoBaseFee (env_config env) \<or> gasFeeCap \<noteq> 0 \<or> tip \<noteq> 0
                then CheckEip1559TxGasFeeCap gasFeeCap tip (bc_BaseFee (env_context env)) (msg_IsFree msg) else None)
      | _ \<Rightarrow> None)"

definition preCheck :: "Env \<Rightarrow> Message \<Rightarrow> bool \<Rightarrow> StateTransition \<Rightarrow> (tx_error option \<times> StateTransition) option" where
  "preCheck env msg gasBailout st =
     (case check_nonce msg st of (Some err, st) \<Rightarrow> Some (Some err, st)
      | (None, st) \<Rightarrow>
          (case check_fees env msg of None \<Rightarrow> None
           | Some (Some err) \<Rightarrow> Some (Some err, st)
           | Some None \<Rightarrow> Some (buyGas msg gasBailout st)))"

section \<open>The transition\<close>

definition gasUsed :: "StateTransition \<Rightarrow> u64" where
  "gasUsed st = st_initialGas st - st_gas st"

text \<open>Returning the gas to the pool panics when the pool would overflow.\<close>

definition refundGas :: "Message \<Rightarrow> u64 \<Rightarrow> StateTransition \<Rightarrow> StateTransition option" where
  "refundGas msg refundQuotient st =
     (let refund = min (gasUsed st div refundQuotient) (GetRefund (st_ibs st));
          st = st\<lparr>st_gas := st_gas st + refund\<rparr>;
          remaining = ucast (st_gas st) * msg_GasPrice msg;
          st = st_set st (AddBalance (st_ibs st) (msg_From msg) remaining)
      in map_option (\<lambda>gp. st\<lparr>st_gp := gp\<rparr>) (AddGas (st_gp st) (st_gas st)))"

text \<open>The addresses are listed in no particular order; all sets of contracts but two have nine.\<close>

definition ActivePrecompiles :: "Rules \<Rightarrow> address list" where
  "ActivePrecompiles rules =
     (if rl_IsMoran rules \<or> rl_IsNano rules \<or> rl_IsBerlin rules \<or> rl_IsIstanbul rules then [1, 2, 3, 4, 5, 6, 7, 8, 9]
      else if rl_IsByzantium rules then [1, 2, 3, 4, 5, 6, 7, 8]
      else [1, 2, 3, 4])"

definition prepare_lists :: "Env \<Rightarrow> Message \<Rightarrow> StateTransition \<Rightarrow> StateTransition option" where
  "prepare_lists env msg st =
     (if \<not> rl_IsBerlin (env_rules env) then Some st
      else map_option (\<lambda>s. st_set st (if rl_IsShanghai (env_rules env)
              then AddAddressToAccessList s (bc_Coinbase (env_context env)) else s))
        (PrepareAccessList (st_ibs st) (msg_From msg) (msg_To msg) (ActivePrecompiles (env_rules env)) (msg_AccessList msg)))"

definition exec_message ::
  "Env \<Rightarrow> run_fn \<Rightarrow> Message \<Rightarrow> bool \<Rightarrow> StateTransition \<Rightarrow> ((byte list \<times> evm_error option) \<times> StateTransition) res" where
  "exec_message env run msg bailout st =
     (let sender = AccountRef (msg_From msg) in
      case msg_To msg of
        None \<Rightarrow> res_bind (Create env run sender (msg_Data msg) (st_gas st) (msg_Value msg) (st_evm st))
          (\<lambda>((ret, _, gas, err), vm). Ret ((ret, err), st\<lparr>st_gas := gas, st_evm := vm\<rparr>))
      | Some to \<Rightarrow>
          (let (nonce, s) = GetNonce (st_ibs st) (msg_From msg);
               st = st_set st (SetNonce s (msg_From msg) (nonce + 1))
           in res_bind (Call env run sender to (msg_Data msg) (st_gas st) (msg_Value msg) bailout (st_evm st))
             (\<lambda>((ret, gas, err), vm). Ret ((ret, err), st\<lparr>st_gas := gas, st_evm := vm\<rparr>))))"

text \<open>The price per gas the producer of the block gets; past the fork a nil base fee panics.\<close>

definition effective_tip :: "Env \<Rightarrow> Message \<Rightarrow> u256 option" where
  "effective_tip env msg =
     (if \<not> rl_IsLondon (env_rules env) then Some (msg_GasPrice msg)
      else case (msg_FeeCap msg, msg_Tip msg, bc_BaseFee (env_context env)) of
        (Some gasFeeCap, Some tip, Some baseFee) \<Rightarrow>
          Some (if gasFeeCap > baseFee then min tip (gasFeeCap - baseFee) else 0)
      | _ \<Rightarrow> None)"

abbreviation SystemAddress :: address where "SystemAddress \<equiv> 0xfffffffffffffffffffffffffffffffffffffffe"

definition pay_fees :: "ChainConfig \<Rightarrow> Env \<Rightarrow> Message \<Rightarrow> StateTransition \<Rightarrow> StateTransition option" where
  "pay_fees cc env msg st =
     (case effective_tip env msg of None \<Rightarrow> None
      | Some tip \<Rightarrow>
          (let amount = ucast (gasUsed st) * tip;
               producer = (if cc_Parlia cc then SystemAddress else bc_Coinbase (env_context env));
               st = st_set st (AddBalance (st_ibs st) producer amount)
           in if \<not> msg_IsFree msg \<and> rl_IsLondon (env_rules env) \<and> rl_IsEip1559FeeCollector (env_rules env) then
                (case (cc_Eip1559FeeCollector cc, bc_BaseFee (env_context env)) of
                   (Some collector, Some baseFee) \<Rightarrow>
                     Some (st_set st (AddBalance (st_ibs st) collector (ucast (gasUsed st) * baseFee)))
                 | _ \<Rightarrow> None)
              else Some st))"

definition intrinsic :: "Env \<Rightarrow> Message \<Rightarrow> StateTransition \<Rightarrow> tx_error option \<times> StateTransition" where
  "intrinsic env msg st =
     (let rules = env_rules env in
      case IntrinsicGas (msg_Data msg) (msg_AccessList msg) (msg_To msg = None) (rl_IsHomestead rules)
             (rl_IsIstanbul rules) (rl_IsShanghai rules) of
        Inr err \<Rightarrow> (Some err, st)
      | Inl gas \<Rightarrow> if st_gas st < gas then (Some ErrIntrinsicGas, st) else (None, st\<lparr>st_gas := st_gas st - gas\<rparr>))"

definition TransitionDb ::
  "ChainConfig \<Rightarrow> Env \<Rightarrow> run_fn \<Rightarrow> Message \<Rightarrow> bool \<Rightarrow> bool \<Rightarrow> StateTransition \<Rightarrow>
     ((ExecutionResult, tx_error) sum \<times> StateTransition) res" where
  "TransitionDb cc env run msg refunds gasBailout st =
     (let gasBailout = (gasBailout \<or> cc_Parlia cc); rules = env_rules env in
      res_bind (or_panic (preCheck env msg gasBailout st)) (\<lambda>(err, st).
      case err of Some e \<Rightarrow> Ret (Inr e, st)
      | None \<Rightarrow>
     (case intrinsic env msg st of (Some e, st) \<Rightarrow> Ret (Inr e, st)
      | (None, st) \<Rightarrow>
     (let (can, s) = (if gasBailout \<and> msg_Value msg \<noteq> 0
                      then bc_CanTransfer (env_context env) (st_ibs st) (msg_From msg) (msg_Value msg)
                      else (True, st_ibs st));
          st = st_set st s
      in res_bind (or_panic (prepare_lists env msg st)) (\<lambda>st.
         res_bind (exec_message env run msg (\<not> can) st) (\<lambda>((ret, vmerr), st).
         res_bind (or_panic (if refunds then refundGas msg (if rl_IsLondon rules then 5 else 2) st else Some st)) (\<lambda>st.
         res_bind (or_panic (pay_fees cc env msg st)) (\<lambda>st.
           Ret (Inl \<lparr>er_UsedGas = gasUsed st, er_Err = vmerr, er_ReturnData = ret\<rparr>, st)))))))))"

definition NewStateTransition :: "u64 \<Rightarrow> EVM \<Rightarrow> StateTransition" where
  "NewStateTransition gp vm = \<lparr>st_gp = gp, st_gas = 0, st_initialGas = 0, st_evm = vm\<rparr>"

definition ApplyMessage ::
  "ChainConfig \<Rightarrow> Env \<Rightarrow> run_fn \<Rightarrow> Message \<Rightarrow> u64 \<Rightarrow> bool \<Rightarrow> bool \<Rightarrow> EVM \<Rightarrow>
     ((ExecutionResult, tx_error) sum \<times> StateTransition) res" where
  "ApplyMessage cc env run msg gp refunds gasBailout vm =
     TransitionDb cc env run msg refunds gasBailout (NewStateTransition gp vm)"

end
