(* ===== verification/Transition_Props.thy ===== *)
theory Transition_Props
  imports State_Transition Config_Props
begin

text \<open>
  Messages: the gas they use is within what they bought and exactly what the gas pool of the block
  loses, they use at least their intrinsic gas less the refund allowed, and applying one always ends.
\<close>

section \<open>Intrinsic gas\<close>

text \<open>The price of the data of a message, and of the message with its access list, as unbounded numbers.\<close>

definition data_price :: "byte list \<Rightarrow> bool \<Rightarrow> bool \<Rightarrow> bool \<Rightarrow> bool \<Rightarrow> nat" where
  "data_price data creation homestead eip2028 eip3860 =
     (if creation \<and> homestead then 53000 else 21000) +
     length (filter (\<lambda>b. b \<noteq> 0) data) * (if eip2028 then 16 else 68) + length (filter (\<lambda>b. b = 0) data) * 4 +
     (if creation \<and> eip3860 then (length data + 31) div 32 * 2 else 0)"

definition list_price :: "(address \<times> hash list) list \<Rightarrow> nat" where
  "list_price al = length al * 2400 + sum_list (map (length \<circ> snd) al) * 1900"

text \<open>The test before an addition: it fails exactly when the sum does not fit.\<close>

lemma price_step:
  fixes g n k :: u64
  assumes "0 < k"
  shows "(0xFFFFFFFFFFFFFFFF - g) div k < n \<longleftrightarrow> 2 ^ 64 \<le> unat g + unat n * unat k"
    "\<not> (0xFFFFFFFFFFFFFFFF - g) div k < n \<Longrightarrow> unat (g + n * k) = unat g + unat n * unat k"
proof -
  have k: "0 < unat k" using assms by (simp add: word_less_nat_alt)
  have "unat (0xFFFFFFFFFFFFFFFF - g) = 2 ^ 64 - 1 - unat g"
    using unsigned_less [of g, where ?'a = nat] by (simp add: unat_sub_if')
  then show iff: "(0xFFFFFFFFFFFFFFFF - g) div k < n \<longleftrightarrow> 2 ^ 64 \<le> unat g + unat n * unat k"
    using unsigned_less [of g, where ?'a = nat] k
    by (auto simp: word_less_nat_alt unat_div div_less_iff_less_mult)
  show "unat (g + n * k) = unat g + unat n * unat k" if "\<not> (0xFFFFFFFFFFFFFFFF - g) div k < n"
    using that unfolding iff by (simp add: unat_word_ariths)
qed

lemma toWordSize_unat: "length xs + 31 < 2 ^ 64 \<Longrightarrow> unat (toWordSize (of_nat (length xs))) = (length xs + 31) div 32"
  by (simp add: toWordSize_def word_less_nat_alt unsigned_of_nat take_bit_nat_eq_self unat_div unat_word_ariths)

lemma IntrinsicGas_price:
  assumes "length data + 31 < 2 ^ 64"
  shows "IntrinsicGas data al creation homestead eip2028 eip3860 =
    (if data_price data creation homestead eip2028 eip3860 < 2 ^ 64
     then Inl (of_nat (data_price data creation homestead eip2028 eip3860 + list_price al)) else Inr ErrTxGasUintOverflow)"
proof -
  define g0 nzg :: u64 where "g0 = (if creation \<and> homestead then 53000 else 21000)" and "nzg = (if eip2028 then 16 else 68)"
  define nz z :: u64 where "nz = of_nat (length (filter (\<lambda>b. b \<noteq> 0) data))" and "z = of_nat (length data) - nz"
  define w where "w = (if creation \<and> eip3860 then toWordSize (of_nat (length data)) else 0)"
  define lists where "lists = (\<lambda>gas :: u64. gas + of_nat (length al) * 2400 + of_nat (sum_list (map (length \<circ> snd) al)) * 1900)"
  have sum: "length (filter (\<lambda>b. b \<noteq> 0) data) + length (filter (\<lambda>b. b = 0) data) = length data"
    using sum_length_filter_compl [of "\<lambda>b. b \<noteq> 0" data] by simp
  have k: "unat nzg = (if eip2028 then 16 else 68)" "0 < nzg" "unat g0 = (if creation \<and> homestead then 53000 else 21000)"
    by (simp_all add: nzg_def g0_def)
  have l: "unat (of_nat (length data) :: u64) = length data" using assms by (simp add: unsigned_of_nat take_bit_nat_eq_self)
  have n: "unat nz = length (filter (\<lambda>b. b \<noteq> 0) data)" using assms sum by (simp add: nz_def unsigned_of_nat take_bit_nat_eq_self)
  have z: "unat z = length (filter (\<lambda>b. b = 0) data)" using l n sum by (simp add: z_def unat_sub_if')
  have w: "unat w = (if creation \<and> eip3860 then (length data + 31) div 32 else 0)"
    using toWordSize_unat [OF assms] by (simp add: w_def)
  have price: "data_price data creation homestead eip2028 eip3860 = unat g0 + unat nz * unat nzg + unat z * 4 + unat w * 2"
    unfolding data_price_def n z w k by simp
  have lists: "lists g = of_nat (unat g + list_price al)" for g by (simp add: lists_def list_price_def)
  have def: "IntrinsicGas data al creation homestead eip2028 eip3860 =
     (if data = [] then Inl (lists g0)
      else if (0xFFFFFFFFFFFFFFFF - g0) div nzg < nz \<or> (0xFFFFFFFFFFFFFFFF - (g0 + nz * nzg)) div 4 < z \<or>
        (0xFFFFFFFFFFFFFFFF - (g0 + nz * nzg + z * 4)) div 2 < w then Inr ErrTxGasUintOverflow
      else Inl (lists (g0 + nz * nzg + z * 4 + w * 2)))"
  proof -
    have ne: "0 < (of_nat (length data) :: u64) \<longleftrightarrow> data \<noteq> []" using l by (simp add: word_less_nat_alt)
    show ?thesis unfolding IntrinsicGas_def Let_def g0_def [symmetric] nzg_def [symmetric] nz_def [symmetric]
        z_def [symmetric] lists_def [symmetric] ne
      by (cases "creation \<and> eip3860") (auto simp: w_def)
  qed
  show ?thesis
  proof (cases "data = []")
    case True
    then show ?thesis unfolding def price using n z w k(3) by (simp add: lists)
  next
    case False
    note s1 = price_step [OF k(2), of g0 nz] and s2 = price_step [of 4 "g0 + nz * nzg" z]
      and s3 = price_step [of 2 "g0 + nz * nzg + z * 4" w]
    show ?thesis unfolding def price using False s1 s2 s3 by (auto simp: lists)
  qed
qed

section \<open>The numbers of a transition\<close>

text \<open>Pool, gas and bought gas; the other steps leave them alone.\<close>

abbreviation st_nums :: "StateTransition \<Rightarrow> u64 \<times> u64 \<times> u64" where
  "st_nums st \<equiv> (st_gp st, st_gas st, st_initialGas st)"

lemma st_set_nums [simp]: "st_gp (st_set st s) = st_gp st" "st_gas (st_set st s) = st_gas st" "st_initialGas (st_set st s) = st_initialGas st"
  by (simp_all add: st_set_def)

lemma check_nonce_nums: "check_nonce msg st = (e, st') \<Longrightarrow> st_nums st' = st_nums st"
  by (auto simp: check_nonce_def Let_def split: if_splits prod.splits)

lemma buyGas_nums:
  assumes "buyGas msg False st = (None, st')"
  shows "msg_Gas msg \<le> st_gp st \<and> st_gp st' = st_gp st - msg_Gas msg \<and> st_gas st' = st_gas st + msg_Gas msg \<and>
    st_initialGas st' = msg_Gas msg"
  using assms by (auto simp: buyGas_def Let_def SubGas_def split: if_splits prod.splits option.splits)

lemma preCheck_nums:
  assumes "preCheck env msg False st = Some (None, st')"
  shows "msg_Gas msg \<le> st_gp st \<and> st_gp st' = st_gp st - msg_Gas msg \<and> st_gas st' = st_gas st + msg_Gas msg \<and>
    st_initialGas st' = msg_Gas msg"
proof -
  obtain st1 where "check_nonce msg st = (None, st1)" "buyGas msg False st1 = (None, st')"
    using assms by (auto simp: preCheck_def split: prod.splits option.splits)
  then show ?thesis using check_nonce_nums buyGas_nums by fastforce
qed

lemma intrinsic_nums:
  assumes "intrinsic env msg st = (None, st')"
  shows "\<exists>g. IntrinsicGas (msg_Data msg) (msg_AccessList msg) (msg_To msg = None) (rl_IsHomestead (env_rules env))
      (rl_IsIstanbul (env_rules env)) (rl_IsShanghai (env_rules env)) = Inl g \<and>
    g \<le> st_gas st \<and> st_gas st' = st_gas st - g \<and> st_gp st' = st_gp st \<and> st_initialGas st' = st_initialGas st"
  using assms by (auto simp: intrinsic_def Let_def split: if_splits sum.splits)

lemma prepare_lists_nums: "prepare_lists env msg st = Some st' \<Longrightarrow> st_nums st' = st_nums st"
  by (auto simp: prepare_lists_def split: if_splits)

lemma exec_message_gas:
  assumes "good n run"
  shows "gas_back n (st_gas st) (\<lambda>r. st_gas (snd r)) (exec_message env run msg bailout st)"
proof -
  have c: "gas_back n (st_gas st) create_left (Create env run (AccountRef (msg_From msg)) (msg_Data msg) (st_gas st) (msg_Value msg) (st_evm st))"
    by (auto simp: Create_def intro!: evm_create_gas [OF assms] split: prod.split)
  have l: "gas_back n (st_gas st) call_left (Call env run a to (msg_Data msg) (st_gas st) (msg_Value msg) bailout vm)" for a to vm
    unfolding Call_def by (rule evm_call_gas [OF assms])
  show ?thesis unfolding exec_message_def Let_def
    by (auto split: option.split prod.split intro!: gas_back_bind [OF c] gas_back_bind [OF l])
qed

lemma exec_message_nums:
  "exec_message env run msg bailout st = Ret (r, st') \<Longrightarrow> st_gp st' = st_gp st \<and> st_initialGas st' = st_initialGas st"
  by (auto simp: exec_message_def Let_def res_bind_Ret split: option.splits prod.splits)

lemma pay_fees_nums: "pay_fees cc env msg st = Some st' \<Longrightarrow> st_nums st' = st_nums st"
  by (auto simp: pay_fees_def Let_def split: option.splits if_splits)

lemma refundGas_nums:
  assumes "st_gas st \<le> st_initialGas st" "unat (st_gp st) + unat (st_initialGas st) < 2 ^ 64" "0 < q"
  shows "\<exists>st'. refundGas msg q st = Some st' \<and> st_initialGas st' = st_initialGas st \<and> st_gas st' \<le> st_initialGas st \<and>
    unat (st_gp st') = unat (st_gp st) + unat (st_gas st') \<and>
    unat (gasUsed st) - unat (gasUsed st) div unat q \<le> unat (gasUsed st') \<and> unat (gasUsed st') \<le> unat (gasUsed st)"
proof -
  define u r where "u = gasUsed st" and "r = min (u div q) (GetRefund (st_ibs st))"
  have u: "unat u = unat (st_initialGas st) - unat (st_gas st)" using assms(1) by (simp add: u_def gasUsed_def unat_sub)
  have r: "unat r \<le> unat u div unat q" by (simp add: r_def unat_div min_def word_le_nat_alt)
  then have r': "unat r \<le> unat u" using div_le_dividend order_trans by blast
  have g: "unat (st_gas st + r) = unat (st_gas st) + unat r"
    using assms(1,2) u r' by (simp add: unat_word_ariths word_le_nat_alt)
  then have le: "st_gas st + r \<le> st_initialGas st" using assms(1) u r' by (simp add: word_le_nat_alt)
  define st1 where "st1 = st_set (st\<lparr>st_gas := st_gas st + r\<rparr>)
     (AddBalance (st_ibs st) (msg_From msg) (ucast (st_gas st + r) * msg_GasPrice msg))"
  have ok: "\<not> st_gp st > 0xFFFFFFFFFFFFFFFF - (st_gas st + r)"
    using assms(2) le by (simp add: word_less_nat_alt word_le_nat_alt unat_sub_if')
  have ref: "refundGas msg q st = Some (st1\<lparr>st_gp := st_gp st + (st_gas st + r)\<rparr>)"
    using ok by (simp add: refundGas_def Let_def st1_def AddGas_def u_def r_def st_set_def)
  have gp: "unat (st_gp st + (st_gas st + r)) = unat (st_gp st) + unat (st_gas st + r)"
    using assms(2) le by (simp add: unat_word_ariths word_le_nat_alt)
  have "unat (st_initialGas st - (st_gas st + r)) = unat (st_initialGas st) - unat (st_gas st + r)"
    using le by (simp add: unat_sub)
  then show ?thesis using ref gp le u r g by (auto simp: st1_def gasUsed_def u_def)
qed

section \<open>Gas accounting of messages\<close>

lemma TransitionDb_steps:
  assumes "TransitionDb cc env run msg True False st = Ret (Inl r, st')" "\<not> cc_Parlia cc"
  obtains st1 st2 st3 st4 st5 s bail x where "preCheck env msg False st = Some (None, st1)" "intrinsic env msg st1 = (None, st2)"
    "prepare_lists env msg (st_set st2 s) = Some st3" "exec_message env run msg bail st3 = Ret (x, st4)"
    "refundGas msg (if rl_IsLondon (env_rules env) then 5 else 2) st4 = Some st5" "pay_fees cc env msg st5 = Some st'"
    "er_UsedGas r = gasUsed st'"
proof -
  obtain st1 where 1: "preCheck env msg False st = Some (None, st1)"
    using assms by (auto simp: TransitionDb_def Let_def res_bind_Ret split: option.splits)
  obtain st2 where 2: "intrinsic env msg st1 = (None, st2)"
    using assms 1 by (auto simp: TransitionDb_def Let_def split: option.splits prod.splits)
  show thesis using assms 1 2 that [OF 1 2]
    by (auto simp: TransitionDb_def Let_def res_bind_Ret split: prod.splits)
qed

lemma keep_mono: "(g :: nat) \<le> s \<Longrightarrow> g - g div (if b then 5 else 2) \<le> s - s div (if b then 5 else 2)"
  by (cases b; simp; presburger)

lemma message_gas:
  assumes run: "good n run" and cc: "\<not> cc_Parlia cc"
    and ret: "ApplyMessage cc env run msg gp True False vm = Ret (Inl r, st')"
  shows "unat (st_gp st') + unat (er_UsedGas r) = unat gp \<and> er_UsedGas r \<le> msg_Gas msg \<and> msg_Gas msg \<le> gp \<and>
    (\<exists>g. IntrinsicGas (msg_Data msg) (msg_AccessList msg) (msg_To msg = None) (rl_IsHomestead (env_rules env))
        (rl_IsIstanbul (env_rules env)) (rl_IsShanghai (env_rules env)) = Inl g \<and>
      unat g - unat g div (if rl_IsLondon (env_rules env) then 5 else 2) \<le> unat (er_UsedGas r))"
proof (rule TransitionDb_steps [OF ret [unfolded ApplyMessage_def] cc])
  fix st1 st2 st3 st4 st5 s bail x
  let ?q = "if rl_IsLondon (env_rules env) then 5 else 2 :: u64"
  assume p: "preCheck env msg False (NewStateTransition gp vm) = Some (None, st1)" and i: "intrinsic env msg st1 = (None, st2)"
    and l: "prepare_lists env msg (st_set st2 s) = Some st3" and e: "exec_message env run msg bail st3 = Ret (x, st4)"
    and r: "refundGas msg ?q st4 = Some st5" and f: "pay_fees cc env msg st5 = Some st'" and u: "er_UsedGas r = gasUsed st'"
  have n1: "msg_Gas msg \<le> gp" "st_gp st1 = gp - msg_Gas msg" "st_gas st1 = msg_Gas msg" "st_initialGas st1 = msg_Gas msg"
    using preCheck_nums [OF p] by (simp_all add: NewStateTransition_def)
  obtain g where g: "IntrinsicGas (msg_Data msg) (msg_AccessList msg) (msg_To msg = None) (rl_IsHomestead (env_rules env))
        (rl_IsIstanbul (env_rules env)) (rl_IsShanghai (env_rules env)) = Inl g"
      "g \<le> msg_Gas msg" "st_gas st2 = msg_Gas msg - g" "st_gp st2 = st_gp st1" "st_initialGas st2 = msg_Gas msg"
    using intrinsic_nums [OF i] n1 by auto
  have n3: "st_gas st3 = msg_Gas msg - g" "st_gp st3 = st_gp st1" "st_initialGas st3 = msg_Gas msg"
    using prepare_lists_nums [OF l] g by auto
  have n4: "unat (st_gas st4) \<le> unat (msg_Gas msg - g)" "st_gp st4 = st_gp st1" "st_initialGas st4 = msg_Gas msg"
    using exec_message_gas [OF run, of st3 env msg bail] e exec_message_nums [OF e] n3 by (auto simp: gas_back_def)
  have mg: "unat (msg_Gas msg - g) = unat (msg_Gas msg) - unat g" using g(2) by (simp add: unat_sub)
  have gp: "unat (st_gp st1) + unat (msg_Gas msg) = unat gp" using n1 by (simp add: unat_sub word_le_nat_alt)
  have "st_gas st4 \<le> st_initialGas st4" "unat (st_gp st4) + unat (st_initialGas st4) < 2 ^ 64"
    using n4 mg gp unsigned_less [of gp, where ?'a = nat] by (simp_all add: word_le_nat_alt)
  then have n5: "st_initialGas st5 = msg_Gas msg" "st_gas st5 \<le> msg_Gas msg" "unat (st_gp st5) = unat (st_gp st1) + unat (st_gas st5)"
      "unat (gasUsed st4) - unat (gasUsed st4) div unat ?q \<le> unat (gasUsed st5)"
    using refundGas_nums [of st4 ?q msg] r n4 by auto
  have n6: "gasUsed st' = gasUsed st5" "st_gp st' = st_gp st5" using pay_fees_nums [OF f] by (simp_all add: gasUsed_def)
  have u5: "unat (gasUsed st5) = unat (msg_Gas msg) - unat (st_gas st5)" using n5(1,2) by (simp add: gasUsed_def unat_sub)
  have "unat g \<le> unat (gasUsed st4)" using n4 mg g(2) by (simp add: gasUsed_def unat_sub word_le_nat_alt)
  then have "unat g - unat g div (if rl_IsLondon (env_rules env) then 5 else 2) \<le> unat (gasUsed st5)"
    using keep_mono [of "unat g" "unat (gasUsed st4)" "rl_IsLondon (env_rules env)"] n5(4) by (simp split: if_splits)
  moreover have "unat (st_gp st') + unat (gasUsed st5) = unat gp" "gasUsed st5 \<le> msg_Gas msg"
    using n5 n6 u5 gp by (simp_all add: word_le_nat_alt)
  ultimately show ?thesis using g(1) n1(1) u n6 by simp
qed

section \<open>Messages end\<close>

text \<open>Whatever is waived, a message starts with the gas it asks for.\<close>

lemma preCheck_gas:
  assumes "preCheck env msg bail st = Some (None, st')"
  shows "st_gas st' = st_gas st + msg_Gas msg"
proof -
  obtain st1 where "check_nonce msg st = (None, st1)" "buyGas msg bail st1 = (None, st')"
    using assms by (auto simp: preCheck_def split: prod.splits option.splits)
  then show ?thesis using check_nonce_nums [of msg st None st1]
    by (auto simp: buyGas_def Let_def split: if_splits prod.splits option.splits)
qed

lemma TransitionDb_ends:
  assumes run: "good n run" and gas: "unat (st_gas st + msg_Gas msg) < n"
  shows "TransitionDb cc env run msg refunds bail st \<noteq> NoFuel"
proof -
  have e: "exec_message env run msg b st3 \<noteq> NoFuel" if "unat (st_gas st3) < n" for b st3
    using exec_message_gas [OF run, of st3 env msg b] that by (simp add: gas_back_def)
  have n: "unat (st_gas st3) < n" if steps: "preCheck env msg b st = Some (None, st1)" "intrinsic env msg st1 = (None, st2)"
    "prepare_lists env msg (st_set st2 s) = Some st3" for b st1 st2 st3 s
  proof -
    obtain g where "g \<le> st_gas st1" "st_gas st3 = st_gas st1 - g"
      using intrinsic_nums [OF steps(2)] prepare_lists_nums [OF steps(3)] by auto
    then show ?thesis using preCheck_gas [OF steps(1)] gas by (simp add: unat_sub)
  qed
  show ?thesis
    by (auto simp: TransitionDb_def Let_def res_bind_NoFuel res_bind_Ret intro!: e n
      split: option.splits prod.splits if_splits)
qed

section \<open>Instances\<close>

text \<open>A message without gas price to a contract of the node that copies its input for free.\<close>

definition demo_message :: Message where
  "demo_message = \<lparr>msg_From = 9, msg_To = Some 4, msg_GasPrice = 0, msg_FeeCap = None, msg_Tip = None, msg_Gas = 25000,
     msg_Value = 0, msg_Nonce = 0, msg_CheckNonce = False, msg_Data = [], msg_AccessList = [], msg_IsFree = False\<rparr>"

definition copy_env :: Env where
  "copy_env = old_env\<lparr>env_precompile := (\<lambda>a. Some \<lparr>pre_RequiredGas = (\<lambda>input. 0), pre_Run = (\<lambda>input. (input, None))\<rparr>)\<rparr>"

lemma demo_preCheck: "\<exists>st. preCheck copy_env demo_message False (NewStateTransition 30000 demo_vm) = Some (None, st)"
  by (auto simp: preCheck_def check_nonce_def check_fees_def buyGas_def MulOverflow_def balance_check_def SubGas_def
    NewStateTransition_def demo_message_def copy_env_def old_env_def frontier_rules_def Let_def split: prod.split)

lemma demo_exec: "\<exists>x st'. exec_message copy_env run demo_message b st = Ret (x, st')"
proof -
  obtain nonce s where n: "GetNonce (st_ibs st) 9 = (nonce, s)" by fastforce
  let ?st = "st_set st (SetNonce s 9 (nonce + 1))"
  have "\<exists>ret gas err vm'. Call copy_env run (AccountRef 9) 4 [] (st_gas ?st) 0 b (st_evm ?st) = Ret ((ret, gas, err), vm')"
    by (auto simp: Call_def evm_call_def call_funds_def call_accounts_def call_body_def RunPrecompiledContract_def
      call_settle_def copy_env_def old_env_def demo_env_def demo_config_def Let_def split: prod.split)
  then show ?thesis using n by (auto simp: exec_message_def demo_message_def Let_def)
qed

lemma demo_message_applies:
  assumes "good n run"
  shows "\<exists>r st. ApplyMessage mainnet copy_env run demo_message 30000 True False demo_vm = Ret (Inl r, st)"
proof -
  obtain st1 where 1: "preCheck copy_env demo_message False (NewStateTransition 30000 demo_vm) = Some (None, st1)"
    using demo_preCheck by blast
  have n1: "st_gas st1 = 25000" "st_initialGas st1 = 25000" "st_gp st1 = 5000"
    using preCheck_nums [OF 1] by (simp_all add: NewStateTransition_def demo_message_def)
  let ?st2 = "st1\<lparr>st_gas := 4000\<rparr>"
  have 2: "intrinsic copy_env demo_message st1 = (None, ?st2)"
    using n1 by (simp add: intrinsic_def IntrinsicGas_def demo_message_def copy_env_def old_env_def frontier_rules_def Let_def)
  have 3: "prepare_lists copy_env demo_message st = Some st" for st
    by (simp add: prepare_lists_def copy_env_def old_env_def frontier_rules_def)
  obtain ret err st4 where 4: "exec_message copy_env run demo_message False (st_set ?st2 (st_ibs ?st2)) = Ret ((ret, err), st4)"
    using demo_exec [of run False "st_set ?st2 (st_ibs ?st2)"] by auto
  have n4: "unat (st_gas st4) \<le> 4000" "st_gp st4 = 5000" "st_initialGas st4 = 25000"
    using exec_message_gas [OF assms, of "st_set ?st2 (st_ibs ?st2)" copy_env demo_message False] exec_message_nums [OF 4] 4 n1
    by (simp_all add: gas_back_def)
  obtain st5 where 5: "refundGas demo_message 2 st4 = Some st5"
    using refundGas_nums [of st4 2 demo_message] n4 by (auto simp: word_le_nat_alt)
  have 6: "\<exists>st6. pay_fees mainnet copy_env demo_message st5 = Some st6"
    by (simp add: pay_fees_def effective_tip_def copy_env_def old_env_def frontier_rules_def Let_def)
  have r: "msg_Value demo_message = 0" "\<not> cc_Parlia mainnet" "\<not> rl_IsLondon (env_rules copy_env)"
    by (simp_all add: demo_message_def mainnet_def copy_env_def old_env_def frontier_rules_def)
  show ?thesis using 1 2 3 4 5 6 r
    by (auto simp: ApplyMessage_def TransitionDb_def Let_def)
qed

section \<open>Properties\<close>

lemma copy_fits: "rules_fit (env_rules copy_env)" "cfg_ExtraEips (env_config copy_env) = []"
  using old_fits by (simp_all add: copy_env_def)

text \<open>
  C31: on a chain whose forks come in order, with no extra EIPs configured and not of the Parlia kind,
  applying a message with refunds and no waiver keeps the gas of the block in balance. The pool loses
  exactly the gas the message is charged, that is at most the gas it asked for, which the pool had,
  and at least the intrinsic gas less the share that may be refunded: a half, after London a fifth.
\<close>

theorem message_gas_accounting:
  assumes "rules_fit (env_rules env)" "cfg_ExtraEips (env_config env) = []"
    and "NewEVMInterpreter (env_rules env) (env_config env) = Some (jt, eips)" "\<not> cc_Parlia cc"
    and "ApplyMessage cc env (Run fuel env jt) msg gp True False vm = Ret (Inl r, st')"
  shows "unat (st_gp st') + unat (er_UsedGas r) = unat gp \<and> er_UsedGas r \<le> msg_Gas msg \<and> msg_Gas msg \<le> gp \<and>
    (\<exists>g. IntrinsicGas (msg_Data msg) (msg_AccessList msg) (msg_To msg = None) (rl_IsHomestead (env_rules env))
        (rl_IsIstanbul (env_rules env)) (rl_IsShanghai (env_rules env)) = Inl g \<and>
      unat g - unat g div (if rl_IsLondon (env_rules env) then 5 else 2) \<le> unat (er_UsedGas r))"
  by (rule message_gas [OF Run_good [OF interpreter_table [OF assms(1-3)]] assms(4,5)])

theorem message_gas_accounting_witness:
  "\<exists>jt r st. NewEVMInterpreter frontier_rules demo_config = Some (jt, []) \<and>
     ApplyMessage mainnet copy_env (Run 25001 copy_env jt) demo_message 30000 True False demo_vm = Ret (Inl r, st) \<and>
     10500 \<le> unat (er_UsedGas r) \<and> er_UsedGas r \<le> 25000 \<and> unat (st_gp st) + unat (er_UsedGas r) = 30000"
proof -
  have c: "env_rules copy_env = frontier_rules" "env_config copy_env = demo_config" "\<not> cc_Parlia mainnet"
    using old_fits by (simp_all add: copy_env_def mainnet_def)
  obtain jt where jt: "NewEVMInterpreter frontier_rules demo_config = Some (jt, [])" "table_inv copy_env [] jt"
    using NewEVMInterpreter_inv [OF copy_fits] c by auto
  obtain r st where r: "ApplyMessage mainnet copy_env (Run 25001 copy_env jt) demo_message 30000 True False demo_vm = Ret (Inl r, st)"
    using demo_message_applies [OF Run_good [OF jt(2)]] by blast
  note m = message_gas_accounting [OF copy_fits jt(1) [folded c(1,2)] c(3) r]
  have "10500 \<le> unat (er_UsedGas r)"
    using m c by (auto simp: demo_message_def IntrinsicGas_def frontier_rules_def Let_def)
  then show ?thesis using m jt r by (auto simp: demo_message_def)
qed

text \<open>
  C32: on a chain whose forks come in order, and with no extra EIPs configured, applying a message ends. With more rounds allowed than the gas the message asks for, the
  interpreter does not run out of them in the checks, the call or the creation and all they start,
  whichever checks are waived.
\<close>

theorem ApplyMessage_ends:
  assumes "rules_fit (env_rules env)" "cfg_ExtraEips (env_config env) = []"
    and "NewEVMInterpreter (env_rules env) (env_config env) = Some (jt, eips)" "unat (msg_Gas msg) < fuel"
  shows "ApplyMessage cc env (Run fuel env jt) msg gp refunds gasBailout vm \<noteq> NoFuel"
  unfolding ApplyMessage_def
  by (rule TransitionDb_ends [OF Run_good [OF interpreter_table [OF assms(1-3)]]]) (simp add: NewStateTransition_def assms(4))

theorem ApplyMessage_ends_witness:
  "\<exists>jt. NewEVMInterpreter demo_rules demo_config = Some (jt, []) \<and>
     ApplyMessage mainnet demo_env (Run 25001 demo_env jt) demo_message 30000 True True demo_vm \<noteq> NoFuel"
proof -
  obtain jt where jt: "NewEVMInterpreter (env_rules demo_env) (env_config demo_env) = Some (jt, [])"
    using NewEVMInterpreter_inv [OF demo_fits] by auto
  then show ?thesis using ApplyMessage_ends [OF demo_fits jt, of demo_message 25001 mainnet 30000 True True demo_vm]
    by (auto simp: demo_message_def demo_env_def)
qed

text \<open>
  C33: the intrinsic gas of a message is its price in unbounded numbers: the checks before the additions
  for the data refuse exactly the data whose price does not fit into 64 bits. The price of the
  access list is added without a check.
\<close>

theorem IntrinsicGas_exact:
  assumes "length data + 31 < 2 ^ 64"
  shows "IntrinsicGas data al creation homestead eip2028 eip3860 =
    (if data_price data creation homestead eip2028 eip3860 < 2 ^ 64
     then Inl (of_nat (data_price data creation homestead eip2028 eip3860 + list_price al)) else Inr ErrTxGasUintOverflow)"
  by (rule IntrinsicGas_price [OF assms])

theorem IntrinsicGas_exact_witness: "IntrinsicGas [0, 7, 9] [(5, [1, 2])] True True True True = Inl (53000 + 32 + 4 + 2 + 2400 + 3800)"
  using IntrinsicGas_exact [of "[0, 7, 9]" "[(5, [1, 2])]" True True True True] by (simp add: data_price_def list_price_def)

end
