(* ===== verification/Transactions.thy ===== *)
theory Transactions
  imports Amc_Prelude
begin

text \<open>
  Transactions (\<^verbatim>\<open>common/transaction\<close>): what the pool and the execution read of them. A legacy or
  access-list transaction has one gas price, which its fee cap and its tip point to as well; a
  dynamic-fee transaction has both. Taking the effective tip writes to the transaction, so it returns
  the transaction too.
\<close>

datatype tx_fees =
    LegacyTx u256
  | AccessListTx u256
  | DynamicFeeTx u256 u256

record Transaction =
  tn_Hash :: hash
  tn_Fees :: tx_fees
  tn_From :: "address option"
  tn_To :: "address option"
  tn_Nonce :: u64
  tn_Gas :: u64
  tn_Value :: u256
  tn_Data :: "byte list"
  tn_AccessList :: "(address \<times> hash list) list"

text \<open>The arguments of \<^const>\<open>DynamicFeeTx\<close> are the tip cap and the fee cap.\<close>

fun gasPrice :: "tx_fees \<Rightarrow> u256" where
  "gasPrice (LegacyTx p) = p"
| "gasPrice (AccessListTx p) = p"
| "gasPrice (DynamicFeeTx tip cap) = cap"

fun gasTipCap :: "tx_fees \<Rightarrow> u256" where
  "gasTipCap (LegacyTx p) = p"
| "gasTipCap (AccessListTx p) = p"
| "gasTipCap (DynamicFeeTx tip cap) = tip"

fun gasFeeCap :: "tx_fees \<Rightarrow> u256" where
  "gasFeeCap (LegacyTx p) = p"
| "gasFeeCap (AccessListTx p) = p"
| "gasFeeCap (DynamicFeeTx tip cap) = cap"

abbreviation tn_GasPrice :: "Transaction \<Rightarrow> u256" where
  "tn_GasPrice tx \<equiv> gasPrice (tn_Fees tx)"

definition Cost :: "Transaction \<Rightarrow> u256" where
  "Cost tx = tn_GasPrice tx * ucast (tn_Gas tx) + tn_Value tx"

text \<open>Writing through the pointer that \<^verbatim>\<open>GasFeeCap\<close> returns.\<close>

fun write_fee_cap :: "u256 \<Rightarrow> tx_fees \<Rightarrow> tx_fees" where
  "write_fee_cap v (LegacyTx p) = LegacyTx v"
| "write_fee_cap v (AccessListTx p) = AccessListTx v"
| "write_fee_cap v (DynamicFeeTx tip cap) = DynamicFeeTx tip v"

definition uint256Min :: "u256 \<Rightarrow> u256 \<Rightarrow> u256" where
  "uint256Min x y = (if x > y then x else y)"

text \<open>The flag is \<^verbatim>\<open>ErrGasFeeCapTooLow\<close>. The tip is read after the subtraction.\<close>

definition EffectiveGasTip :: "Transaction \<Rightarrow> u256 option \<Rightarrow> u256 \<times> bool \<times> Transaction" where
  "EffectiveGasTip tx baseFee =
     (case baseFee of None \<Rightarrow> (gasTipCap (tn_Fees tx), False, tx)
      | Some b \<Rightarrow>
          (let cap = gasFeeCap (tn_Fees tx); fees = write_fee_cap (cap - b) (tn_Fees tx)
           in (uint256Min (gasTipCap fees) (cap - b), cap < b, tx\<lparr>tn_Fees := fees\<rparr>)))"

end
