(* ===== verification/Go_Heap.thy ===== *)
theory Go_Heap
  imports Amc_Prelude "HOL-Library.Multiset"
begin

text \<open>
  Binary heaps in a slice, as Go's \<^verbatim>\<open>container/heap\<close> keeps them for the queues of the transaction pool: the
  operations, for any order, and what a queue may rely on (\<open>priority_queue\<close>). Popping or removing outside of the slice
  panics.
\<close>

section \<open>Operations\<close>

definition heap_swap :: "'a list \<Rightarrow> nat \<Rightarrow> nat \<Rightarrow> 'a list" where
  "heap_swap h i j = h[i := h ! j, j := h ! i]"

function heap_up :: "('a \<Rightarrow> 'a \<Rightarrow> bool) \<Rightarrow> 'a list \<Rightarrow> nat \<Rightarrow> 'a list" where
  "heap_up lt h j =
     (let i = (j - 1) div 2 in
      if i = j \<or> \<not> lt (h ! j) (h ! i) then h else heap_up lt (heap_swap h i j) i)"
  by pat_completeness auto

termination heap_up
  by (relation "measure (\<lambda>(lt, h, j). j)") auto

text \<open>The lesser child, the left one when they are equal. The position where the item comes to rest is returned too.\<close>

definition heap_child :: "('a \<Rightarrow> 'a \<Rightarrow> bool) \<Rightarrow> 'a list \<Rightarrow> nat \<Rightarrow> nat \<Rightarrow> nat" where
  "heap_child lt h i n =
     (let j1 = 2 * i + 1; j2 = j1 + 1 in if j2 < n \<and> lt (h ! j2) (h ! j1) then j2 else j1)"

function heap_down :: "('a \<Rightarrow> 'a \<Rightarrow> bool) \<Rightarrow> 'a list \<Rightarrow> nat \<Rightarrow> nat \<Rightarrow> 'a list \<times> nat" where
  "heap_down lt h i n =
     (if n \<le> 2 * i + 1 then (h, i)
      else (let j = heap_child lt h i n in
            if \<not> lt (h ! j) (h ! i) then (h, i) else heap_down lt (heap_swap h i j) j n))"
  by pat_completeness auto

termination heap_down
  by (relation "measure (\<lambda>(lt, h, i, n). n - i)") (auto simp: Let_def heap_child_def)

declare heap_up.simps [simp del] heap_down.simps [simp del]

fun heap_init_loop :: "('a \<Rightarrow> 'a \<Rightarrow> bool) \<Rightarrow> 'a list \<Rightarrow> nat \<Rightarrow> 'a list" where
  "heap_init_loop lt h 0 = h"
| "heap_init_loop lt h (Suc i) = heap_init_loop lt (fst (heap_down lt h i (length h))) i"

definition heap_Init :: "('a \<Rightarrow> 'a \<Rightarrow> bool) \<Rightarrow> 'a list \<Rightarrow> 'a list" where
  "heap_Init lt h = heap_init_loop lt h (length h div 2)"

definition heap_Push :: "('a \<Rightarrow> 'a \<Rightarrow> bool) \<Rightarrow> 'a list \<Rightarrow> 'a \<Rightarrow> 'a list" where
  "heap_Push lt h x = heap_up lt (h @ [x]) (length h)"

definition heap_Pop :: "('a \<Rightarrow> 'a \<Rightarrow> bool) \<Rightarrow> 'a list \<Rightarrow> ('a \<times> 'a list) option" where
  "heap_Pop lt h =
     (if h = [] then None
      else (let n = length h - 1; h = fst (heap_down lt (heap_swap h 0 n) 0 n) in Some (last h, butlast h)))"

definition heap_Remove :: "('a \<Rightarrow> 'a \<Rightarrow> bool) \<Rightarrow> 'a list \<Rightarrow> nat \<Rightarrow> ('a \<times> 'a list) option" where
  "heap_Remove lt h i =
     (if i \<ge> length h then None
      else (let n = length h - 1;
                h = (if n = i then h
                     else (let (h, k) = heap_down lt (heap_swap h i n) i n in if k > i then h else heap_up lt h i))
            in Some (last h, butlast h)))"

section \<open>Permutations\<close>

lemma length_heap_swap [simp]: "length (heap_swap h i j) = length h"
  by (simp add: heap_swap_def)

lemma heap_swap_nth: "i < length h \<Longrightarrow> j < length h \<Longrightarrow> k < length h \<Longrightarrow>
  heap_swap h i j ! k = (if k = j then h ! i else if k = i then h ! j else h ! k)"
  by (simp add: heap_swap_def nth_list_update)

lemma mset_heap_swap [simp]: "i < length h \<Longrightarrow> j < length h \<Longrightarrow> mset (heap_swap h i j) = mset h"
  unfolding heap_swap_def by (rule mset_swap) auto

lemma heap_up_mset: "j < length h \<Longrightarrow> mset (heap_up lt h j) = mset h"
proof (induction lt h j rule: heap_up.induct)
  case (1 lt h j)
  show ?case
  proof (cases "(j - 1) div 2 = j \<or> \<not> lt (h ! j) (h ! ((j - 1) div 2))")
    case True
    then show ?thesis by (subst heap_up.simps) auto
  next
    case False
    moreover have "(j - 1) div 2 < length h" using "1.prems" by linarith
    ultimately show ?thesis using 1 by (subst heap_up.simps) (simp add: Let_def)
  qed
qed

lemma heap_child_bounds: "\<not> n \<le> 2 * i + 1 \<Longrightarrow> i < heap_child lt h i n \<and> heap_child lt h i n < n"
  by (simp add: heap_child_def Let_def)

lemma heap_down_stop: "n \<le> 2 * i + 1 \<or> \<not> lt (h ! heap_child lt h i n) (h ! i) \<Longrightarrow> heap_down lt h i n = (h, i)"
  by (subst heap_down.simps) (auto simp: Let_def)

lemma heap_down_go: "\<not> n \<le> 2 * i + 1 \<Longrightarrow> lt (h ! heap_child lt h i n) (h ! i) \<Longrightarrow>
  heap_down lt h i n = heap_down lt (heap_swap h i (heap_child lt h i n)) (heap_child lt h i n) n"
  by (subst heap_down.simps) (simp add: Let_def)

lemma heap_down_ind [case_names stop go]:
  assumes stop: "\<And>h i. n \<le> 2 * i + 1 \<or> \<not> lt (h ! heap_child lt h i n) (h ! i) \<Longrightarrow> P h i"
    and go: "\<And>h i. \<not> n \<le> 2 * i + 1 \<Longrightarrow> lt (h ! heap_child lt h i n) (h ! i) \<Longrightarrow>
      P (heap_swap h i (heap_child lt h i n)) (heap_child lt h i n) \<Longrightarrow> P h i"
  shows "P h i"
proof (induction "n - i" arbitrary: h i rule: less_induct)
  case less
  show ?case
  proof (cases "n \<le> 2 * i + 1 \<or> \<not> lt (h ! heap_child lt h i n) (h ! i)")
    case False
    then have "n - heap_child lt h i n < n - i" using heap_child_bounds [of n i lt h] by linarith
    then show ?thesis using go [of i h] False less by blast
  qed (rule stop)
qed

lemma heap_down_mset: "i < n \<Longrightarrow> n \<le> length h \<Longrightarrow> mset (fst (heap_down lt h i n)) = mset h"
proof (induction h i rule: heap_down_ind [of n lt])
  case (go h i)
  then show ?case using heap_child_bounds [of n i lt h] by (simp add: heap_down_go)
qed (simp add: heap_down_stop)

lemma heap_down_length [simp]: "i < n \<Longrightarrow> n \<le> length h \<Longrightarrow> length (fst (heap_down lt h i n)) = length h"
  using heap_down_mset [of i n h lt] by (metis size_mset)

text \<open>Nothing beyond the bound moves.\<close>

lemma heap_down_beyond: "i < n \<Longrightarrow> n \<le> length h \<Longrightarrow> n \<le> k \<Longrightarrow> fst (heap_down lt h i n) ! k = h ! k"
proof (induction h i rule: heap_down_ind [of n lt])
  case (go h i)
  then show ?case using heap_child_bounds [of n i lt h] by (simp add: heap_down_go heap_swap_def)
qed (simp add: heap_down_stop)

lemma heap_up_beyond: "j < k \<Longrightarrow> heap_up lt h j ! k = h ! k"
proof (induction lt h j rule: heap_up.induct)
  case (1 lt h j)
  then show ?case by (subst heap_up.simps) (simp add: Let_def heap_swap_def)
qed

section \<open>The heap order\<close>

abbreviation heap_par :: "nat \<Rightarrow> nat" where "heap_par j \<equiv> (j - 1) div 2"

definition heap_ordered :: "('a \<Rightarrow> 'a \<Rightarrow> bool) \<Rightarrow> 'a list \<Rightarrow> bool" where
  "heap_ordered lt h \<longleftrightarrow> (\<forall>j. 0 < j \<and> j < length h \<longrightarrow> \<not> lt (h ! j) (h ! heap_par j))"

text \<open>What a queue relies on: the front is a least item, and the operations add and take the items they should.\<close>

locale priority_queue =
  fixes lt :: "'a \<Rightarrow> 'a \<Rightarrow> bool"
    and ordered :: "'a list \<Rightarrow> bool"
    and init :: "'a list \<Rightarrow> 'a list"
    and push :: "'a list \<Rightarrow> 'a \<Rightarrow> 'a list"
    and pop :: "'a list \<Rightarrow> ('a \<times> 'a list) option"
    and remove :: "'a list \<Rightarrow> nat \<Rightarrow> ('a \<times> 'a list) option"
  assumes ordered_Nil: "ordered []"
    and front_least: "ordered h \<Longrightarrow> x \<in> set h \<Longrightarrow> \<not> lt x (h ! 0)"
    and init_ordered: "ordered (init h)"
    and init_items: "mset (init h) = mset h"
    and push_ordered: "ordered h \<Longrightarrow> ordered (push h x)"
    and push_items: "mset (push h x) = add_mset x (mset h)"
    and pop_front: "ordered h \<Longrightarrow> h \<noteq> [] \<Longrightarrow> \<exists>h'. pop h = Some (h ! 0, h') \<and> ordered h' \<and> mset h = add_mset (h ! 0) (mset h')"
    and remove_item: "ordered h \<Longrightarrow> i < length h \<Longrightarrow>
      \<exists>h'. remove h i = Some (h ! i, h') \<and> ordered h' \<and> mset h = add_mset (h ! i) (mset h')"

locale heap_order =
  fixes lt :: "'a \<Rightarrow> 'a \<Rightarrow> bool"
  assumes asym: "lt a b \<Longrightarrow> \<not> lt b a"
    and negtrans: "\<not> lt a b \<Longrightarrow> \<not> lt b c \<Longrightarrow> \<not> lt a c"
begin

lemma irrefl: "\<not> lt a a"
  using asym by blast

lemma child_least:
  assumes "0 < m" "m < n" "heap_par m = i"
  shows "\<not> lt (h ! m) (h ! heap_child lt h i n)"
proof -
  have "m = 2 * i + 1 \<or> m = 2 * i + 2" using assms(1,3) by linarith
  then show ?thesis using assms asym irrefl by (auto simp: heap_child_def Let_def)
qed

lemma child_par: "heap_par (heap_child lt h i n) = i"
  by (simp add: heap_child_def Let_def)

text \<open>
  Sinking the item at \<open>i\<close> repairs the part of the heap below \<open>r\<close>: before, the order may be broken at \<open>i\<close>,
  with its parent and with its children. After, it is broken at most between \<open>i\<close> and its parent, and
  only when the item did not move.
\<close>

lemma sink:
  assumes "i < n" "n \<le> length h" "r \<le> i"
    and "\<And>j. 0 < j \<Longrightarrow> j < n \<Longrightarrow> r \<le> heap_par j \<Longrightarrow> heap_par j \<noteq> i \<Longrightarrow> j \<noteq> i \<Longrightarrow> \<not> lt (h ! j) (h ! heap_par j)"
    and "\<And>j. 0 < j \<Longrightarrow> j < n \<Longrightarrow> heap_par j = i \<Longrightarrow> 0 < i \<Longrightarrow> r \<le> heap_par i \<Longrightarrow> \<not> lt (h ! j) (h ! heap_par i)"
    and "heap_down lt h i n = (h', k)"
  shows "(k = i \<longrightarrow> h' = h) \<and> i \<le> k \<and>
    (\<forall>j. 0 < j \<and> j < n \<and> r \<le> heap_par j \<and> (j \<noteq> i \<or> i < k) \<longrightarrow> \<not> lt (h' ! j) (h' ! heap_par j))"
  using assms
proof (induction h i rule: heap_down_ind [of n lt])
  case (stop h i)
  show ?case
  proof (cases "n \<le> 2 * i + 1")
    case True
    then have "heap_par j \<noteq> i" if "0 < j" "j < n" for j using that by linarith
    then show ?thesis using stop by (auto simp: heap_down_stop)
  next
    case False
    have "\<not> lt (h ! j) (h ! heap_par j)" if "0 < j" "j < n" "heap_par j = i" for j
      using child_least [OF that, of h] stop(1) False negtrans that(3) by blast
    then show ?thesis using stop by (auto simp: heap_down_stop)
  qed
next
  case (go h i)
  define c where "c = heap_child lt h i n"
  have c: "i < c" "c < n" "heap_par c = i" "i < length h" "c < length h" "lt (h ! c) (h ! i)"
    using heap_child_bounds [OF go(1), of lt h] child_par [of h i n] go(2) go.prems(1,2) by (simp_all add: c_def)
  note sw = heap_swap_nth [OF c(4,5)]
  have p: "\<not> lt (heap_swap h i c ! j) (heap_swap h i c ! heap_par j)"
    if "0 < j" "j < n" "r \<le> heap_par j" "heap_par j \<noteq> c" for j
  proof -
    consider "j = c" | "j \<noteq> c" "heap_par j = i" | "j = i" | "j \<noteq> c" "j \<noteq> i" "heap_par j \<noteq> i" by blast
    then show ?thesis
    proof cases
      case 1
      then show ?thesis using c asym go.prems(2) by (simp add: sw)
    next
      case 2
      then have "j \<noteq> i" using that(1) by linarith
      then have "heap_swap h i c ! j = h ! j" "heap_swap h i c ! i = h ! c" using 2 c that go.prems(2) by (simp_all add: sw)
      then show ?thesis using child_least [OF that(1,2) 2(2), of h] 2(2) by (simp add: c_def)
    next
      case 3
      then show ?thesis using go.prems(5) [of c] c that go.prems(2) by (auto simp: sw)
    next
      case 4
      then show ?thesis using go.prems(4) [of j] that go.prems(2) by (simp add: sw)
    qed
  qed
  have q: "\<not> lt (heap_swap h i c ! j) (heap_swap h i c ! heap_par c)" if "0 < j" "j < n" "heap_par j = c" for j
    using go.prems(4) [of j] that c go.prems(2,3) by (auto simp: sw)
  have d: "heap_down lt (heap_swap h i c) c n = (h', k)" using go by (simp add: heap_down_go c_def)
  have "(k = c \<longrightarrow> h' = heap_swap h i c) \<and> c \<le> k \<and>
      (\<forall>j. 0 < j \<and> j < n \<and> r \<le> heap_par j \<and> (j \<noteq> c \<or> c < k) \<longrightarrow> \<not> lt (h' ! j) (h' ! heap_par j))"
    using go(3) [folded c_def, OF c(2) _ _ p q d] go.prems(2,3) c(1) by simp
  then show ?case using p [of c] c go.prems(3) by (metis le_neq_implies_less nat_less_le not_less_zero order_less_le_trans)
qed

text \<open>Raising the item at \<open>j\<close>, the only one that may be less than its parent.\<close>

lemma rise:
  assumes "j < n" "n \<le> length h" "\<And>m. 0 < m \<Longrightarrow> m < n \<Longrightarrow> m \<noteq> j \<Longrightarrow> \<not> lt (h ! m) (h ! heap_par m)"
    and "\<And>m. 0 < m \<Longrightarrow> m < n \<Longrightarrow> heap_par m = j \<Longrightarrow> 0 < j \<Longrightarrow> \<not> lt (h ! m) (h ! heap_par j)"
    and "0 < m" "m < n"
  shows "\<not> lt (heap_up lt h j ! m) (heap_up lt h j ! heap_par m)"
  using assms
proof (induction j arbitrary: h m rule: less_induct)
  case (less j)
  define i where "i = heap_par j"
  show ?case
  proof (cases "i = j \<or> \<not> lt (h ! j) (h ! i)")
    case True
    then have "heap_up lt h j = h" by (subst heap_up.simps) (auto simp: Let_def i_def)
    moreover have "\<not> lt (h ! j) (h ! i)" using True irrefl by auto
    ultimately show ?thesis using less.prems(3) [OF less.prems(5,6)] by (cases "m = j") (auto simp: i_def)
  next
    case False
    then have up: "heap_up lt h j = heap_up lt (heap_swap h i j) i" by (subst heap_up.simps) (simp add: Let_def i_def)
    have i: "i < j" "i < length h" "j < length h" "0 < j" using False less.prems(1,2) by (auto simp: i_def)
    note sw = heap_swap_nth [OF i(2,3)]
    have p: "\<not> lt (heap_swap h i j ! m) (heap_swap h i j ! heap_par m)" if m: "0 < m" "m < n" "m \<noteq> i" for m
    proof -
      have pm: "heap_par m < m" "m < length h" using m less.prems(2) by auto
      consider "m = j" | "m \<noteq> j" "heap_par m = j" | "m \<noteq> j" "heap_par m = i" | "m \<noteq> j" "heap_par m \<noteq> j" "heap_par m \<noteq> i"
        by blast
      then show ?thesis
      proof cases
        case 1
        then have "heap_par m = i" by (simp add: i_def)
        then show ?thesis unfolding \<open>m = j\<close> using False asym i by (simp add: sw)
      next
        case 2
        have "\<not> lt (h ! m) (h ! i)" using less.prems(4) [OF m(1,2) 2(2) i(4)] unfolding i_def .
        then show ?thesis unfolding 2(2) using 2(1) m pm i by (simp add: sw)
      next
        case 3
        then have "\<not> lt (h ! m) (h ! i)" using less.prems(3) [OF m(1,2)] by simp
        then have "\<not> lt (h ! m) (h ! j)" using False asym negtrans by blast
        then show ?thesis unfolding 3(2) using 3(1) m pm i by (simp add: sw)
      next
        case 4
        then show ?thesis using less.prems(3) [OF m(1,2)] m pm i by (simp add: sw)
      qed
    qed
    have q: "\<not> lt (heap_swap h i j ! m) (heap_swap h i j ! heap_par i)"
      if m: "0 < m" "m < n" "heap_par m = i" "0 < i" for m
    proof -
      have ne: "heap_par i < i" "m < length h" "m \<noteq> i" using m(1,2,4) less.prems(2) m(3) by (linarith)+
      have top: "\<not> lt (h ! i) (h ! heap_par i)" using less.prems(3) [of i] m(4) i less.prems(1) by simp
      have "\<not> lt (h ! m) (h ! heap_par i)" if "m \<noteq> j"
        using negtrans [OF _ top, of "h ! m"] less.prems(3) [OF m(1,2) that] m(3) by simp
      then show ?thesis using top ne i by (auto simp: sw)
    qed
    show ?thesis unfolding up
      by (rule less.IH [OF i(1) _ _ p q less.prems(5,6)]) (use i less.prems(1,2) in auto)
  qed
qed

lemma init_loop_ordered:
  assumes "i \<le> length h div 2" "\<And>j. 0 < j \<Longrightarrow> j < length h \<Longrightarrow> i \<le> heap_par j \<Longrightarrow> \<not> lt (h ! j) (h ! heap_par j)"
  shows "heap_ordered lt (heap_init_loop lt h i) \<and> mset (heap_init_loop lt h i) = mset h"
  using assms
proof (induction i arbitrary: h)
  case 0
  then show ?case by (simp add: heap_ordered_def)
next
  case (Suc i)
  have i: "i < length h" using Suc.prems(1) by linarith
  obtain h' k where d: "heap_down lt h i (length h) = (h', k)" by fastforce
  have l: "length h' = length h" "mset h' = mset h"
    using heap_down_length [OF i order_refl, of lt] heap_down_mset [OF i order_refl, of lt] d by simp_all
  have o: "\<forall>j. 0 < j \<and> j < length h \<and> i \<le> heap_par j \<and> (j \<noteq> i \<or> i < k) \<longrightarrow> \<not> lt (h' ! j) (h' ! heap_par j)"
    using sink [OF i order_refl order_refl _ _ d] Suc.prems(2) by force
  have "\<not> lt (h' ! j) (h' ! heap_par j)" if "0 < j" "j < length h'" "i \<le> heap_par j" for j
  proof -
    have "j \<noteq> i" using that(1,3) by linarith
    then show ?thesis using o that l by auto
  qed
  then have "heap_ordered lt (heap_init_loop lt h' i) \<and> mset (heap_init_loop lt h' i) = mset h'"
    using Suc.IH [of h'] Suc.prems(1) l by auto
  then show ?case using d l by simp
qed

lemma Init_ordered: "heap_ordered lt (heap_Init lt h) \<and> mset (heap_Init lt h) = mset h"
  unfolding heap_Init_def by (rule init_loop_ordered) auto

lemma front:
  assumes "heap_ordered lt h" "x \<in> set h"
  shows "\<not> lt x (h ! 0)"
proof -
  have "\<not> lt (h ! j) (h ! 0)" if "j < length h" for j
    using that
  proof (induction j rule: less_induct)
    case (less j)
    show ?case
    proof (cases "j = 0")
      case False
      then have "heap_par j < j" by auto
      then have "\<not> lt (h ! heap_par j) (h ! 0)" using less by simp
      moreover have "\<not> lt (h ! j) (h ! heap_par j)" using assms(1) False less.prems by (simp add: heap_ordered_def)
      ultimately show ?thesis using negtrans by blast
    qed (simp add: irrefl)
  qed
  then show ?thesis using assms(2) by (auto simp: in_set_conv_nth)
qed

lemma Push_ordered:
  assumes "heap_ordered lt h"
  shows "heap_ordered lt (heap_Push lt h x)"
proof -
  have l: "length (heap_Push lt h x) = Suc (length h)"
    using heap_up_mset [of "length h" "h @ [x]" lt] by (metis heap_Push_def length_append_singleton lessI size_mset)
  have "\<not> lt (heap_up lt (h @ [x]) (length h) ! m) (heap_up lt (h @ [x]) (length h) ! heap_par m)"
    if "0 < m" "m < Suc (length h)" for m
  proof (rule rise [of _ "Suc (length h)"])
    show "\<not> lt ((h @ [x]) ! m) ((h @ [x]) ! heap_par m)" if m: "0 < m" "m < Suc (length h)" "m \<noteq> length h" for m
    proof -
      have "m < length h" "heap_par m < length h" using m by auto
      then show ?thesis using assms m(1) by (auto simp: heap_ordered_def nth_append)
    qed
  qed (use that in auto)
  then show ?thesis using l by (simp add: heap_ordered_def heap_Push_def)
qed

text \<open>The list without its last item, when the part before it is in order.\<close>

lemma ordered_butlast:
  "(\<And>j. 0 < j \<Longrightarrow> j < length h - 1 \<Longrightarrow> \<not> lt (h ! j) (h ! heap_par j)) \<Longrightarrow> heap_ordered lt (butlast h)"
  by (auto simp: heap_ordered_def nth_butlast)

lemma mset_last: "h \<noteq> [] \<Longrightarrow> mset h = add_mset (last h) (mset (butlast h))"
  by (metis append_butlast_last_id mset.simps(2) mset_append union_commute add_mset_add_single mset_single_iff_right)

lemma Remove_item:
  assumes "heap_ordered lt h" "i < length h"
  shows "\<exists>h'. heap_Remove lt h i = Some (h ! i, h') \<and> heap_ordered lt h' \<and> mset h = add_mset (h ! i) (mset h')"
proof (cases "length h - 1 = i")
  case True
  then have "last h = h ! i" using assms(2) by (subst last_conv_nth) auto
  moreover have "heap_ordered lt (butlast h)" by (rule ordered_butlast) (use assms True in \<open>auto simp: heap_ordered_def\<close>)
  moreover have "h \<noteq> []" using assms(2) by auto
  ultimately show ?thesis using True assms(2) mset_last [of h] by (simp add: heap_Remove_def Let_def)
next
  case False
  define n where "n = length h - 1"
  define h1 where "h1 = heap_swap h i n"
  have n: "i < n" "n < length h" "n \<le> length h1" "n < length h1" "mset h1 = mset h" using False assms(2) by (auto simp: n_def h1_def)
  have sw: "h1 ! k = (if k = i then h ! n else h ! k)" if "k < n" for k
    using that n by (simp add: h1_def heap_swap_nth)
  have o: "\<not> lt (h ! j) (h ! heap_par j)" if "0 < j" "j < n" for j using assms(1) that n(2) by (simp add: heap_ordered_def)
  obtain h' k where d: "heap_down lt h1 i n = (h', k)" by fastforce
  have p: "\<not> lt (h1 ! j) (h1 ! heap_par j)" if "0 < j" "j < n" "heap_par j \<noteq> i" "j \<noteq> i" for j
    using o [OF that(1,2)] that sw [of j] sw [of "heap_par j"] by simp
  have q: "\<not> lt (h1 ! j) (h1 ! heap_par i)" if "0 < j" "j < n" "heap_par j = i" "0 < i" for j
  proof -
    have "j \<noteq> i" "heap_par i < i" using that(1,3,4) by (linarith)+
    then show ?thesis using negtrans [OF o [OF that(1,2)], of "h ! heap_par i"] o [of i] that n sw [of j] sw [of "heap_par i"] by simp
  qed
  have s: "(k = i \<longrightarrow> h' = h1) \<and> i \<le> k \<and>
      (\<forall>j. 0 < j \<and> j < n \<and> 0 \<le> heap_par j \<and> (j \<noteq> i \<or> i < k) \<longrightarrow> \<not> lt (h' ! j) (h' ! heap_par j))"
    by (rule sink [OF n(1,3) _ _ _ d]) (use p q in auto)
  define h2 where "h2 = (if k > i then h' else heap_up lt h' i)"
  have h': "mset h' = mset h1" "h' ! n = h1 ! n"
    using heap_down_mset [OF n(1,3), of lt] heap_down_beyond [OF n(1,3), of n lt] d by simp_all
  have l': "length h' = Suc n" using h'(1) n(2,5) by (metis One_nat_def Suc_pred' gr_implies_not0 n_def neq0_conv size_mset)
  have m2: "mset h2 = mset h" "h2 ! n = h ! i"
    using h' n l' heap_up_mset [of i h' lt] heap_up_beyond [OF n(1), of lt h'] by (auto simp: h2_def h1_def heap_swap_nth)
  have l2: "length h2 = Suc n" using m2(1) h'(1) n(5) l' by (metis size_mset)
  have "\<not> lt (h2 ! j) (h2 ! heap_par j)" if "0 < j" "j < n" for j
  proof (cases "k > i")
    case True
    then show ?thesis using s that by (simp add: h2_def)
  next
    case False
    then have e: "h' = h1" "h2 = heap_up lt h1 i" using s by (auto simp: h2_def)
    show ?thesis unfolding e(2) by (rule rise [OF n(1,3) _ _ that]) (use s e(1) q in auto)
  qed
  then have "heap_ordered lt (butlast h2)" using l2 by (intro ordered_butlast) simp
  moreover have "last h2 = h ! i" using l2 m2(2) by (subst last_conv_nth) auto
  moreover have "heap_Remove lt h i = Some (last h2, butlast h2)"
    using assms(2) False d unfolding heap_Remove_def Let_def h2_def n_def [symmetric] h1_def [symmetric] by simp
  ultimately show ?thesis using mset_last [of h2] m2(1) l2 by (cases h2) auto
qed

lemma Pop_Remove: "h \<noteq> [] \<Longrightarrow> heap_Pop lt h = heap_Remove lt h 0"
  by (auto simp: heap_Pop_def heap_Remove_def Let_def heap_down_stop heap_swap_def heap_up.simps [of lt _ 0] split: prod.split)

end

sublocale heap_order \<subseteq> priority_queue lt "heap_ordered lt" "heap_Init lt" "heap_Push lt" "heap_Pop lt" "heap_Remove lt"
proof
  show "heap_ordered lt []" by (simp add: heap_ordered_def)
  show "\<not> lt x (h ! 0)" if "heap_ordered lt h" "x \<in> set h" for h x by (rule front [OF that])
  show "heap_ordered lt (heap_Init lt h)" "mset (heap_Init lt h) = mset h" for h using Init_ordered by auto
  show "heap_ordered lt (heap_Push lt h x)" if "heap_ordered lt h" for h x by (rule Push_ordered [OF that])
  show "mset (heap_Push lt h x) = add_mset x (mset h)" for h x by (simp add: heap_Push_def heap_up_mset)
  show "\<exists>h'. heap_Pop lt h = Some (h ! 0, h') \<and> heap_ordered lt h' \<and> mset h = add_mset (h ! 0) (mset h')"
    if "heap_ordered lt h" "h \<noteq> []" for h
    using Remove_item [OF that(1), of 0] that(2) by (simp add: Pop_Remove)
  show "\<exists>h'. heap_Remove lt h i = Some (h ! i, h') \<and> heap_ordered lt h' \<and> mset h = add_mset (h ! i) (mset h')"
    if "heap_ordered lt h" "i < length h" for h i by (rule Remove_item [OF that])
qed

end
