(* ===== verification/Tx_Lists.thy ===== *)
theory Tx_Lists
  imports Transactions Go_Heap "HOL-Library.Mapping"
begin

text \<open>
  The transactions of one account in the pool (\<^verbatim>\<open>internal/txspool/txs_list.go\<close>): the map sorted by nonce,
  with a heap of the nonces and a cache of the sorted transactions, and the list on top of it. Go visits
  the entries of a map in any order, so an operation that ranges over the map takes the order as an
  argument, a list of nonces of which those in the map are visited. Transactions are returned as pointers, \<open>None\<close> for nil.
\<close>

section \<open>The sorted map\<close>

abbreviation nonce_less :: "u64 \<Rightarrow> u64 \<Rightarrow> bool" where "nonce_less a b \<equiv> a < b"

interpretation nonce: heap_order nonce_less
  by unfold_locales auto

record txsSortedMap =
  sm_items :: "(u64, Transaction) mapping"
  sm_index :: "u64 list"
  sm_cache :: "Transaction list option"

definition newTxSortedMap :: txsSortedMap where
  "newTxSortedMap = \<lparr>sm_items = Mapping.empty, sm_index = [], sm_cache = None\<rparr>"

definition sm_Get :: "txsSortedMap \<Rightarrow> u64 \<Rightarrow> Transaction option" where
  "sm_Get m nonce = Mapping.lookup (sm_items m) nonce"

definition sm_Put :: "Transaction \<Rightarrow> txsSortedMap \<Rightarrow> txsSortedMap" where
  "sm_Put tx m =
     (let nonce = tn_Nonce tx;
          index = (if sm_Get m nonce = None then heap_Push nonce_less (sm_index m) nonce else sm_index m)
      in m\<lparr>sm_items := Mapping.update nonce tx (sm_items m), sm_index := index, sm_cache := None\<rparr>)"

text \<open>Popping shortens the index, whatever is in it.\<close>

lemma heap_Pop_length:
  assumes "heap_Pop lt h = Some (x, h')"
  shows "length h = Suc (length h')"
proof -
  let ?n = "length h - 1"
  have h: "h \<noteq> []" "h' = butlast (fst (heap_down lt (heap_swap h 0 ?n) 0 ?n))"
    using assms by (auto simp: heap_Pop_def Let_def split: if_splits)
  have "length (fst (heap_down lt (heap_swap h 0 ?n) 0 ?n)) = length h"
    by (cases "?n = 0") (auto simp: heap_down_stop)
  then show ?thesis using h by simp
qed

function forward_loop :: "u64 \<Rightarrow> Transaction option list \<Rightarrow> txsSortedMap \<Rightarrow> (Transaction option list \<times> txsSortedMap) option" where
  "forward_loop threshold removed m =
     (if sm_index m = [] \<or> \<not> sm_index m ! 0 < threshold then Some (removed, m)
      else (case heap_Pop nonce_less (sm_index m) of None \<Rightarrow> None
            | Some (nonce, index) \<Rightarrow>
                forward_loop threshold (removed @ [sm_Get m nonce])
                  (m\<lparr>sm_items := Mapping.delete nonce (sm_items m), sm_index := index\<rparr>)))"
  by pat_completeness auto

termination forward_loop
  by (relation "measure (\<lambda>(threshold, removed, m). length (sm_index m))") (auto dest: heap_Pop_length)

definition sm_Forward :: "u64 \<Rightarrow> txsSortedMap \<Rightarrow> (Transaction option list \<times> txsSortedMap) option" where
  "sm_Forward threshold m =
     (case forward_loop threshold [] m of None \<Rightarrow> None
      | Some (removed, m) \<Rightarrow>
          (case sm_cache m of None \<Rightarrow> Some (removed, m)
           | Some cache \<Rightarrow>
               if length removed > length cache then None
               else Some (removed, m\<lparr>sm_cache := Some (drop (length removed) cache)\<rparr>)))"

text \<open>\<^verbatim>\<open>filter\<close> leaves the index as it is.\<close>

definition sm_filter_items :: "(Transaction \<Rightarrow> bool) \<Rightarrow> u64 list \<Rightarrow> txsSortedMap \<Rightarrow> Transaction list \<times> txsSortedMap" where
  "sm_filter_items f order m =
     (let removed = filter f (List.map_filter (sm_Get m) order);
          items = Mapping.filter (\<lambda>nonce tx. \<not> (nonce \<in> set order \<and> f tx)) (sm_items m)
      in (removed, m\<lparr>sm_items := items, sm_cache := (if removed \<noteq> [] then None else sm_cache m)\<rparr>))"

definition reheap :: "u64 list \<Rightarrow> txsSortedMap \<Rightarrow> txsSortedMap" where
  "reheap order m = m\<lparr>sm_index := heap_Init nonce_less (filter (\<lambda>nonce. sm_Get m nonce \<noteq> None) order), sm_cache := None\<rparr>"

definition sm_Filter :: "(Transaction \<Rightarrow> bool) \<Rightarrow> u64 list \<Rightarrow> u64 list \<Rightarrow> txsSortedMap \<Rightarrow> Transaction list \<times> txsSortedMap" where
  "sm_Filter f order order' m =
     (let (removed, m) = sm_filter_items f order m in (removed, if removed \<noteq> [] then reheap order' m else m))"

fun cap_loop :: "u64 list \<Rightarrow> nat \<Rightarrow> (u64, Transaction) mapping \<Rightarrow> nat \<Rightarrow> (Transaction option list \<times> (u64, Transaction) mapping) option" where
  "cap_loop index threshold items 0 = Some ([], items)"
| "cap_loop index threshold items (Suc n) =
     (if Suc n > threshold then
        (if n < length index then
           map_option (\<lambda>(drops, items'). (Mapping.lookup items (index ! n) # drops, items'))
             (cap_loop index threshold (Mapping.delete (index ! n) items) n)
         else None)
      else Some ([], items))"

text \<open>The limit is a configured number, not negative.\<close>

definition sm_Cap :: "nat \<Rightarrow> txsSortedMap \<Rightarrow> (Transaction option list \<times> txsSortedMap) option" where
  "sm_Cap threshold m =
     (if Mapping.size (sm_items m) \<le> threshold then Some ([], m)
      else (let index = sort (sm_index m) in
        case cap_loop index threshold (sm_items m) (Mapping.size (sm_items m)) of None \<Rightarrow> None
        | Some (drops, items) \<Rightarrow>
            (let m = m\<lparr>sm_items := items, sm_index := heap_Init nonce_less (take threshold index)\<rparr> in
             case sm_cache m of None \<Rightarrow> Some (drops, m)
             | Some cache \<Rightarrow>
                 if length drops > length cache then None
                 else Some (drops, m\<lparr>sm_cache := Some (take (length cache - length drops) cache)\<rparr>))))"

fun find_index :: "u64 \<Rightarrow> u64 list \<Rightarrow> nat option" where
  "find_index nonce [] = None"
| "find_index nonce (x # xs) = (if x = nonce then Some 0 else map_option Suc (find_index nonce xs))"

definition sm_Remove :: "u64 \<Rightarrow> txsSortedMap \<Rightarrow> bool \<times> txsSortedMap" where
  "sm_Remove nonce m =
     (if sm_Get m nonce = None then (False, m)
      else (let index = (case find_index nonce (sm_index m) of None \<Rightarrow> sm_index m
                         | Some i \<Rightarrow> (case heap_Remove nonce_less (sm_index m) i of None \<Rightarrow> sm_index m | Some (_, h) \<Rightarrow> h))
            in (True, m\<lparr>sm_items := Mapping.delete nonce (sm_items m), sm_index := index, sm_cache := None\<rparr>)))"

function ready_loop :: "u64 \<Rightarrow> Transaction option list \<Rightarrow> txsSortedMap \<Rightarrow> (Transaction option list \<times> txsSortedMap) option" where
  "ready_loop next ready m =
     (if sm_index m = [] \<or> sm_index m ! 0 \<noteq> next then Some (ready, m)
      else (case heap_Pop nonce_less (sm_index m) of None \<Rightarrow> None
            | Some (_, index) \<Rightarrow>
                ready_loop (next + 1) (ready @ [sm_Get m next])
                  (m\<lparr>sm_items := Mapping.delete next (sm_items m), sm_index := index\<rparr>)))"
  by pat_completeness auto

termination ready_loop
  by (relation "measure (\<lambda>(next, ready, m). length (sm_index m))") (auto dest: heap_Pop_length)

definition sm_Ready :: "u64 \<Rightarrow> txsSortedMap \<Rightarrow> (Transaction option list \<times> txsSortedMap) option" where
  "sm_Ready start m =
     (if sm_index m = [] \<or> sm_index m ! 0 > start then Some ([], m)
      else map_option (\<lambda>(ready, m). (ready, m\<lparr>sm_cache := None\<rparr>)) (ready_loop (sm_index m ! 0) [] m))"

definition sm_Len :: "txsSortedMap \<Rightarrow> nat" where
  "sm_Len m = Mapping.size (sm_items m)"

definition sm_flatten :: "u64 list \<Rightarrow> txsSortedMap \<Rightarrow> Transaction list \<times> txsSortedMap" where
  "sm_flatten order m =
     (case sm_cache m of Some cache \<Rightarrow> (cache, m)
      | None \<Rightarrow> (let cache = sort_key tn_Nonce (List.map_filter (sm_Get m) order) in (cache, m\<lparr>sm_cache := Some cache\<rparr>)))"

definition sm_LastElement :: "u64 list \<Rightarrow> txsSortedMap \<Rightarrow> (Transaction \<times> txsSortedMap) option" where
  "sm_LastElement order m =
     (let (cache, m) = sm_flatten order m in if cache = [] then None else Some (last cache, m))"

declare forward_loop.simps [simp del] ready_loop.simps [simp del]

section \<open>Lists\<close>

record txsList =
  txl_strict :: bool
  txl_txs :: txsSortedMap
  txl_costcap :: u256
  txl_gascap :: u64

definition newTxsList :: "bool \<Rightarrow> txsList" where
  "newTxsList strict = \<lparr>txl_strict = strict, txl_txs = newTxSortedMap, txl_costcap = 0, txl_gascap = 0\<rparr>"

definition Overlaps :: "txsList \<Rightarrow> Transaction \<Rightarrow> bool" where
  "Overlaps l tx \<longleftrightarrow> sm_Get (txl_txs l) (tn_Nonce tx) \<noteq> None"

text \<open>Both thresholds are computed from the gas price of the old transaction.\<close>

definition replaces :: "u64 \<Rightarrow> Transaction \<Rightarrow> Transaction \<Rightarrow> bool" where
  "replaces priceBump old tx =
     (if tn_Gas old \<ge> tn_Gas tx \<or> tn_GasPrice old \<ge> tn_GasPrice tx then False
      else (let a = ucast (100 + priceBump); threshold = a * tn_GasPrice old div 100
            in \<not> (gasFeeCap (tn_Fees tx) < threshold \<or> gasTipCap (tn_Fees tx) < threshold)))"

definition txl_Add :: "Transaction \<Rightarrow> u64 \<Rightarrow> txsList \<Rightarrow> (bool \<times> Transaction option) \<times> txsList" where
  "txl_Add tx priceBump l =
     (let old = sm_Get (txl_txs l) (tn_Nonce tx) in
      if (case old of None \<Rightarrow> False | Some o' \<Rightarrow> \<not> replaces priceBump o' tx) then ((False, None), l)
      else (let cost = tn_GasPrice tx * ucast (tn_Gas tx) + tn_Value tx in
        ((True, old), l\<lparr>txl_txs := sm_Put tx (txl_txs l),
           txl_costcap := (if txl_costcap l < cost then cost else txl_costcap l),
           txl_gascap := (if txl_gascap l < tn_Gas tx then tn_Gas tx else txl_gascap l)\<rparr>)))"

definition txl_Forward :: "u64 \<Rightarrow> txsList \<Rightarrow> (Transaction option list \<times> txsList) option" where
  "txl_Forward threshold l = map_option (\<lambda>(r, m). (r, l\<lparr>txl_txs := m\<rparr>)) (sm_Forward threshold (txl_txs l))"

text \<open>Over the account's funds or the gas limit of the block.\<close>

definition unaffordable :: "u256 \<Rightarrow> u64 \<Rightarrow> Transaction \<Rightarrow> bool" where
  "unaffordable costLimit gasLimit tx \<longleftrightarrow>
     tn_Gas tx > gasLimit \<or> tn_Value tx + tn_GasPrice tx * ucast (tn_Gas tx) > costLimit"

text \<open>Four ranges over the map: \<^verbatim>\<open>Filter\<close>, its \<^verbatim>\<open>reheap\<close>, \<^verbatim>\<open>filter\<close> and the last \<^verbatim>\<open>reheap\<close>.\<close>

definition txl_Filter ::
  "u256 \<Rightarrow> u64 \<Rightarrow> u64 list \<times> u64 list \<times> u64 list \<times> u64 list \<Rightarrow> txsList \<Rightarrow> (Transaction list \<times> Transaction list) \<times> txsList" where
  "txl_Filter costLimit gasLimit orders l =
     (if txl_costcap l \<le> costLimit \<and> txl_gascap l \<le> gasLimit then (([], []), l)
      else (let (o1, o2, o3, o4) = orders;
                l = l\<lparr>txl_costcap := costLimit, txl_gascap := gasLimit\<rparr>;
                (removed, m) = sm_Filter (unaffordable costLimit gasLimit) o1 o2 (txl_txs l)
            in if removed = [] then (([], []), l\<lparr>txl_txs := m\<rparr>)
               else (let lowest = foldl (\<lambda>lowest tx. if lowest > tn_Nonce tx then tn_Nonce tx else lowest) 0xFFFFFFFFFFFFFFFF removed;
                         (invalids, m) = (if txl_strict l then sm_filter_items (\<lambda>tx. tn_Nonce tx > lowest) o3 m else ([], m))
                     in ((removed, invalids), l\<lparr>txl_txs := reheap o4 m\<rparr>))))"

definition txl_Cap :: "nat \<Rightarrow> txsList \<Rightarrow> (Transaction option list \<times> txsList) option" where
  "txl_Cap threshold l = map_option (\<lambda>(r, m). (r, l\<lparr>txl_txs := m\<rparr>)) (sm_Cap threshold (txl_txs l))"

definition txl_Remove :: "Transaction \<Rightarrow> u64 list \<times> u64 list \<Rightarrow> txsList \<Rightarrow> (bool \<times> Transaction list) \<times> txsList" where
  "txl_Remove tx orders l =
     (let nonce = tn_Nonce tx; (removed, m) = sm_Remove nonce (txl_txs l) in
      if \<not> removed then ((False, []), l\<lparr>txl_txs := m\<rparr>)
      else if txl_strict l then
        (let (invalids, m) = sm_Filter (\<lambda>tx. tn_Nonce tx > nonce) (fst orders) (snd orders) m
         in ((True, invalids), l\<lparr>txl_txs := m\<rparr>))
      else ((True, []), l\<lparr>txl_txs := m\<rparr>))"

definition txl_Ready :: "u64 \<Rightarrow> txsList \<Rightarrow> (Transaction option list \<times> txsList) option" where
  "txl_Ready start l = map_option (\<lambda>(r, m). (r, l\<lparr>txl_txs := m\<rparr>)) (sm_Ready start (txl_txs l))"

definition txl_Len :: "txsList \<Rightarrow> nat" where
  "txl_Len l = sm_Len (txl_txs l)"

definition txl_Empty :: "txsList \<Rightarrow> bool" where
  "txl_Empty l \<longleftrightarrow> txl_Len l = 0"

definition txl_Flatten :: "u64 list \<Rightarrow> txsList \<Rightarrow> Transaction list \<times> txsList" where
  "txl_Flatten order l = (let (cache, m) = sm_flatten order (txl_txs l) in (cache, l\<lparr>txl_txs := m\<rparr>))"

definition txl_LastElement :: "u64 list \<Rightarrow> txsList \<Rightarrow> (Transaction \<times> txsList) option" where
  "txl_LastElement order l = map_option (\<lambda>(tx, m). (tx, l\<lparr>txl_txs := m\<rparr>)) (sm_LastElement order (txl_txs l))"

end
