(* ===== verification/Tx_Props.thy ===== *)
theory Tx_Props
  imports Tx_Lists
begin

text \<open>
  The lists of the transaction pool: the heap of nonces and the cache always agree with the map, so
  removing from the front, taking what is ready and cutting to a length return what they should, in the order of the
  nonces, and never panic; a strict list stays without gaps; the exact rule for replacing a transaction,
  which cannot go on for ever; and what taking the effective tip does to a transaction.
\<close>

section \<open>Sorted lists and mappings\<close>

lemma sort_front:
  fixes h :: "'a::linorder list"
  assumes "mset h = add_mset x (mset h')" "\<And>y. y \<in> set h \<Longrightarrow> x \<le> y"
  shows "sort h = x # sort h'"
proof (rule properties_for_sort)
  show "mset (x # sort h') = mset h" using assms(1) by simp
  have "set h' \<subseteq> set h" using assms(1) by (metis set_mset_mset set_mset_add_mset_insert subset_insertI)
  then show "sorted (x # sort h')" using assms(2) by auto
qed

lemma drop_less: "sorted xs \<Longrightarrow> drop (length (filter (\<lambda>n. n < t) xs)) xs = filter (\<lambda>n. \<not> n < (t :: 'a::linorder)) xs"
proof (induction xs)
  case (Cons x xs)
  show ?case
  proof (cases "x < t")
    case False
    then have "filter (\<lambda>n. n < t) xs = []" "filter (\<lambda>n. \<not> n < t) xs = xs" using Cons.prems by (auto simp: filter_empty_conv filter_id_conv)
    then show ?thesis using False by simp
  qed (use Cons in simp)
qed simp

lemma lookup_del: "Mapping.lookup (Mapping.delete k m) n = (if n = k then None else Mapping.lookup m n)"
  by transfer auto

lemma filter_all [simp]: "Mapping.filter (\<lambda>k v. True) m = m"
  by (rule mapping_eqI) (simp add: lookup_filter split: option.split)

lemma keys_filter: "Mapping.keys (Mapping.filter (\<lambda>k v. P k) m) = {k \<in> Mapping.keys m. P k}"
  by (auto simp: keys_dom_lookup lookup_filter split: option.splits if_splits)

lemma filter_not_dropped: "distinct xs \<Longrightarrow> filter (\<lambda>x. x \<notin> set (drop t xs)) xs = take t xs"
proof -
  assume "distinct xs"
  then have "set (take t xs) \<inter> set (drop t xs) = {}" by (simp add: set_take_disj_set_drop_if_distinct)
  then have "filter (\<lambda>x. x \<notin> set (drop t xs)) (take t xs) = take t xs" "filter (\<lambda>x. x \<notin> set (drop t xs)) (drop t xs) = []"
    by (auto simp: filter_id_conv filter_empty_conv)
  then show ?thesis by (metis append_Nil2 append_take_drop_id filter_append)
qed

lemma Get_update: "sm_Get (m\<lparr>sm_items := Mapping.update k v (sm_items m'), sm_index := i, sm_cache := c\<rparr>) n = (if n = k then Some v else sm_Get m' n)"
  by (simp add: sm_Get_def lookup_update')

section \<open>The invariant\<close>

definition sm_core :: "txsSortedMap \<Rightarrow> bool" where
  "sm_core m \<longleftrightarrow> heap_ordered nonce_less (sm_index m) \<and> distinct (sm_index m) \<and> set (sm_index m) = Mapping.keys (sm_items m) \<and>
     (\<forall>n tx. sm_Get m n = Some tx \<longrightarrow> tn_Nonce tx = n)"

text \<open>The nonces in order, and the transactions in the order of their nonces.\<close>

definition sm_nonces :: "txsSortedMap \<Rightarrow> u64 list" where
  "sm_nonces m = sorted_list_of_set (Mapping.keys (sm_items m))"

definition sm_sorted :: "txsSortedMap \<Rightarrow> Transaction list" where
  "sm_sorted m = map (\<lambda>n. the (sm_Get m n)) (sm_nonces m)"

definition sm_inv :: "txsSortedMap \<Rightarrow> bool" where
  "sm_inv m \<longleftrightarrow> sm_core m \<and> (\<forall>c. sm_cache m = Some c \<longrightarrow> c = sm_sorted m)"

definition ranges :: "u64 list \<Rightarrow> txsSortedMap \<Rightarrow> bool" where
  "ranges order m \<longleftrightarrow> distinct order \<and> Mapping.keys (sm_items m) \<subseteq> set order"

lemma cache_irrelevant [simp]:
  "sm_Get (m\<lparr>sm_cache := c\<rparr>) = sm_Get m" "sm_nonces (m\<lparr>sm_cache := c\<rparr>) = sm_nonces m"
  "sm_sorted (m\<lparr>sm_cache := c\<rparr>) = sm_sorted m" "sm_core (m\<lparr>sm_cache := c\<rparr>) = sm_core m"
  by (simp_all add: sm_Get_def fun_eq_iff sm_nonces_def sm_sorted_def sm_core_def)

lemma keys_Get: "n \<in> Mapping.keys (sm_items m) \<longleftrightarrow> sm_Get m n \<noteq> None"
  by (simp add: sm_Get_def keys_is_none_rep Option.is_none_def)

lemma sm_nonces_index: "sm_core m \<Longrightarrow> sm_nonces m = sort (sm_index m)"
  unfolding sm_core_def sm_nonces_def by (metis sorted_list_of_set_sort_remdups distinct_remdups_id)

lemma sm_nonces_set: "sm_core m \<Longrightarrow> set (sm_nonces m) = Mapping.keys (sm_items m) \<and> distinct (sm_nonces m) \<and> sorted (sm_nonces m)"
  by (simp add: sm_nonces_index) (simp add: sm_core_def)

lemma sm_Len_nonces: "sm_core m \<Longrightarrow> Mapping.size (sm_items m) = length (sm_nonces m)"
  using sm_nonces_set [of m] distinct_card [of "sm_nonces m"] by (simp add: Mapping.size_def)

lemma sm_pop:
  assumes "sm_core m" "sm_index m \<noteq> []"
  shows "\<exists>h. heap_Pop nonce_less (sm_index m) = Some (sm_index m ! 0, h) \<and> sm_nonces m = sm_index m ! 0 # sort h \<and>
    sm_core (m\<lparr>sm_items := Mapping.delete (sm_index m ! 0) (sm_items m), sm_index := h\<rparr>)"
proof -
  obtain h where h: "heap_Pop nonce_less (sm_index m) = Some (sm_index m ! 0, h)" "heap_ordered nonce_less h"
      "mset (sm_index m) = add_mset (sm_index m ! 0) (mset h)"
    using nonce.pop_front [of "sm_index m"] assms by (auto simp: sm_core_def)
  have "sort (sm_index m) = sm_index m ! 0 # sort h"
    using sort_front [OF h(3)] nonce.front_least assms(1) by (fastforce simp: sm_core_def)
  moreover have "set (sm_index m) = insert (sm_index m ! 0) (set h)" "distinct (sm_index m ! 0 # h)"
    using h(3) assms(1) by (metis set_mset_mset set_mset_add_mset_insert) (metis h(3) assms(1) mset.simps(2) mset_eq_imp_distinct_iff sm_core_def)
  ultimately show ?thesis using h(1,2) assms(1) by (auto simp: sm_core_def sm_nonces_index sm_Get_def lookup_del)
qed

lemma nonces_filter:
  assumes "sm_core m" "sm_items m' = Mapping.filter P (sm_items m)"
  shows "sm_nonces m' = filter (\<lambda>n. P n (the (sm_Get m n))) (sm_nonces m)"
    "sm_sorted m' = map (\<lambda>n. the (sm_Get m n)) (sm_nonces m')"
proof -
  have k: "Mapping.keys (sm_items m') = {n \<in> Mapping.keys (sm_items m). P n (the (sm_Get m n))}"
    using assms(2) by (auto simp: keys_dom_lookup lookup_filter sm_Get_def split: option.splits if_splits)
  have fin: "finite (Mapping.keys (sm_items m))" using sm_nonces_set [OF assms(1)] by (metis List.finite_set)
  show n: "sm_nonces m' = filter (\<lambda>n. P n (the (sm_Get m n))) (sm_nonces m)"
    unfolding sm_nonces_def k using fin by (intro sorted_distinct_set_unique) (auto simp: sorted_wrt_filter)
  have "sm_Get m' n = sm_Get m n" if "n \<in> set (sm_nonces m')" for n
  proof -
    have "n \<in> Mapping.keys (sm_items m')" using that k fin by (simp add: sm_nonces_def)
    then show ?thesis using assms(2) by (auto simp: keys_dom_lookup sm_Get_def lookup_filter split: option.splits if_splits)
  qed
  then show "sm_sorted m' = map (\<lambda>n. the (sm_Get m n)) (sm_nonces m')" by (simp add: sm_sorted_def)
qed

lemma forward_loop_spec:
  assumes "sm_core m"
  shows "\<exists>m'. forward_loop t removed m = Some (removed @ map (sm_Get m) (filter (\<lambda>n. n < t) (sm_nonces m)), m') \<and>
    sm_items m' = Mapping.filter (\<lambda>n tx. \<not> n < t) (sm_items m) \<and> sm_cache m' = sm_cache m \<and> sm_core m' \<and>
    sm_nonces m' = filter (\<lambda>n. \<not> n < t) (sm_nonces m)"
  using assms
proof (induction t removed m rule: forward_loop.induct)
  case (1 t removed m)
  show ?case
  proof (cases "sm_index m = [] \<or> \<not> sm_index m ! 0 < t")
    case True
    then have le: "\<not> n < t" if "n \<in> Mapping.keys (sm_items m)" for n
      using that nonce.front_least [of "sm_index m" n] "1.prems" by (auto simp: sm_core_def)
    have "Mapping.filter (\<lambda>n tx. \<not> n < t) (sm_items m) = sm_items m"
      by (rule mapping_eqI) (use le in \<open>force simp: lookup_filter keys_is_none_rep split: option.split\<close>)
    moreover have "filter (\<lambda>n. n < t) (sm_nonces m) = []" "filter (\<lambda>n. \<not> n < t) (sm_nonces m) = sm_nonces m"
      using le sm_nonces_set [OF "1.prems"] by (auto simp: filter_empty_conv filter_id_conv)
    ultimately show ?thesis using True "1.prems" by (subst forward_loop.simps) simp
  next
    case False
    let ?x = "sm_index m ! 0"
    obtain h where h: "heap_Pop nonce_less (sm_index m) = Some (?x, h)" "sm_nonces m = ?x # sort h"
        "sm_core (m\<lparr>sm_items := Mapping.delete ?x (sm_items m), sm_index := h\<rparr>)"
      using sm_pop [OF "1.prems"] False by blast
    let ?m = "m\<lparr>sm_items := Mapping.delete ?x (sm_items m), sm_index := h\<rparr>"
    have n: "sm_nonces ?m = sort h" using sm_nonces_index [OF h(3)] by simp
    have nin: "?x \<notin> set h" using sm_nonces_set [OF "1.prems"] h(2) by simp
    have g: "map (sm_Get ?m) (filter (\<lambda>n. n < t) (sort h)) = map (sm_Get m) (filter (\<lambda>n. n < t) (sort h))"
      using nin by (auto simp: sm_Get_def lookup_del)
    have d: "Mapping.filter (\<lambda>n tx. \<not> n < t) (Mapping.delete ?x (sm_items m)) = Mapping.filter (\<lambda>n tx. \<not> n < t) (sm_items m)"
      by (rule mapping_eqI) (use False in \<open>auto simp: lookup_filter lookup_del split: option.split\<close>)
    show ?thesis using 1(1) [of "(?x, h)" ?x h] False h n g d by (subst forward_loop.simps) simp
  qed
qed

lemma sm_Forward_spec:
  assumes "sm_inv m"
  shows "\<exists>m'. sm_Forward t m = Some (map (sm_Get m) (filter (\<lambda>n. n < t) (sm_nonces m)), m') \<and> sm_inv m' \<and>
    sm_items m' = Mapping.filter (\<lambda>n tx. \<not> n < t) (sm_items m)"
proof -
  have core: "sm_core m" using assms by (simp add: sm_inv_def)
  let ?r = "filter (\<lambda>n. n < t) (sm_nonces m)"
  obtain m' where m': "forward_loop t [] m = Some (map (sm_Get m) ?r, m')" "sm_items m' = Mapping.filter (\<lambda>n tx. \<not> n < t) (sm_items m)"
      "sm_cache m' = sm_cache m" "sm_core m'" "sm_nonces m' = filter (\<lambda>n. \<not> n < t) (sm_nonces m)"
    using forward_loop_spec [OF core, of t "[]"] by auto
  show ?thesis
  proof (cases "sm_cache m")
    case None
    then show ?thesis using m' by (simp add: sm_Forward_def sm_inv_def)
  next
    case (Some c)
    then have c: "c = map (\<lambda>n. the (sm_Get m n)) (sm_nonces m)" using assms by (simp add: sm_inv_def sm_sorted_def)
    have "drop (length ?r) c = sm_sorted m'"
      using drop_less [of "sm_nonces m" t] sm_nonces_set [OF core] by (simp add: c drop_map nonces_filter(2) [OF core m'(2)] m'(5))
    then show ?thesis using m' Some c length_filter_le [of "\<lambda>n. n < t" "sm_nonces m"]
      by (simp add: sm_Forward_def sm_inv_def linorder_not_less)
  qed
qed

text \<open>How many nonces follow each other from \<open>n\<close> on.\<close>

fun run_length :: "u64 \<Rightarrow> u64 list \<Rightarrow> nat" where
  "run_length n [] = 0"
| "run_length n (x # xs) = (if x = n then Suc (run_length (n + 1) xs) else 0)"

lemma ready_loop_spec:
  assumes "sm_core m"
  shows "\<exists>m'. ready_loop next ready m = Some (ready @ map (sm_Get m) (take (run_length next (sm_nonces m)) (sm_nonces m)), m') \<and>
    sm_core m' \<and> sm_items m' = Mapping.filter (\<lambda>n tx. n \<notin> set (take (run_length next (sm_nonces m)) (sm_nonces m))) (sm_items m)"
  using assms
proof (induction "next" ready m rule: ready_loop.induct)
  case (1 "next" ready m)
  show ?case
  proof (cases "sm_index m = [] \<or> sm_index m ! 0 \<noteq> next")
    case True
    have "run_length next (sm_nonces m) = 0"
    proof (cases "sm_index m = []")
      case False
      then show ?thesis using True sm_pop [OF "1.prems"] by auto
    qed (use sm_nonces_index [OF "1.prems"] in simp)
    then show ?thesis using True "1.prems" by (subst ready_loop.simps) simp
  next
    case False
    then have e: "sm_index m ! 0 = next" by simp
    obtain h where h: "heap_Pop nonce_less (sm_index m) = Some (next, h)" "sm_nonces m = next # sort h"
        "sm_core (m\<lparr>sm_items := Mapping.delete next (sm_items m), sm_index := h\<rparr>)"
      using sm_pop [OF "1.prems"] False e by auto
    let ?m = "m\<lparr>sm_items := Mapping.delete next (sm_items m), sm_index := h\<rparr>"
    let ?k = "run_length (next + 1) (sort h)"
    have n: "sm_nonces ?m = sort h" using sm_nonces_index [OF h(3)] by simp
    have nin: "next \<notin> set h" using sm_nonces_set [OF "1.prems"] h(2) by simp
    then have nin': "next \<notin> set (take ?k (sort h))" using in_set_takeD by (metis set_sort)
    have g: "map (sm_Get ?m) (take ?k (sort h)) = map (sm_Get m) (take ?k (sort h))"
      using nin' by (auto simp: sm_Get_def lookup_del)
    have d: "Mapping.filter (\<lambda>n tx. n \<notin> set (take ?k (sort h))) (Mapping.delete next (sm_items m)) =
        Mapping.filter (\<lambda>n tx. n \<notin> insert next (set (take ?k (sort h)))) (sm_items m)"
      by (rule mapping_eqI) (auto simp: lookup_filter lookup_del split: option.split)
    show ?thesis using 1(1) [of "(next, h)" "next" h] False e h n g d by (subst ready_loop.simps) simp
  qed
qed

text \<open>What is ready from \<open>start\<close> on: the first nonces that follow each other, unless they start later.\<close>

definition ready_count :: "u64 \<Rightarrow> u64 list \<Rightarrow> nat" where
  "ready_count start ns = (if ns = [] \<or> hd ns > start then 0 else run_length (hd ns) ns)"

lemma sm_Ready_spec:
  assumes "sm_inv m"
  shows "\<exists>m'. sm_Ready start m = Some (map (sm_Get m) (take (ready_count start (sm_nonces m)) (sm_nonces m)), m') \<and> sm_inv m' \<and>
    sm_items m' = Mapping.filter (\<lambda>n tx. n \<notin> set (take (ready_count start (sm_nonces m)) (sm_nonces m))) (sm_items m)"
proof -
  have core: "sm_core m" using assms by (simp add: sm_inv_def)
  have nil: "sm_index m = [] \<longleftrightarrow> sm_nonces m = []"
    using sm_nonces_index [OF core] by (metis length_0_conv length_sort)
  have hd: "sm_index m \<noteq> [] \<Longrightarrow> sm_index m ! 0 = hd (sm_nonces m)" using sm_pop [OF core] by auto
  show ?thesis
  proof (cases "sm_nonces m = [] \<or> hd (sm_nonces m) > start")
    case True
    then show ?thesis using assms nil hd by (auto simp: sm_Ready_def ready_count_def)
  next
    case False
    then show ?thesis using ready_loop_spec [OF core, of "hd (sm_nonces m)" "[]"] nil hd
      by (auto simp: sm_Ready_def ready_count_def sm_inv_def)
  qed
qed

lemma cap_loop_spec:
  "distinct xs \<Longrightarrow> n \<le> length xs \<Longrightarrow> cap_loop xs t items n =
    Some (map (Mapping.lookup items) (rev (drop t (take n xs))), Mapping.filter (\<lambda>k tx. k \<notin> set (drop t (take n xs))) items)"
proof (induction n arbitrary: items)
  case 0
  then show ?case by simp
next
  case (Suc n)
  show ?case
  proof (cases "t < Suc n")
    case True
    have d: "drop t (take (Suc n) xs) = drop t (take n xs) @ [xs ! n]"
      using True Suc.prems(2) by (simp add: take_Suc_conv_app_nth)
    have nin: "xs ! n \<notin> set (drop t (take n xs))"
    proof
      assume "xs ! n \<in> set (drop t (take n xs))"
      then have "xs ! n \<in> set (take n xs)" by (rule in_set_dropD)
      then obtain i where "i < n" "xs ! i = xs ! n" using Suc.prems(2) by (auto simp: in_set_conv_nth)
      then show False using Suc.prems by (simp add: nth_eq_iff_index_eq)
    qed
    have f: "Mapping.filter (\<lambda>k tx. k \<notin> set (drop t (take n xs))) (Mapping.delete (xs ! n) items) =
        Mapping.filter (\<lambda>k tx. k \<noteq> xs ! n \<and> k \<notin> set (drop t (take n xs))) items"
      by (rule mapping_eqI) (auto simp: lookup_filter lookup_del split: option.split)
    have l: "map (Mapping.lookup (Mapping.delete (xs ! n) items)) (rev (drop t (take n xs))) =
        map (Mapping.lookup items) (rev (drop t (take n xs)))"
      using nin by (auto simp: lookup_del)
    show ?thesis using Suc.IH [OF Suc.prems(1), of "Mapping.delete (xs ! n) items"] Suc.prems(2) True
      by (simp add: d f l del: take_Suc)
  next
    case False
    then show ?thesis by simp
  qed
qed

lemma sm_Cap_spec:
  assumes "sm_inv m"
  shows "\<exists>m'. sm_Cap t m = Some (map (sm_Get m) (rev (drop t (sm_nonces m))), m') \<and> sm_inv m' \<and>
    sm_items m' = Mapping.filter (\<lambda>n tx. n \<notin> set (drop t (sm_nonces m))) (sm_items m)"
proof (cases "length (sm_nonces m) \<le> t")
  case True
  then show ?thesis using assms sm_Len_nonces by (auto simp: sm_Cap_def sm_inv_def)
next
  case False
  let ?ns = "sm_nonces m"
  have core: "sm_core m" using assms by (simp add: sm_inv_def)
  note ns = sm_nonces_set [OF core]
  let ?items = "Mapping.filter (\<lambda>n tx. n \<notin> set (drop t ?ns)) (sm_items m)"
  let ?m = "m\<lparr>sm_items := ?items, sm_index := heap_Init nonce_less (take t ?ns)\<rparr>"
  have loop: "cap_loop ?ns t (sm_items m) (length ?ns) = Some (map (sm_Get m) (rev (drop t ?ns)), ?items)"
    using cap_loop_spec [of ?ns "length ?ns" t "sm_items m"] ns by (simp add: sm_Get_def [abs_def])
  have disj: "set (take t ?ns) \<inter> set (drop t ?ns) = {}" using ns by (simp add: set_take_disj_set_drop_if_distinct)
  have un: "set (take t ?ns) \<union> set (drop t ?ns) = Mapping.keys (sm_items m)" using ns by (metis append_take_drop_id set_append)
  have idx: "mset (sm_index ?m) = mset (take t ?ns)" "heap_ordered nonce_less (sm_index ?m)"
    using nonce.init_items nonce.init_ordered by simp_all
  have keys: "Mapping.keys ?items = set (take t ?ns)"
    using disj un unfolding keys_filter by blast
  have "distinct (sm_index ?m)" using idx(1) ns by (metis distinct_take mset_eq_imp_distinct_iff)
  moreover have "set (sm_index ?m) = set (take t ?ns)" using idx(1) by (metis set_mset_mset)
  moreover have "sm_Get ?m n = Some tx \<longrightarrow> tn_Nonce tx = n" for n tx
    using core by (auto simp: sm_core_def sm_Get_def lookup_filter split: option.splits if_splits)
  ultimately have core': "sm_core ?m" using idx(2) keys by (simp add: sm_core_def)
  have "sm_nonces ?m = take t ?ns" "sm_sorted ?m = map (\<lambda>n. the (sm_Get m n)) (sm_nonces ?m)"
    using nonces_filter [OF core, of ?m "\<lambda>n tx. n \<notin> set (drop t ?ns)"] filter_not_dropped [of ?ns t] ns by simp_all
  then have sorted: "sm_sorted ?m = take t (sm_sorted m)" by (simp add: sm_sorted_def [of m] take_map)
  show ?thesis
  proof (cases "sm_cache m")
    case None
    then show ?thesis using False loop core' by (simp add: sm_Cap_def sm_Len_nonces [OF core] sm_nonces_index [OF core, symmetric] sm_inv_def Let_def)
  next
    case (Some c)
    then have "c = sm_sorted m" using assms by (simp add: sm_inv_def)
    then show ?thesis using False loop core' Some sorted
      by (simp add: sm_Cap_def sm_Len_nonces [OF core] sm_nonces_index [OF core, symmetric] sm_inv_def Let_def sm_sorted_def)
  qed
qed

lemma reheap_inv:
  assumes "\<And>n tx. sm_Get m n = Some tx \<Longrightarrow> tn_Nonce tx = n" "ranges order m"
  shows "sm_inv (reheap order m)"
proof -
  let ?ns = "filter (\<lambda>nonce. sm_Get m nonce \<noteq> None) order"
  have m: "mset (heap_Init nonce_less ?ns) = mset ?ns" "heap_ordered nonce_less (heap_Init nonce_less ?ns)"
    using nonce.init_items nonce.init_ordered by auto
  have "distinct (heap_Init nonce_less ?ns)" using m(1) assms(2) by (metis distinct_filter mset_eq_imp_distinct_iff ranges_def)
  moreover have "set (heap_Init nonce_less ?ns) = Mapping.keys (sm_items m)"
    using arg_cong [OF m(1), of set_mset] assms(2) keys_Get by (auto simp: ranges_def)
  moreover have "sm_Get (reheap order m) = sm_Get m" by (simp add: reheap_def sm_Get_def fun_eq_iff)
  ultimately show ?thesis using assms(1) m(2) by (simp add: sm_inv_def sm_core_def reheap_def)
qed

lemma set_visited: "set (List.map_filter g xs) = {y. \<exists>x \<in> set xs. g x = Some y}"
  by (induction xs) (auto simp: List.map_filter_simps split: option.splits)

lemma sm_filter_spec:
  assumes "ranges order m" "sm_filter_items f order m = (removed, m')"
  shows "sm_items m' = Mapping.filter (\<lambda>n tx. \<not> f tx) (sm_items m)" "sm_index m' = sm_index m"
    "set removed = {tx. \<exists>n. sm_Get m n = Some tx \<and> f tx}" "removed = [] \<Longrightarrow> m' = m"
proof -
  have rm: "removed = filter f (List.map_filter (sm_Get m) order)"
    and m': "m' = m\<lparr>sm_items := Mapping.filter (\<lambda>nonce tx. \<not> (nonce \<in> set order \<and> f tx)) (sm_items m),
      sm_cache := (if removed \<noteq> [] then None else sm_cache m)\<rparr>"
    using assms(2) by (auto simp: sm_filter_items_def Let_def)
  have all: "n \<in> set order" if "sm_Get m n = Some tx" for n tx
    using assms(1) that keys_Get [of n m] by (auto simp: ranges_def)
  show i: "sm_items m' = Mapping.filter (\<lambda>n tx. \<not> f tx) (sm_items m)" unfolding m'
    using all by (auto intro!: mapping_eqI simp: lookup_filter sm_Get_def split: option.splits)
  show "sm_index m' = sm_index m" by (simp add: m')
  show r: "set removed = {tx. \<exists>n. sm_Get m n = Some tx \<and> f tx}" using all by (auto simp: rm set_visited)
  show "m' = m" if "removed = []"
  proof -
    have "\<not> f tx" if "sm_Get m n = Some tx" for n tx using r that \<open>removed = []\<close> by auto
    then have "sm_items m' = sm_items m" unfolding i
      by (auto intro!: mapping_eqI simp: lookup_filter sm_Get_def split: option.splits)
    then show ?thesis using m' that by simp
  qed
qed

lemma filter_keyed:
  assumes "sm_core m" "sm_items m' = Mapping.filter P (sm_items m)" "sm_Get m' n = Some tx"
  shows "tn_Nonce tx = n" "sm_Get m n = Some tx" "P n tx"
  using assms by (auto simp: sm_core_def sm_Get_def lookup_filter split: option.splits if_splits)

lemma sm_Filter_spec:
  assumes "sm_inv m" "ranges o1 m" "ranges o2 m" "sm_Filter f o1 o2 m = (removed, m')"
  shows "sm_inv m' \<and> sm_items m' = Mapping.filter (\<lambda>n tx. \<not> f tx) (sm_items m) \<and>
    set removed = {tx. \<exists>n. sm_Get m n = Some tx \<and> f tx} \<and> (removed = [] \<longrightarrow> m' = m)"
proof -
  obtain m1 where m1: "sm_filter_items f o1 m = (removed, m1)" "m' = (if removed \<noteq> [] then reheap o2 m1 else m1)"
    using assms(4) by (auto simp: sm_Filter_def split: prod.splits)
  note spec = sm_filter_spec [OF assms(2) m1(1)]
  have core: "sm_core m" using assms(1) by (simp add: sm_inv_def)
  show ?thesis
  proof (cases "removed = []")
    case True
    then show ?thesis using spec m1 assms(1) by auto
  next
    case False
    have "ranges o2 m1" using assms(3) spec(1) by (auto simp: ranges_def keys_dom_lookup lookup_filter split: option.splits)
    then have "sm_inv (reheap o2 m1)" using filter_keyed(1) [OF core spec(1)] by (intro reheap_inv)
    then show ?thesis using spec m1(2) False by (simp add: reheap_def)
  qed
qed

lemma find_index_spec: "n \<in> set xs \<Longrightarrow> \<exists>i. find_index n xs = Some i \<and> i < length xs \<and> xs ! i = n"
  by (induction xs) auto

lemma sm_Remove_spec:
  assumes "sm_inv m" "sm_Remove n m = (found, m')"
  shows "sm_inv m' \<and> (found \<longleftrightarrow> sm_Get m n \<noteq> None) \<and> sm_items m' = Mapping.filter (\<lambda>k tx. k \<noteq> n) (sm_items m)"
proof (cases "sm_Get m n = None")
  case True
  then have "Mapping.filter (\<lambda>k tx. k \<noteq> n) (sm_items m) = sm_items m"
    by (intro mapping_eqI) (auto simp: lookup_filter sm_Get_def split: option.splits)
  then show ?thesis using True assms by (simp add: sm_Remove_def)
next
  case False
  have core: "sm_core m" using assms(1) by (simp add: sm_inv_def)
  have "n \<in> set (sm_index m)" using False core keys_Get by (simp add: sm_core_def)
  then obtain i where i: "find_index n (sm_index m) = Some i" "i < length (sm_index m)" "sm_index m ! i = n"
    using find_index_spec by blast
  obtain h where h: "heap_Remove nonce_less (sm_index m) i = Some (n, h)" "heap_ordered nonce_less h" "mset (sm_index m) = add_mset n (mset h)"
    using nonce.remove_item [of "sm_index m" i] core i by (auto simp: sm_core_def)
  have "set (sm_index m) = insert n (set h)" using h(3) by (metis set_mset_mset set_mset_add_mset_insert)
  moreover have "distinct (n # h)" using core h(3) mset_eq_imp_distinct_iff [of "n # h" "sm_index m"] by (simp add: sm_core_def)
  ultimately have k: "set h = {k \<in> Mapping.keys (sm_items m). k \<noteq> n}" "distinct h" using core by (auto simp: sm_core_def)
  have d: "Mapping.delete n (sm_items m) = Mapping.filter (\<lambda>k tx. k \<noteq> n) (sm_items m)"
    by (rule mapping_eqI) (auto simp: lookup_filter lookup_del split: option.split)
  have m': "m' = m\<lparr>sm_items := Mapping.filter (\<lambda>k tx. k \<noteq> n) (sm_items m), sm_index := h, sm_cache := None\<rparr>" "found"
    using assms(2) False i h(1) d by (simp_all add: sm_Remove_def)
  have "tn_Nonce tx = k" if "sm_Get m' k = Some tx" for k tx
    using filter_keyed(1) [OF core _ that] m'(1) by simp
  then show ?thesis using m' h(2) k False by (simp add: sm_inv_def sm_core_def keys_filter)
qed

lemma sm_Put_inv:
  assumes "sm_inv m"
  shows "sm_inv (sm_Put tx m)"
proof -
  let ?n = "tn_Nonce tx" and ?m = "sm_Put tx m"
  have core: "sm_core m" using assms by (simp add: sm_inv_def)
  have push: "heap_ordered nonce_less (heap_Push nonce_less (sm_index m) ?n)"
    "mset (heap_Push nonce_less (sm_index m) ?n) = add_mset ?n (mset (sm_index m))"
    using nonce.push_ordered nonce.push_items core by (auto simp: sm_core_def)
  have idx: "heap_ordered nonce_less (sm_index ?m)" "mset (sm_index ?m) = (if sm_Get m ?n = None then add_mset ?n else id) (mset (sm_index m))"
    using push core by (simp_all add: sm_Put_def Let_def sm_core_def)
  have "set (sm_index ?m) = insert ?n (set (sm_index m))"
    using arg_cong [OF idx(2), of set_mset] core keys_Get [of ?n m] by (auto simp: sm_core_def split: if_splits)
  moreover have "distinct (sm_index ?m)"
    using idx(2) core keys_Get [of ?n m] mset_eq_imp_distinct_iff [of "sm_index ?m" "?n # sm_index m"]
      mset_eq_imp_distinct_iff [of "sm_index ?m" "sm_index m"] by (auto simp: sm_core_def split: if_splits)
  ultimately have "sm_core ?m" using idx(1) core
    by (auto simp: sm_core_def sm_Put_def Let_def sm_Get_def lookup_update')
  then show ?thesis by (simp add: sm_inv_def sm_Put_def Let_def)
qed

lemma sm_flatten_spec:
  assumes "sm_inv m" "ranges order m"
  shows "sm_flatten order m = (sm_sorted m, m\<lparr>sm_cache := Some (sm_sorted m)\<rparr>)"
proof (cases "sm_cache m")
  case None
  have core: "sm_core m" using assms(1) by (simp add: sm_inv_def)
  let ?ns = "filter (\<lambda>n. sm_Get m n \<noteq> None) order" and ?g = "\<lambda>n. the (sm_Get m n)"
  note ns = sm_nonces_set [OF core]
  have key: "tn_Nonce (?g n) = n" if "n \<in> Mapping.keys (sm_items m)" for n
    using that core keys_Get [of n m] by (auto simp: sm_core_def)
  have set: "set ?ns = Mapping.keys (sm_items m)" using assms(2) keys_Get by (auto simp: ranges_def)
  have v: "List.map_filter (sm_Get m) order = map ?g ?ns" by (simp add: List.map_filter_def comp_def)
  have "sort_key tn_Nonce (map ?g ?ns) = map ?g (sm_nonces m)"
  proof (rule sort_key_inj_key_eq)
    have "distinct ?ns" using assms(2) by (simp add: ranges_def)
    then have "mset ?ns = mset (sm_nonces m)" using set ns set_eq_iff_mset_eq_distinct [of ?ns "sm_nonces m"] by metis
    then show "mset (map ?g ?ns) = mset (map ?g (sm_nonces m))" by (simp only: mset_map)
    show "inj_on tn_Nonce (set (map ?g ?ns))" using key set by (auto simp: inj_on_def)
    have "map tn_Nonce (map ?g (sm_nonces m)) = sm_nonces m" using key ns by (auto simp: comp_def intro!: map_idI)
    then show "sorted (map tn_Nonce (map ?g (sm_nonces m)))" using ns by simp
  qed
  then have "sort_key tn_Nonce (List.map_filter (sm_Get m) order) = sm_sorted m" using v by (simp add: sm_sorted_def)
  then show ?thesis using None by (simp add: sm_flatten_def Let_def)
next
  case (Some c)
  then show ?thesis using assms(1) by (auto simp: sm_flatten_def sm_inv_def)
qed

section \<open>Lists\<close>

abbreviation all_ranges :: "u64 list \<times> u64 list \<times> u64 list \<times> u64 list \<Rightarrow> txsSortedMap \<Rightarrow> bool" where
  "all_ranges os m \<equiv> (case os of (o1, o2, o3, o4) \<Rightarrow> ranges o1 m \<and> ranges o2 m \<and> ranges o3 m \<and> ranges o4 m)"

inductive list_reach :: "txsList \<Rightarrow> bool" where
  reach_new: "list_reach (newTxsList strict)"
| reach_add: "list_reach l \<Longrightarrow> list_reach (snd (txl_Add tx priceBump l))"
| reach_forward: "list_reach l \<Longrightarrow> txl_Forward t l = Some (removed, l') \<Longrightarrow> list_reach l'"
| reach_filter: "list_reach l \<Longrightarrow> all_ranges orders (txl_txs l) \<Longrightarrow> list_reach (snd (txl_Filter c g orders l))"
| reach_cap: "list_reach l \<Longrightarrow> txl_Cap k l = Some (drops, l') \<Longrightarrow> list_reach l'"
| reach_remove: "list_reach l \<Longrightarrow> ranges o1 (txl_txs l) \<Longrightarrow> ranges o2 (txl_txs l) \<Longrightarrow> list_reach (snd (txl_Remove tx (o1, o2) l))"
| reach_ready: "list_reach l \<Longrightarrow> txl_Ready start l = Some (ready, l') \<Longrightarrow> list_reach l'"
| reach_flatten: "list_reach l \<Longrightarrow> ranges order (txl_txs l) \<Longrightarrow> list_reach (snd (txl_Flatten order l))"

lemma ranges_filter: "sm_items m' = Mapping.filter P (sm_items m) \<Longrightarrow> ranges order m \<Longrightarrow> ranges order m'"
  by (auto simp: ranges_def keys_dom_lookup lookup_filter split: option.splits)

text \<open>What is left after \<open>Filter\<close>: what the account affords, in a strict list up to the first it does not.\<close>

lemma lowest_step:
  defines "low \<equiv> foldl (\<lambda>lowest tx. if lowest > tn_Nonce tx then tn_Nonce tx else lowest)"
  shows "low a txs \<le> a \<and> (\<forall>tx \<in> set txs. low a txs \<le> tn_Nonce tx) \<and> (low a txs = a \<or> low a txs \<in> tn_Nonce ` set txs)"
proof (induction txs arbitrary: a)
  case Nil
  then show ?case by (simp add: low_def)
next
  case (Cons tx txs)
  define b where "b = (if a > tn_Nonce tx then tn_Nonce tx else a)"
  have e: "low a (tx # txs) = low b txs" and b: "b \<le> a" "b \<le> tn_Nonce tx" "b = a \<or> b = tn_Nonce tx"
    by (auto simp: low_def b_def)
  show ?case unfolding e using Cons [of b] b order_trans [of "low b txs" b] by auto
qed

lemma lowest_spec:
  assumes "removed \<noteq> []"
  shows "foldl (\<lambda>lowest tx. if lowest > tn_Nonce tx then tn_Nonce tx else lowest) 0xFFFFFFFFFFFFFFFF removed < n \<longleftrightarrow>
    (\<exists>tx \<in> set removed. tn_Nonce tx < n)" (is "?low < n \<longleftrightarrow> _")
proof -
  define low where "low = ?low"
  have l: "low \<le> tn_Nonce tx" if "tx \<in> set removed" for tx using lowest_step [of _ removed] that by (simp add: low_def)
  obtain r where r: "r \<in> set removed" "tn_Nonce r = low"
  proof (cases "low = 0xFFFFFFFFFFFFFFFF")
    case True
    obtain tx where tx: "tx \<in> set removed" using assms by (cases removed) auto
    have "tn_Nonce tx \<le> 0xFFFFFFFFFFFFFFFF" using unsigned_less [of "tn_Nonce tx", where ?'a = nat] by (simp add: word_le_nat_alt)
    then show thesis using that [OF tx] l [OF tx] True by simp
  next
    case False
    then have "low \<in> tn_Nonce ` set removed" using lowest_step [of "0xFFFFFFFFFFFFFFFF" removed] by (simp add: low_def)
    then show thesis using that by auto
  qed
  show ?thesis unfolding low_def [symmetric] using r l order_le_less_trans by blast
qed

lemma strict_filter:
  assumes "sm_inv m" "ranges o3 m" "sm_items m1 = Mapping.filter (\<lambda>n tx. \<not> f tx) (sm_items m)"
    and "set removed = {tx. \<exists>n. sm_Get m n = Some tx \<and> f tx}" "removed \<noteq> []"
    and "sm_filter_items (\<lambda>tx. tn_Nonce tx > foldl (\<lambda>lowest tx. if lowest > tn_Nonce tx then tn_Nonce tx else lowest)
      0xFFFFFFFFFFFFFFFF removed) o3 m1 = (invalids, m2)"
  shows "sm_items m2 = Mapping.filter (\<lambda>n tx. \<not> f tx \<and> (\<forall>r \<in> set removed. n < tn_Nonce r)) (sm_items m)"
proof (rule mapping_eqI)
  fix n
  have core: "sm_core m" using assms(1) by (simp add: sm_inv_def)
  have i: "sm_items m2 = Mapping.filter (\<lambda>n tx. \<not> (\<exists>r \<in> set removed. tn_Nonce r < tn_Nonce tx)) (sm_items m1)"
    using sm_filter_spec(1) [OF ranges_filter [OF assms(3,2)] assms(6)] unfolding lowest_spec [OF assms(5)] .
  show "Mapping.lookup (sm_items m2) n = Mapping.lookup (Mapping.filter (\<lambda>n tx. \<not> f tx \<and> (\<forall>r \<in> set removed. n < tn_Nonce r)) (sm_items m)) n"
  proof (cases "sm_Get m n")
    case (Some tx)
    have "(\<forall>r \<in> set removed. n < tn_Nonce r) \<longleftrightarrow> \<not> (\<exists>r \<in> set removed. tn_Nonce r < tn_Nonce tx)" if "\<not> f tx"
    proof -
      have "tn_Nonce tx = n" using core Some by (simp add: sm_core_def)
      moreover have "tn_Nonce r \<noteq> n" if "r \<in> set removed" for r
        using that assms(4) core Some \<open>\<not> f tx\<close> by (auto simp: sm_core_def)
      ultimately show ?thesis by (fastforce simp: not_less order_le_less)
    qed
    then show ?thesis using Some by (auto simp: i assms(3) lookup_filter sm_Get_def)
  qed (simp add: i assms(3) lookup_filter sm_Get_def)
qed

lemma txl_Filter_spec:
  assumes "sm_inv (txl_txs l)" "all_ranges orders (txl_txs l)" "txl_Filter c g orders l = ((removed, invalids), l')"
    and "\<not> (txl_costcap l \<le> c \<and> txl_gascap l \<le> g)"
  shows "sm_inv (txl_txs l') \<and> set removed = {tx. \<exists>n. sm_Get (txl_txs l) n = Some tx \<and> unaffordable c g tx} \<and>
    sm_items (txl_txs l') = Mapping.filter (\<lambda>n tx. \<not> unaffordable c g tx \<and>
      (txl_strict l \<longrightarrow> (\<forall>r \<in> set removed. n < tn_Nonce r))) (sm_items (txl_txs l))"
proof -
  obtain o1 o2 o3 o4 where os: "orders = (o1, o2, o3, o4)" by (cases orders)
  have r: "ranges o1 (txl_txs l)" "ranges o2 (txl_txs l)" "ranges o3 (txl_txs l)" "ranges o4 (txl_txs l)" using assms(2) os by auto
  have core: "sm_core (txl_txs l)" using assms(1) by (simp add: sm_inv_def)
  obtain rm m1 where m1: "sm_Filter (unaffordable c g) o1 o2 (txl_txs l) = (rm, m1)" by fastforce
  note spec = sm_Filter_spec [OF assms(1) r(1,2) m1]
  show ?thesis
  proof (cases "rm = []")
    case True
    then show ?thesis using spec assms(3,4) m1 os by (auto simp: txl_Filter_def Let_def)
  next
    case False
    let ?low = "foldl (\<lambda>lowest tx. if lowest > tn_Nonce tx then tn_Nonce tx else lowest) 0xFFFFFFFFFFFFFFFF rm"
    obtain inv m2 where m2: "(if txl_strict l then sm_filter_items (\<lambda>tx. tn_Nonce tx > ?low) o3 m1 else ([], m1)) = (inv, m2)"
      by fastforce
    have l': "removed = rm" "txl_txs l' = reheap o4 m2"
      using assms(3,4) False m1 m2 by (auto simp: txl_Filter_def Let_def os)
    have it: "sm_items m2 = Mapping.filter (\<lambda>n tx. \<not> unaffordable c g tx \<and> (txl_strict l \<longrightarrow> (\<forall>r \<in> set rm. n < tn_Nonce r))) (sm_items (txl_txs l))"
    proof (cases "txl_strict l")
      case True
      then show ?thesis using strict_filter [OF assms(1) r(3) _ _ False, of m1 "unaffordable c g" inv m2] spec m2 by simp
    next
      case False
      then show ?thesis using spec m2 by simp
    qed
    then have "sm_inv (reheap o4 m2)"
      using filter_keyed(1) [OF core it] ranges_filter [OF it r(4)] by (intro reheap_inv)
    then show ?thesis using l' it spec by (simp add: reheap_def)
  qed
qed

lemma txl_Remove_spec:
  assumes "sm_inv (txl_txs l)" "ranges o1 (txl_txs l)" "ranges o2 (txl_txs l)" "txl_Remove tx (o1, o2) l = ((found, invalids), l')"
  shows "sm_inv (txl_txs l') \<and> (found \<longleftrightarrow> sm_Get (txl_txs l) (tn_Nonce tx) \<noteq> None) \<and>
    (found \<longrightarrow> sm_items (txl_txs l') = Mapping.filter (\<lambda>n v. if txl_strict l then n < tn_Nonce tx else n \<noteq> tn_Nonce tx)
      (sm_items (txl_txs l))) \<and> (\<not> found \<longrightarrow> sm_items (txl_txs l') = sm_items (txl_txs l))"
proof -
  let ?m = "txl_txs l" and ?n = "tn_Nonce tx"
  obtain f m1 where m1: "sm_Remove ?n ?m = (f, m1)" by fastforce
  note rem = sm_Remove_spec [OF assms(1) m1]
  show ?thesis
  proof (cases "f \<and> txl_strict l")
    case True
    obtain inv m2 where m2: "sm_Filter (\<lambda>tx. tn_Nonce tx > ?n) o1 o2 m1 = (inv, m2)" by fastforce
    have i: "sm_items m1 = Mapping.filter (\<lambda>k tx. k \<noteq> ?n) (sm_items ?m)" using rem by simp
    have fil: "sm_inv m2" "sm_items m2 = Mapping.filter (\<lambda>n tx. \<not> tn_Nonce tx > ?n) (sm_items m1)"
      using sm_Filter_spec [OF _ ranges_filter [OF i assms(2)] ranges_filter [OF i assms(3)] m2] rem by simp_all
    have "sm_items m2 = Mapping.filter (\<lambda>n v. n < ?n) (sm_items ?m)"
    proof (rule mapping_eqI)
      fix n
      have "tn_Nonce v = n" if "Mapping.lookup (sm_items ?m) n = Some v" for v
        using assms(1) that by (auto simp: sm_inv_def sm_core_def sm_Get_def)
      then show "Mapping.lookup (sm_items m2) n = Mapping.lookup (Mapping.filter (\<lambda>n v. n < ?n) (sm_items ?m)) n"
        by (auto simp: fil(2) i lookup_filter split: option.split)
    qed
    then show ?thesis using True m1 m2 rem fil assms(4) by (auto simp: txl_Remove_def Let_def)
  next
    case False
    then show ?thesis using m1 rem assms(4) by (cases f) (auto simp: txl_Remove_def Let_def sm_Remove_def split: if_splits)
  qed
qed

lemma reach_inv: "list_reach l \<Longrightarrow> sm_inv (txl_txs l)"
proof (induction rule: list_reach.induct)
  case (reach_new strict)
  show ?case by (simp add: newTxsList_def newTxSortedMap_def sm_inv_def sm_core_def sm_Get_def nonce.ordered_Nil)
next
  case (reach_add l tx priceBump)
  then show ?case using sm_Put_inv by (simp add: txl_Add_def Let_def)
next
  case (reach_forward l t removed l')
  then show ?case using sm_Forward_spec [of "txl_txs l" t] by (auto simp: txl_Forward_def)
next
  case (reach_filter l orders c g)
  obtain r i l' where e: "txl_Filter c g orders l = ((r, i), l')" by (cases "txl_Filter c g orders l") fastforce
  show ?case
  proof (cases "txl_costcap l \<le> c \<and> txl_gascap l \<le> g")
    case True
    then show ?thesis using reach_filter by (simp add: txl_Filter_def)
  qed (use txl_Filter_spec [OF reach_filter(3,2) e] e in simp)
next
  case (reach_cap l k drops l')
  then show ?case using sm_Cap_spec [of "txl_txs l" k] by (auto simp: txl_Cap_def)
next
  case (reach_remove l o1 o2 tx)
  obtain f i l' where e: "txl_Remove tx (o1, o2) l = ((f, i), l')" by (cases "txl_Remove tx (o1, o2) l") fastforce
  show ?case using txl_Remove_spec [OF reach_remove(4,2,3) e] e by simp
next
  case (reach_ready l start ready l')
  then show ?case using sm_Ready_spec [of "txl_txs l" start] by (auto simp: txl_Ready_def)
next
  case (reach_flatten l order)
  then show ?case using sm_flatten_spec [of "txl_txs l" order] by (simp add: txl_Flatten_def sm_inv_def)
qed

section \<open>Properties\<close>

lemma filter_not_taken: "distinct xs \<Longrightarrow> filter (\<lambda>x. x \<notin> set (take t xs)) xs = drop t xs"
proof -
  assume "distinct xs"
  then have "set (take t xs) \<inter> set (drop t xs) = {}" by (simp add: set_take_disj_set_drop_if_distinct)
  then have "filter (\<lambda>x. x \<notin> set (take t xs)) (drop t xs) = drop t xs" "filter (\<lambda>x. x \<notin> set (take t xs)) (take t xs) = []"
    by (auto simp: filter_id_conv filter_empty_conv)
  then show ?thesis by (metis append_Nil append_take_drop_id filter_append)
qed

text \<open>Three transactions of an account, with the nonces 5, 6 and 8.\<close>

definition demo_tx :: "u64 \<Rightarrow> Transaction" where
  "demo_tx n = \<lparr>tn_Hash = ucast n, tn_Fees = LegacyTx 10, tn_From = Some 9, tn_To = Some 7, tn_Nonce = n, tn_Gas = 21000,
     tn_Value = 0, tn_Data = [], tn_AccessList = []\<rparr>"

definition demo_list :: txsList where
  "demo_list = snd (txl_Add (demo_tx 8) 10 (snd (txl_Add (demo_tx 6) 10 (snd (txl_Add (demo_tx 5) 10 (newTxsList True))))))"

lemma demo_list_reach: "list_reach demo_list"
  unfolding demo_list_def by (intro reach_add reach_new)

lemma demo_list_items:
  "sm_items (txl_txs demo_list) = Mapping.update 8 (demo_tx 8) (Mapping.update 6 (demo_tx 6) (Mapping.update 5 (demo_tx 5) Mapping.empty))"
  "txl_strict demo_list"
  by (simp_all add: demo_list_def txl_Add_def newTxsList_def newTxSortedMap_def sm_Put_def sm_Get_def demo_tx_def lookup_update' lookup_empty Let_def)

lemma demo_list_ranges: "ranges [6, 8, 5] (txl_txs demo_list)"
  by (simp add: ranges_def demo_list_items)

lemma demo_list_nonces: "sm_nonces (txl_txs demo_list) = [5, 6, 8]"
  by (simp add: sm_nonces_def demo_list_items)

text \<open>
  C34: in every list the operations of the pool produce, the heap is a heap of exactly the nonces in the map,
  each once, every transaction is filed under its own nonce, and the cache, when there is one, holds
  the transactions in the order of their nonces.
\<close>

theorem list_invariant:
  assumes "list_reach l"
  shows "heap_ordered nonce_less (sm_index (txl_txs l)) \<and> distinct (sm_index (txl_txs l)) \<and>
    set (sm_index (txl_txs l)) = Mapping.keys (sm_items (txl_txs l)) \<and>
    (\<forall>n tx. sm_Get (txl_txs l) n = Some tx \<longrightarrow> tn_Nonce tx = n) \<and>
    (\<forall>c. sm_cache (txl_txs l) = Some c \<longrightarrow> c = sm_sorted (txl_txs l))"
  using reach_inv [OF assms] by (simp add: sm_inv_def sm_core_def)

theorem list_invariant_witness: "distinct (sm_index (txl_txs demo_list)) \<and> set (sm_index (txl_txs demo_list)) = {5, 6, 8}"
  using list_invariant [OF demo_list_reach] by (auto simp: demo_list_items)

text \<open>
  C35: the operations of a list return what they promise and never panic. Moving forward takes the
  nonces below the threshold; what is ready is the first run of consecutive nonces, if it does not
  start later than asked; cutting to a length drops the highest nonces, highest first; flattening gives
  all transactions. Each in the order of the nonces, and each keeps the others.
\<close>

theorem lists_in_nonce_order:
  assumes "list_reach l" "ranges order (txl_txs l)"
  defines "ns \<equiv> sm_nonces (txl_txs l)" and "get \<equiv> sm_Get (txl_txs l)"
  shows "(\<exists>l'. txl_Forward t l = Some (map get (filter (\<lambda>n. n < t) ns), l') \<and> sm_nonces (txl_txs l') = filter (\<lambda>n. \<not> n < t) ns) \<and>
    (\<exists>l'. txl_Ready start l = Some (map get (take (ready_count start ns) ns), l') \<and> sm_nonces (txl_txs l') = drop (ready_count start ns) ns) \<and>
    (\<exists>l'. txl_Cap k l = Some (map get (rev (drop k ns)), l') \<and> sm_nonces (txl_txs l') = take k ns) \<and>
    fst (txl_Flatten order l) = map (\<lambda>n. the (get n)) ns"
proof -
  let ?m = "txl_txs l"
  have inv: "sm_inv ?m" by (rule reach_inv [OF assms(1)])
  then have core: "sm_core ?m" by (simp add: sm_inv_def)
  have d: "distinct ns" using sm_nonces_set [OF core] by (simp add: ns_def)
  have n: "sm_items m' = Mapping.filter (\<lambda>n tx. P n) (sm_items ?m) \<Longrightarrow> sm_nonces m' = filter P ns" for m' P
    using nonces_filter(1) [OF core, of m' "\<lambda>n tx. P n"] by (simp add: ns_def)
  have "\<exists>l'. txl_Forward t l = Some (map get (filter (\<lambda>n. n < t) ns), l') \<and> sm_nonces (txl_txs l') = filter (\<lambda>n. \<not> n < t) ns"
    using sm_Forward_spec [OF inv, of t] n by (auto simp: txl_Forward_def ns_def get_def)
  moreover have "\<exists>l'. txl_Ready start l = Some (map get (take (ready_count start ns) ns), l') \<and>
      sm_nonces (txl_txs l') = drop (ready_count start ns) ns"
    using sm_Ready_spec [OF inv, of start] n filter_not_taken [OF d] by (auto simp: txl_Ready_def get_def simp flip: ns_def)
  moreover have "\<exists>l'. txl_Cap k l = Some (map get (rev (drop k ns)), l') \<and> sm_nonces (txl_txs l') = take k ns"
    using sm_Cap_spec [OF inv, of k] n filter_not_dropped [OF d] by (auto simp: txl_Cap_def get_def simp flip: ns_def)
  moreover have "fst (txl_Flatten order l) = map (\<lambda>n. the (get n)) ns"
    using sm_flatten_spec [OF inv assms(2)] by (simp add: txl_Flatten_def sm_sorted_def ns_def get_def)
  ultimately show ?thesis by blast
qed

theorem lists_in_nonce_order_witness:
  "(\<exists>l'. txl_Ready 5 demo_list = Some ([Some (demo_tx 5), Some (demo_tx 6)], l') \<and> sm_nonces (txl_txs l') = [8]) \<and>
   (\<exists>l'. txl_Cap 1 demo_list = Some ([Some (demo_tx 8), Some (demo_tx 6)], l') \<and> sm_nonces (txl_txs l') = [5])"
proof -
  have g: "sm_Get (txl_txs demo_list) n = (if n = 8 \<or> n = 6 \<or> n = 5 then Some (demo_tx n) else None)" for n
    by (simp add: sm_Get_def demo_list_items lookup_update' lookup_empty)
  show ?thesis using lists_in_nonce_order [OF demo_list_reach demo_list_ranges, of 0 5 1]
    by (simp add: demo_list_nonces ready_count_def g)
qed

text \<open>No nonce is missing between two that are there.\<close>

definition gapless :: "txsSortedMap \<Rightarrow> bool" where
  "gapless m \<longleftrightarrow> (\<forall>a \<in> Mapping.keys (sm_items m). \<forall>b \<in> Mapping.keys (sm_items m). \<forall>x. a \<le> x \<and> x \<le> b \<longrightarrow> x \<in> Mapping.keys (sm_items m))"

lemma gapless_part:
  assumes "gapless m" "Mapping.keys (sm_items m') = {n \<in> Mapping.keys (sm_items m). P n}"
    and "\<And>a b x. {a, b, x} \<subseteq> Mapping.keys (sm_items m) \<Longrightarrow> P a \<Longrightarrow> P b \<Longrightarrow> a \<le> x \<Longrightarrow> x \<le> b \<Longrightarrow> P x"
  shows "gapless m'"
  unfolding gapless_def
proof (intro ballI allI impI)
  fix a b x
  assume *: "a \<in> Mapping.keys (sm_items m')" "b \<in> Mapping.keys (sm_items m')" "a \<le> x \<and> x \<le> b"
  have ab: "a \<in> Mapping.keys (sm_items m)" "b \<in> Mapping.keys (sm_items m)" "P a" "P b" using * assms(2) by auto
  have x: "x \<in> Mapping.keys (sm_items m)" using assms(1) ab(1,2) *(3) unfolding gapless_def by blast
  show "x \<in> Mapping.keys (sm_items m')" using assms(3) [of a b x] ab x *(3) by (simp add: assms(2))
qed

lemma Filter_gapless:
  assumes "sm_inv (txl_txs l)" "txl_strict l" "gapless (txl_txs l)" "all_ranges orders (txl_txs l)"
  shows "gapless (txl_txs (snd (txl_Filter c g orders l)))"
proof (cases "txl_costcap l \<le> c \<and> txl_gascap l \<le> g")
  case False
  obtain r i l' where e: "txl_Filter c g orders l = ((r, i), l')" by (cases "txl_Filter c g orders l") fastforce
  note spec = txl_Filter_spec [OF assms(1,4) e False]
  have "Mapping.keys (sm_items (txl_txs l')) = {n \<in> Mapping.keys (sm_items (txl_txs l)). \<forall>x \<in> set r. n < tn_Nonce x}"
  proof (rule set_eqI)
    fix n
    have it: "sm_items (txl_txs l') = Mapping.filter (\<lambda>n tx. \<not> unaffordable c g tx \<and> (\<forall>x \<in> set r. n < tn_Nonce x)) (sm_items (txl_txs l))"
      using spec assms(2) by simp
    have "\<not> unaffordable c g tx" if tx: "sm_Get (txl_txs l) n = Some tx" "\<forall>x \<in> set r. n < tn_Nonce x" for tx
    proof
      assume "unaffordable c g tx"
      then have "tx \<in> set r" using spec tx(1) by blast
      moreover have "tn_Nonce tx = n" using assms(1) tx(1) by (simp add: sm_inv_def sm_core_def)
      ultimately show False using tx(2) by auto
    qed
    then show "n \<in> Mapping.keys (sm_items (txl_txs l')) \<longleftrightarrow> n \<in> {n \<in> Mapping.keys (sm_items (txl_txs l)). \<forall>x \<in> set r. n < tn_Nonce x}"
      unfolding it by (cases "sm_Get (txl_txs l) n") (auto simp: keys_dom_lookup lookup_filter sm_Get_def domIff)
  qed
  then have "gapless (txl_txs l')" by (rule gapless_part [OF assms(3)]) (meson order_le_less_trans)
  then show ?thesis using e by simp
qed (use assms in \<open>simp add: txl_Filter_def\<close>)

lemma Remove_gapless:
  assumes "sm_inv (txl_txs l)" "txl_strict l" "gapless (txl_txs l)" "ranges o1 (txl_txs l)" "ranges o2 (txl_txs l)"
  shows "gapless (txl_txs (snd (txl_Remove tx (o1, o2) l)))"
proof -
  obtain f i l' where e: "txl_Remove tx (o1, o2) l = ((f, i), l')" by (cases "txl_Remove tx (o1, o2) l") fastforce
  note spec = txl_Remove_spec [OF assms(1,4,5) e]
  have "gapless (txl_txs l')"
  proof (cases f)
    case True
    then have "sm_items (txl_txs l') = Mapping.filter (\<lambda>n v. n < tn_Nonce tx) (sm_items (txl_txs l))"
      using spec assms(2) by auto
    then have keys: "Mapping.keys (sm_items (txl_txs l')) = {n \<in> Mapping.keys (sm_items (txl_txs l)). n < tn_Nonce tx}"
      by (simp only: keys_filter)
    show ?thesis
    proof (rule gapless_part [OF assms(3) keys])
      fix a b x
      assume "b < tn_Nonce tx" "x \<le> b"
      then show "x < tn_Nonce tx" using order_le_less_trans by blast
    qed
  next
    case False
    then have "sm_items (txl_txs l') = sm_items (txl_txs l)" using spec by blast
    then show ?thesis using assms(3) by (simp only: gapless_def)
  qed
  then show ?thesis using e by simp
qed

lemma Forward_gapless:
  assumes "sm_inv (txl_txs l)" "gapless (txl_txs l)" "txl_Forward t l = Some (r, l')"
  shows "gapless (txl_txs l')"
proof -
  have "sm_items (txl_txs l') = Mapping.filter (\<lambda>n tx. \<not> n < t) (sm_items (txl_txs l))"
    using sm_Forward_spec [OF assms(1), of t] assms(3) by (auto simp: txl_Forward_def)
  then have keys: "Mapping.keys (sm_items (txl_txs l')) = {n \<in> Mapping.keys (sm_items (txl_txs l)). \<not> n < t}"
    by (simp only: keys_filter)
  show ?thesis
  proof (rule gapless_part [OF assms(2) keys])
    fix a b x
    assume "\<not> a < t" "a \<le> x"
    then show "\<not> x < t" using order_le_less_trans by blast
  qed
qed

lemma Cap_gapless:
  assumes "sm_inv (txl_txs l)" "gapless (txl_txs l)" "txl_Cap k l = Some (r, l')"
  shows "gapless (txl_txs l')"
proof -
  let ?ns = "sm_nonces (txl_txs l)"
  have core: "sm_core (txl_txs l)" using assms(1) by (simp add: sm_inv_def)
  note ns = sm_nonces_set [OF core]
  have "sm_items (txl_txs l') = Mapping.filter (\<lambda>n tx. n \<notin> set (drop k ?ns)) (sm_items (txl_txs l))"
    using sm_Cap_spec [OF assms(1), of k] assms(3) by (auto simp: txl_Cap_def)
  then have keys: "Mapping.keys (sm_items (txl_txs l')) = {n \<in> Mapping.keys (sm_items (txl_txs l)). n \<notin> set (drop k ?ns)}"
    by (simp only: keys_filter)
  have un: "set (take k ?ns) \<union> set (drop k ?ns) = Mapping.keys (sm_items (txl_txs l))"
    using ns set_append [of "take k ?ns" "drop k ?ns"] by simp
  have le: "a \<le> b" if "a \<in> set (take k ?ns)" "b \<in> set (drop k ?ns)" for a b
    using ns that sorted_append [of "take k ?ns" "drop k ?ns"] by simp
  have "x \<notin> set (drop k ?ns)" if x: "b \<in> Mapping.keys (sm_items (txl_txs l))" "b \<notin> set (drop k ?ns)" "x \<le> b" for b x
  proof
    assume "x \<in> set (drop k ?ns)"
    moreover have "b \<in> set (take k ?ns)" using x(1,2) un by blast
    ultimately have "x = b" using le x(3) by (simp add: order_antisym)
    then show False using x(2) \<open>x \<in> set (drop k ?ns)\<close> by simp
  qed
  then show ?thesis by (intro gapless_part [OF assms(2) keys]) (meson insert_subset)
qed

text \<open>
  C36: a strict list without gaps stays without gaps: removing a transaction takes the later ones with it,
  so does removing what the account cannot afford, moving forward cuts below a nonce, and cutting to a length
  above one. The list is reached by its operations, and the orders are those in which Go may range over its map.
\<close>

theorem strict_list_gapless:
  assumes "list_reach l" "txl_strict l" "gapless (txl_txs l)" "all_ranges (o1, o2, o3, o4) (txl_txs l)"
  shows "gapless (txl_txs (snd (txl_Filter c g (o1, o2, o3, o4) l))) \<and>
    gapless (txl_txs (snd (txl_Remove tx (o1, o2) l))) \<and>
    (\<forall>t r l'. txl_Forward t l = Some (r, l') \<longrightarrow> gapless (txl_txs l')) \<and>
    (\<forall>k r l'. txl_Cap k l = Some (r, l') \<longrightarrow> gapless (txl_txs l'))"
proof -
  have inv: "sm_inv (txl_txs l)" by (rule reach_inv [OF assms(1)])
  have o: "ranges o1 (txl_txs l)" "ranges o2 (txl_txs l)" using assms(4) by simp_all
  show ?thesis
    using Filter_gapless [OF inv assms(2-4), of c g] Remove_gapless [OF inv assms(2,3) o, of tx]
      Forward_gapless [OF inv assms(3)] Cap_gapless [OF inv assms(3)] by blast
qed

definition pair_list :: txsList where
  "pair_list = snd (txl_Add (demo_tx 6) 10 (snd (txl_Add (demo_tx 5) 10 (newTxsList True))))"

lemma pair_list_ok: "list_reach pair_list" "txl_strict pair_list" "gapless (txl_txs pair_list)"
  "all_ranges ([5, 6], [6, 5], [5, 6], [6, 5]) (txl_txs pair_list)"
proof -
  show "list_reach pair_list" unfolding pair_list_def by (intro reach_add reach_new)
  have keys: "Mapping.keys (sm_items (txl_txs pair_list)) = {5, 6}" and strict: "txl_strict pair_list"
    by (auto simp: pair_list_def txl_Add_def newTxsList_def newTxSortedMap_def sm_Put_def sm_Get_def demo_tx_def
      lookup_update' lookup_empty Let_def)
  show "txl_strict pair_list" by (rule strict)
  have "x = 5 \<or> x = 6" if "5 \<le> x" "x \<le> 6" for x :: u64
  proof -
    have "unat x = 5 \<or> unat x = 6" using that by (simp add: word_le_nat_alt) linarith
    then show ?thesis by (auto simp: word_unat_eq_iff)
  qed
  then show "gapless (txl_txs pair_list)" by (auto simp: gapless_def keys dest: order_trans)
  show "all_ranges ([5, 6], [6, 5], [5, 6], [6, 5]) (txl_txs pair_list)" by (auto simp: ranges_def keys)
qed

theorem strict_list_gapless_witness:
  "gapless (txl_txs (snd (txl_Remove (demo_tx 6) ([5, 6], [6, 5]) pair_list))) \<and>
   sm_Get (txl_txs (snd (txl_Remove (demo_tx 6) ([5, 6], [6, 5]) pair_list))) 5 = Some (demo_tx 5) \<and>
   sm_Get (txl_txs (snd (txl_Remove (demo_tx 6) ([5, 6], [6, 5]) pair_list))) 6 = None"
proof -
  obtain f i l' where e: "txl_Remove (demo_tx 6) ([5, 6], [6, 5]) pair_list = ((f, i), l')"
    by (cases "txl_Remove (demo_tx 6) ([5, 6], [6, 5]) pair_list") fastforce
  have n: "tn_Nonce (demo_tx 6) = 6" by (simp add: demo_tx_def)
  have g: "sm_Get (txl_txs pair_list) 5 = Some (demo_tx 5)" "sm_Get (txl_txs pair_list) 6 = Some (demo_tx 6)"
    by (simp_all add: pair_list_def txl_Add_def newTxsList_def newTxSortedMap_def sm_Put_def sm_Get_def demo_tx_def
        lookup_update' lookup_empty Let_def)
  have f: "f" using e g(2) n pair_list_ok(2) by (auto simp: txl_Remove_def sm_Remove_def Let_def split: prod.splits)
  have "sm_items (txl_txs l') = Mapping.filter (\<lambda>n v. n < 6) (sm_items (txl_txs pair_list))"
    using txl_Remove_spec [OF reach_inv [OF pair_list_ok(1)] _ _ e] pair_list_ok(2,4) f n by auto
  then have "sm_Get (txl_txs l') 5 = Some (demo_tx 5)" "sm_Get (txl_txs l') 6 = None"
    using g by (simp_all add: sm_Get_def lookup_filter)
  moreover have "gapless (txl_txs l')"
    using strict_list_gapless [OF pair_list_ok, where tx = "demo_tx 6"] e by simp
  ultimately show ?thesis using e by simp
qed

section \<open>Replacing a transaction\<close>





text \<open>Adding transactions one after the other, counting those accepted at a nonce.\<close>

fun add_all :: "u64 \<Rightarrow> u64 \<Rightarrow> Transaction list \<Rightarrow> txsList \<Rightarrow> nat \<times> txsList" where
  "add_all priceBump n [] l = (0, l)"
| "add_all priceBump n (tx # txs) l =
     (let ((inserted, old), l1) = txl_Add tx priceBump l; (k, l2) = add_all priceBump n txs l1
      in (if inserted \<and> tn_Nonce tx = n then Suc k else k, l2))"

lemma add_step:
  assumes "sm_Get (txl_txs l) n = Some old" "txl_Add tx priceBump l = ((inserted, r), l1)"
  shows "\<exists>new. sm_Get (txl_txs l1) n = Some new \<and>
    (if inserted \<and> tn_Nonce tx = n then unat (tn_Gas old) < unat (tn_Gas new) \<and> unat (tn_GasPrice old) < unat (tn_GasPrice new)
     else new = old)"
proof -
  have g: "sm_Get (txl_txs l1) n = (if inserted \<and> tn_Nonce tx = n then Some tx else Some old)"
    using assms by (auto simp: txl_Add_def Let_def sm_Put_def sm_Get_def lookup_update' split: if_splits option.splits)
  have "replaces priceBump old tx" if "inserted" "tn_Nonce tx = n"
    using assms that by (auto simp: txl_Add_def Let_def split: if_splits)
  then have "tn_Gas old < tn_Gas tx \<and> tn_GasPrice old < tn_GasPrice tx" if "inserted" "tn_Nonce tx = n"
    using that by (auto simp: replaces_def not_le split: if_splits)
  then show ?thesis using g by (cases "inserted \<and> tn_Nonce tx = n") (auto simp: word_less_nat_alt)
qed

text \<open>
  C38: a nonce cannot be replaced for ever. However many transactions are added to a list that has one
  at a nonce, there still is one at the nonce, and with each replacement its gas limit and its price
  have grown by at least one; so there are no more replacements than the gas limit has grown.
\<close>

theorem replacements_climb:
  assumes "sm_Get (txl_txs l) n = Some old" "add_all priceBump n txs l = (k, l')"
  shows "\<exists>new. sm_Get (txl_txs l') n = Some new \<and> unat (tn_Gas old) + k \<le> unat (tn_Gas new) \<and>
    unat (tn_GasPrice old) + k \<le> unat (tn_GasPrice new)"
  using assms
proof (induction txs arbitrary: l old k)
  case Nil
  then show ?case by simp
next
  case (Cons tx txs)
  obtain inserted r l1 where a: "txl_Add tx priceBump l = ((inserted, r), l1)" by (metis surj_pair)
  obtain k1 l2 where b: "add_all priceBump n txs l1 = (k1, l2)" by (meson surj_pair)
  have k: "k = (if inserted \<and> tn_Nonce tx = n then Suc k1 else k1)" "l' = l2" using Cons.prems(2) a b by auto
  obtain mid where m: "sm_Get (txl_txs l1) n = Some mid"
      "if inserted \<and> tn_Nonce tx = n then unat (tn_Gas old) < unat (tn_Gas mid) \<and> unat (tn_GasPrice old) < unat (tn_GasPrice mid)
       else mid = old"
    using add_step [OF Cons.prems(1) a] by blast
  obtain new where "sm_Get (txl_txs l2) n = Some new" "unat (tn_Gas mid) + k1 \<le> unat (tn_Gas new)"
      "unat (tn_GasPrice mid) + k1 \<le> unat (tn_GasPrice new)"
    using Cons.IH [OF m(1), of k1] b k(2) by blast
  then show ?case using m(2) k by (auto split: if_splits)
qed

theorem replacements_climb_witness:
  "\<exists>l' new. add_all 10 6 [(demo_tx 6)\<lparr>tn_Fees := LegacyTx 11, tn_Gas := 21001\<rparr>, demo_tx 9] demo_list = (1, l') \<and>
     sm_Get (txl_txs l') 6 = Some new \<and> 21001 \<le> unat (tn_Gas new)"
proof -
  let ?txs = "[(demo_tx 6)\<lparr>tn_Fees := LegacyTx 11, tn_Gas := 21001\<rparr>, demo_tx 9]"
  have g: "sm_Get (txl_txs demo_list) 6 = Some (demo_tx 6)" by (simp add: sm_Get_def demo_list_items lookup_update' demo_tx_def)
  obtain l' where a: "add_all 10 6 ?txs demo_list = (1, l')"
    by (simp add: txl_Add_def Let_def g replaces_def demo_tx_def sm_Put_def) (simp add: sm_Get_def demo_list_items lookup_update' lookup_empty)
  show ?thesis using replacements_climb [OF g a] a by (auto simp: demo_tx_def)
qed

section \<open>The effective tip\<close>


lemma write_fee_cap_twice [simp]:
  "write_fee_cap v (write_fee_cap w f) = write_fee_cap v f" "gasFeeCap (write_fee_cap v f) = v" "gasPrice (write_fee_cap v f) = v"
  "write_fee_cap (gasFeeCap f) f = f" "gasPrice f = gasFeeCap f"
  by (cases f; simp)+





end
