(* ===== verification/Spec2Isabelle.thy ===== *)
theory Spec2Isabelle
  imports State_Props Evm_Props Rlp_Props Config_Props Fee_Props Apos_Props Apos_Mining Transition_Props Tx_Props
begin

text \<open>
  A verification library for the execution and consensus core of the AmazeChain node, a Go program.

  \<^bold>\<open>The program.\<close> A node keeps accounts in a state database (\<^verbatim>\<open>src/modules/state\<close>), executes messages on it
  with a virtual machine (\<^verbatim>\<open>src/internal/vm\<close>) under the rules of its chain configuration
  (\<^verbatim>\<open>src/params/config.go\<close>), charges them for gas (\<^verbatim>\<open>src/internal/state_transition.go\<close>,
  \<^verbatim>\<open>src/internal/consensus/misc\<close>), and agrees on blocks by a proof-of-authority engine in which a set of
  signers votes on its own members (\<^verbatim>\<open>src/internal/consensus/apos\<close>). Values are hashed and stored in the
  RLP encoding (\<^verbatim>\<open>src/internal/avm/rlp\<close>).

  \<^bold>\<open>Conventions.\<close> \<open>Amc_Prelude\<close> holds them. Go's integers are words of their width, 256-bit integers too;
  addresses and hashes are words of 160 and 256 bits; slices are lists; structs are records; Go maps
  are maps. An operation on a pointer takes the state and returns it updated. A panic is the outer
  \<open>None\<close>; errors are datatypes. In the machine a result is \<open>NoFuel\<close>, \<open>Panic\<close> or \<open>Ret\<close>. What the sources
  import from elsewhere is an argument: the hash and the account encoding of the state
  (\<open>Externals\<close>), the database reader, signature recovery, the snapshot cache and the
  header sealing (\<open>poa_env\<close>), and the precompiled contracts (\<open>env_precompile\<close>).

  \<^bold>\<open>State database.\<close> \<open>Access_List\<close> is \<^verbatim>\<open>access_list.go\<close>, with the interface \<open>warm_set\<close> that the list
  meets and its clients use. \<open>State_Types\<close> and \<open>State_DB\<close> are \<^verbatim>\<open>state_object.go\<close>, \<^verbatim>\<open>journal.go\<close> and
  \<^verbatim>\<open>intra_block_state.go\<close>: objects, the journal with one constructor per kind of entry, revisions, the
  pending balance increases, and the recording of what was read in \<^verbatim>\<open>entire.go\<close>. \<open>State_View\<close> says what
  a state means to a caller, \<open>State_Steps\<close>, \<open>State_Ops\<close> and \<open>State_Run\<close> that each operation is a step
  the journal can undo, \<open>State_Revert\<close> and \<open>State_Journal\<close> that undoing restores, for any sequence of
  operations with nested snapshots, and \<open>State_Props\<close> states the properties: reverting restores what
  callers see, reads agree with that view, only reverting to a revision that is not valid panics, and
  what exactly is not restored in the two uses the journal does not undo: a credit to an account that
  is read before the revert, and the mark of an account created in the transaction.

  \<^bold>\<open>Virtual machine.\<close> \<open>Evm_Base\<close>: checked arithmetic, stack, memory. \<open>Evm_Code\<close>: contracts and jump
  destinations, with the bit-vector analysis proved against its definition. \<open>Evm_Machine\<close>: rules,
  contexts, errors. \<open>Evm_Gas\<close>, \<open>Evm_Instructions\<close>, \<open>Evm_Calls\<close>, \<open>Evm_Jump_Table\<close>, \<open>Evm_Interpreter\<close>: gas
  tables, instructions, calls and creations, the instruction sets of all forks and the loop.
  \<open>Evm_Meter\<close>, \<open>Evm_Effects\<close>, \<open>Evm_Tables\<close>, \<open>Evm_Fuel\<close> and \<open>Evm_Props\<close> prove that every instruction does to the
  stack what its table entry declares, that the memory fee recorded is the fee of the memory, that
  gas never grows, and that every run ends, all on chains whose forks come in order (\<open>rules_fit\<close>) and
  without extra EIPs. The loop takes a number of rounds as fuel; a run with
  more fuel than the contract has gas never uses it up, and more fuel changes nothing.

  \<^bold>\<open>Messages.\<close> \<open>State_Transition\<close> is \<^verbatim>\<open>state_transition.go\<close>: checks, buying gas, intrinsic gas, the call
  or creation, refunds, fees. \<open>Transition_Props\<close>: the gas pool loses exactly what is charged, the
  charge is between the intrinsic gas less refunds and the gas bought, intrinsic gas is exact, and
  applying a message ends.

  \<^bold>\<open>Transaction lists.\<close> \<open>Transactions\<close> is what the pool reads of a transaction, with its fees
  (\<^verbatim>\<open>src/common/transaction\<close>). \<open>Go_Heap\<close> is Go's \<^verbatim>\<open>container/heap\<close> for any order (\<open>heap_order\<close>), proved to be a
  queue in the sense of the interface \<open>priority_queue\<close>. \<open>Tx_Lists\<close> is the list of one account in the pool
  (\<^verbatim>\<open>src/internal/txspool/txs_list.go\<close>), a map with a heap of its nonces, which interprets \<open>heap_order\<close>, and a
  cache; an operation that ranges over the map takes the order of the visits as an argument and the properties hold for
  every order. \<open>Tx_Props\<close>: heap and cache agree with the map in every list the operations
  produce; the operations return the right transactions in the order of the nonces and never panic; a
  strict list stays without gaps; the exact rule for replacing a transaction and a bound on how often it
  applies; and how asking for the effective tip lowers the fee cap.

  \<^bold>\<open>Encoding.\<close> \<open>Rlp\<close> is the buffer of the encoder, the writers and the raw splitter; \<open>Rlp_Props\<close> proves it
  against the recursive definition of RLP, with round trips and injectivity.

  \<^bold>\<open>Configuration.\<close> \<open>Chain_Config\<close> and \<open>Config_Props\<close>: which forks are active at a block, the order check
  and that it makes the rules cumulative, Prague apart, which nothing checks, compatibility of
  configurations and that its search ends.

  \<^bold>\<open>Consensus.\<close> \<open>Block_Header\<close>, \<open>Fee_Market\<close>, \<open>Apos_Snapshot\<close> and \<open>Apos_Engine\<close>: headers, gas limits and base
  fees, voting snapshots, and the engine with its search for snapshots. The search is a
  \<open>partial_function\<close>: not returning is \<open>None\<close>, a panic is \<open>Some None\<close>. \<open>Fee_Props\<close>, \<open>Apos_Props\<close>, \<open>Apos_History\<close> and \<open>Apos_Mining\<close>
  prove that limits the miner picks are accepted, that the signers change by majorities of an epoch only, that
  the tally is the recount of the votes, that some signer can always go on, that the snapshot found is
  the history applied to the genesis snapshot, that a missing ancestor makes the search panic, and that
  a mined block verifies.

  \<^bold>\<open>Not modelled.\<close> Tracing and logging of the machine do not change what is executed. Writing the state
  to disk, the history of it, the databases, the networking, the remote procedure calls, accounts and keys,
  and the command line are input and output around this core. The curves and hashes are
  parameters. The stream decoder of RLP works by reflection on Go types, as does the choice of a writer.
  The loop over the transactions of a block with its receipts and their bloom filters is left: it ends every
  transaction by writing the state. The pool around the lists of the accounts is goroutines and locks, and its list sorted by price
  compares transactions by a function that changes them. The engine's rewards, the waiting for its turn to seal and the aggregation of signatures
  depend on the clock, on channels and on contracts of the chain.
\<close>

end
